(* ===== verification/Prelude.thy ===== *)
theory Prelude
  imports Main "HOL-Library.Word" "HOL-Library.Multiset"
begin

text \<open>
  The shared ground of the development: the fact collections the component theories extend, the
  generic lemmas on lists and results that their proofs use, and the interfaces that recur
  in the program, each stated as a locale and interpreted in the theory that provides it:

  \<^item> \<open>finite_map_spec\<close>: what the code relies on of a \<^verbatim>\<open>HashMap\<close>;
  \<^item> \<open>invariant_system\<close>: a component whose steps keep an invariant, so that every reachable
    state satisfies it;
  \<^item> \<open>forward_simulation\<close>: such a component that implements an abstract machine;
  \<^item> \<open>codec\<close>: an encoder and a partial decoder that inverts it (hex codes, stored records,
    framed messages).
\<close>

section \<open>Fact collections\<close>

named_theorems table_simps \<open>equations of the lease table's operations on a given state\<close>
named_theorems inv_intros \<open>one step keeps the invariant of its component\<close>
named_theorems const_defs \<open>the numeric constants of the program\<close>

section \<open>Machine integers and results\<close>

type_synonym u8 = "8 word"
type_synonym u16 = "16 word"
type_synonym u32 = "32 word"
type_synonym u64 = "64 word"

text \<open>\<^verbatim>\<open>anyhow::Result<T>\<close>: the error on the left, the value on the right.\<close>

type_synonym ('e, 'a) result = "'e + 'a"

abbreviation Err :: "'e \<Rightarrow> ('e, 'a) result" where
  "Err \<equiv> Inl"

abbreviation Ok :: "'a \<Rightarrow> ('e, 'a) result" where
  "Ok \<equiv> Inr"

definition is_ok :: "('e, 'a) result \<Rightarrow> bool" where
  "is_ok r = (case r of Inl _ \<Rightarrow> False | Inr _ \<Rightarrow> True)"

lemma is_ok_simps [simp]: "is_ok (Inl e) = False" "is_ok (Inr x) = True"
  by (simp_all add: is_ok_def)

lemma is_ok_iff: "is_ok r \<longleftrightarrow> (\<exists>x. r = Inr x)"
  by (cases r) auto

text \<open>\<^verbatim>\<open>iter().map(f).collect::<Result<Vec<_>>>()\<close>: the values in order, or the first error.\<close>

fun collect_results :: "('a \<Rightarrow> ('e, 'b) result) \<Rightarrow> 'a list \<Rightarrow> ('e, 'b list) result" where
  "collect_results f [] = Inr []"
| "collect_results f (x # xs) =
     (case f x of
        Inl e \<Rightarrow> Inl e
      | Inr y \<Rightarrow> (case collect_results f xs of Inl e \<Rightarrow> Inl e | Inr ys \<Rightarrow> Inr (y # ys)))"

lemma collect_results_all:
  "(\<And>x. x \<in> set xs \<Longrightarrow> f x = Inr (g x)) \<Longrightarrow> collect_results f xs = Inr (map g xs)"
  by (induction xs) auto

lemma collect_results_Inr_iff:
  "collect_results f xs = Inr ys \<longleftrightarrow> list_all2 (\<lambda>x y. f x = Inr y) xs ys"
proof (induction xs arbitrary: ys)
  case Nil
  then show ?case by auto
next
  case (Cons x xs)
  show ?case
  proof (cases "\<exists>y. f x = Inr y")
    case True
    then obtain y where y: "f x = Inr y" ..
    show ?thesis
    proof
      assume "collect_results f (x # xs) = Inr ys"
      with y obtain zs where "collect_results f xs = Inr zs" and "ys = y # zs"
        by (auto split: sum.splits)
      with y Cons.IH[of zs] show "list_all2 (\<lambda>x y. f x = Inr y) (x # xs) ys" by simp
    next
      assume "list_all2 (\<lambda>x y. f x = Inr y) (x # xs) ys"
      with y obtain zs where "list_all2 (\<lambda>x y. f x = Inr y) xs zs" and "ys = y # zs"
        by (auto simp: list_all2_Cons1)
      with y Cons.IH[of zs] show "collect_results f (x # xs) = Inr ys" by simp
    qed
  next
    case False
    then show ?thesis by (cases "f x") (auto simp: list_all2_Cons1)
  qed
qed

lemma option_eqI:
  assumes "\<And>x. a = Some x \<longleftrightarrow> b = Some x"
  shows "a = b"
proof (cases a)
  case None
  then have "\<forall>x. b \<noteq> Some x" using assms by simp
  then show ?thesis using None by simp
next
  case (Some x)
  then show ?thesis using assms [of x] by simp
qed

section \<open>Lists\<close>

text \<open>
  Pairwise conditions on the entries of a table are \<open>sorted_wrt\<close> of a symmetric relation: closed
  under filtering, and a new head only has to be compared with the entries that stay.
\<close>

lemma sorted_wrt_symmetricD:
  assumes "sorted_wrt P xs" and "symp P" and "x \<in> set xs" and "y \<in> set xs" and "x \<noteq> y"
  shows "P x y"
  using assms by (induction xs) (auto dest: sympD)

lemma sorted_wrt_perm:
  assumes "mset xs = mset ys" and "symp P" and "sorted_wrt P xs"
  shows "sorted_wrt P ys"
  using assms
proof (induction xs arbitrary: ys)
  case Nil
  then show ?case by simp
next
  case (Cons x xs)
  have "x \<in> set ys"
    using Cons.prems(1) by (metis list.set_intros(1) mset_eq_setD)
  then obtain as bs where ys: "ys = as @ x # bs"
    by (meson split_list)
  have "mset xs = mset (as @ bs)"
    using Cons.prems(1) ys by simp
  then have IH: "sorted_wrt P (as @ bs)" and st: "set xs = set (as @ bs)"
    using Cons.IH Cons.prems(2,3) by (simp, blast dest: mset_eq_setD)
  have "\<forall>y \<in> set as \<union> set bs. P x y"
    using Cons.prems(3) st by auto
  then show ?case
    using IH Cons.prems(2) unfolding ys by (auto simp: sorted_wrt_append dest: sympD)
qed

lemma find_eq_of_unique:
  assumes "x \<in> set xs" and "P x" and "\<And>y. y \<in> set xs \<Longrightarrow> P y \<Longrightarrow> y = x"
  shows "find P xs = Some x"
  using assms
proof (induction xs)
  case (Cons y ys)
  show ?case
  proof (cases "P y")
    case True
    then show ?thesis using Cons.prems(3) by simp
  next
    case False
    then have "x \<in> set ys" using Cons.prems(1,2) by auto
    then have "find P ys = Some x"
      using Cons.prems(2,3) by (intro Cons.IH) (simp_all only: list.set_intros)
    then show ?thesis using False by simp
  qed
qed simp

lemma find_Some_set: "find P xs = Some x \<Longrightarrow> x \<in> set xs \<and> P x"
  by (induction xs) (auto split: if_splits)

lemma find_None_set: "find P xs = None \<longleftrightarrow> (\<forall>x \<in> set xs. \<not> P x)"
  by (auto simp: find_None_iff)

lemma length_filter_le_mono:
  "(\<And>x. x \<in> set xs \<Longrightarrow> P x \<Longrightarrow> Q x) \<Longrightarrow> length (filter P xs) \<le> length (filter Q xs)"
  by (induction xs) auto

lemma length_filter_conj_le: "length (filter (\<lambda>x. P x \<and> Q x) xs) \<le> length (filter Q xs)"
  by (rule length_filter_le_mono) simp

lemma insort_key_map: "insort_key f (g x) (map g xs) = map g (insort_key (\<lambda>x. f (g x)) x xs)"
  by (induction xs) auto

lemma sort_key_map: "sort_key f (map g xs) = map g (sort_key (\<lambda>x. f (g x)) xs)"
  by (induction xs) (simp_all add: sort_key_def foldr_map insort_key_map o_def)

section \<open>The interface of a finite map\<close>

text \<open>
  The operations of \<^verbatim>\<open>std::collections::HashMap\<close> the program uses. A client sees the map through
  \<open>get\<close> only; the derived lemma is the program's recurring pattern of moving an entry from one
  key to another (\<^verbatim>\<open>remove\<close> then \<^verbatim>\<open>insert\<close>).
\<close>

locale finite_map_spec =
  fixes empty :: "'m"
    and get :: "'m \<Rightarrow> 'k \<Rightarrow> 'v option"
    and put :: "'k \<Rightarrow> 'v \<Rightarrow> 'm \<Rightarrow> 'm"
    and remove :: "'k \<Rightarrow> 'm \<Rightarrow> 'm"
    and retain :: "('k \<Rightarrow> 'v \<Rightarrow> bool) \<Rightarrow> 'm \<Rightarrow> 'm"
    and wf :: "'m \<Rightarrow> bool"
  assumes get_empty: "get empty k = None"
    and get_put: "get (put k v m) k' = (if k' = k then Some v else get m k')"
    and get_remove: "get (remove k m) k' = (if k' = k then None else get m k')"
    and get_retain: "wf m \<Longrightarrow> get (retain P m) k =
       (case get m k of None \<Rightarrow> None | Some v \<Rightarrow> if P k v then Some v else None)"
    and wf_empty: "wf empty"
    and wf_put: "wf m \<Longrightarrow> wf (put k v m)"
    and wf_remove: "wf m \<Longrightarrow> wf (remove k m)"
    and wf_retain: "wf m \<Longrightarrow> wf (retain P m)"
begin

lemma get_move:
  "get (put new v (remove old m)) k =
     (if k = new then Some v else if k = old then None else get m k)"
  by (simp add: get_put get_remove)

lemma wf_move: "wf m \<Longrightarrow> wf (put new v (remove old m))"
  by (simp add: wf_put wf_remove)

lemma get_retain_Some: "wf m \<Longrightarrow> get (retain P m) k = Some v \<Longrightarrow> get m k = Some v \<and> P k v"
  by (auto simp: get_retain split: option.splits if_splits)

end

section \<open>Components with an invariant\<close>

text \<open>
  The reachable states of a machine with a step relation, and the contract of a component whose
  every step keeps an invariant.
\<close>

inductive reachable_by :: "('s \<Rightarrow> bool) \<Rightarrow> ('s \<Rightarrow> 's \<Rightarrow> bool) \<Rightarrow> 's \<Rightarrow> bool"
  for start :: "'s \<Rightarrow> bool" and step :: "'s \<Rightarrow> 's \<Rightarrow> bool" where
  reach_start: "start s \<Longrightarrow> reachable_by start step s"
| reach_step: "reachable_by start step s \<Longrightarrow> step s s' \<Longrightarrow> reachable_by start step s'"

locale invariant_system =
  fixes start :: "'s \<Rightarrow> bool"
    and step :: "'s \<Rightarrow> 's \<Rightarrow> bool"
    and invar :: "'s \<Rightarrow> bool"
  assumes invar_start: "start s \<Longrightarrow> invar s"
    and invar_step: "step s s' \<Longrightarrow> invar s \<Longrightarrow> invar s'"
begin

lemma invar_reachable: "reachable_by start step s \<Longrightarrow> invar s"
  by (induction rule: reachable_by.induct) (auto intro: invar_start invar_step)

lemma invar_steps: "step\<^sup>*\<^sup>* s s' \<Longrightarrow> invar s \<Longrightarrow> invar s'"
  by (induction rule: rtranclp_induct) (auto intro: invar_step)

end

text \<open>
  A component that implements an abstract machine: each of its steps is zero or more steps of the
  abstract one. Then the abstract view of every reachable state is reachable abstractly.
\<close>

locale forward_simulation = invariant_system +
  fixes abs_state :: "'s \<Rightarrow> 'a"
    and astart :: "'a \<Rightarrow> bool"
    and astep :: "'a \<Rightarrow> 'a \<Rightarrow> bool"
  assumes sim_start: "start s \<Longrightarrow> astart (abs_state s)"
    and sim_step: "step s s' \<Longrightarrow> invar s \<Longrightarrow> astep\<^sup>*\<^sup>* (abs_state s) (abs_state s')"
begin

lemma reachable_by_steps:
  "astep\<^sup>*\<^sup>* a b \<Longrightarrow> reachable_by astart astep a \<Longrightarrow> reachable_by astart astep b"
  by (induction rule: rtranclp_induct) (auto intro: reachable_by.reach_step)

lemma sim_reachable:
  assumes "reachable_by start step s"
  shows "reachable_by astart astep (abs_state s)"
  using assms
proof (induction rule: reachable_by.induct)
  case (reach_start s)
  then show ?case by (auto intro: reachable_by.reach_start sim_start)
next
  case (reach_step s s')
  then show ?case
    using invar_reachable [OF reach_step(1)] sim_step reachable_by_steps by blast
qed

end

section \<open>Encoders and decoders\<close>

locale codec =
  fixes enc :: "'a \<Rightarrow> 'b"
    and dec :: "'b \<Rightarrow> ('e, 'a) result"
    and ok :: "'a \<Rightarrow> bool"
  assumes dec_enc: "ok x \<Longrightarrow> dec (enc x) = Inr x"
begin

lemma enc_inj: "ok x \<Longrightarrow> ok y \<Longrightarrow> enc x = enc y \<Longrightarrow> x = y"
  by (metis dec_enc sum.inject(2))

lemma collect_dec_enc:
  "(\<And>x. x \<in> set xs \<Longrightarrow> ok x) \<Longrightarrow> collect_results dec (map enc xs) = Inr xs"
  by (induction xs) (auto simp: dec_enc)

end

end
