(* ===== verification/Rust_Std.thy ===== *)
theory Rust_Std
  imports Prelude
begin

unbundle bit_operations_syntax

text \<open>
  The parts of the Rust standard library the program calls, as executable definitions: saturating
  and checked arithmetic, \<^verbatim>\<open>HashMap\<close> (an association list in iteration order, which the standard
  library leaves open: see the order-independence theorems of the lease components),
  \<^verbatim>\<open>std::net::IpAddr\<close>, ASCII and UTF-8 string functions, hexadecimal formatting and parsing, and
  \<^verbatim>\<open>std::time::Duration\<close>. The interpretation \<open>hm\<close> discharges the finite-map interface.
\<close>

section \<open>Integers\<close>

definition saturating_add_u64 :: "u64 \<Rightarrow> u64 \<Rightarrow> u64" where
  "saturating_add_u64 a b = (if a + b < a then - 1 else a + b)"

definition checked_add_u64 :: "u64 \<Rightarrow> u64 \<Rightarrow> u64 option" where
  "checked_add_u64 a b = (if a + b < a then None else Some (a + b))"

lemma unat_u64_lt: "unat (a :: u64) < 18446744073709551616"
  using unsigned_less [of a] by simp

lemma unat_add_no_overflow:
  "unat (a :: u64) + unat b < 18446744073709551616 \<Longrightarrow> unat (a + b) = unat a + unat b"
  by (simp add: unat_word_ariths)

lemma add_overflow_iff: "(a :: u64) + b < a \<longleftrightarrow> 18446744073709551616 \<le> unat a + unat b"
proof (cases "unat a + unat b < 18446744073709551616")
  case True
  then show ?thesis by (simp add: word_less_nat_alt unat_add_no_overflow)
next
  case False
  have "unat (a + b) = (unat a + unat b) mod 18446744073709551616"
    by (simp add: unat_word_ariths)
  also have "\<dots> = unat a + unat b - 18446744073709551616"
    using False unat_u64_lt [of a] unat_u64_lt [of b] by (simp add: mod_if)
  finally show ?thesis
    using False unat_u64_lt [of b] by (simp add: word_less_nat_alt)
qed

lemma unat_saturating_add:
  "unat (saturating_add_u64 a b) = min (unat a + unat b) (2 ^ 64 - 1)"
proof -
  have "unat (- 1 :: u64) = 2 ^ 64 - 1"
    by (simp add: unsigned_minus_1_eq_mask mask_eq_exp_minus_1)
  then show ?thesis
    by (auto simp: saturating_add_u64_def add_overflow_iff unat_add_no_overflow)
qed

lemma saturating_add_ge: "a \<le> saturating_add_u64 a b"
  using unat_u64_lt [of a] by (simp add: word_le_nat_alt unat_saturating_add)

lemma saturating_add_mono: "a \<le> a' \<Longrightarrow> saturating_add_u64 a b \<le> saturating_add_u64 a' b"
  by (simp add: word_le_nat_alt unat_saturating_add)

lemma checked_add_Some: "checked_add_u64 a b = Some c \<Longrightarrow> unat c = unat a + unat b"
  by (auto simp: checked_add_u64_def add_overflow_iff unat_add_no_overflow split: if_splits)

lemma checked_add_None: "checked_add_u64 a b = None \<longleftrightarrow> 2 ^ 64 \<le> unat a + unat b"
  by (auto simp: checked_add_u64_def add_overflow_iff)

section \<open>HashMap\<close>

type_synonym ('k, 'v) hash_map = "('k \<times> 'v) list"

definition hm_get :: "('k, 'v) hash_map \<Rightarrow> 'k \<Rightarrow> 'v option" where
  "hm_get m k = map_of m k"

definition hm_contains_key :: "('k, 'v) hash_map \<Rightarrow> 'k \<Rightarrow> bool" where
  "hm_contains_key m k = (hm_get m k \<noteq> None)"

definition hm_values :: "('k, 'v) hash_map \<Rightarrow> 'v list" where
  "hm_values m = map snd m"

definition hm_remove :: "'k \<Rightarrow> ('k, 'v) hash_map \<Rightarrow> ('k, 'v) hash_map" where
  "hm_remove k m = filter (\<lambda>e. fst e \<noteq> k) m"

definition hm_insert :: "'k \<Rightarrow> 'v \<Rightarrow> ('k, 'v) hash_map \<Rightarrow> ('k, 'v) hash_map" where
  "hm_insert k v m = (k, v) # hm_remove k m"

definition hm_retain :: "('k \<Rightarrow> 'v \<Rightarrow> bool) \<Rightarrow> ('k, 'v) hash_map \<Rightarrow> ('k, 'v) hash_map" where
  "hm_retain P m = filter (\<lambda>e. P (fst e) (snd e)) m"

definition hm_wf :: "('k, 'v) hash_map \<Rightarrow> bool" where
  "hm_wf m = distinct (map fst m)"

lemma hm_get_remove_eq: "hm_get (hm_remove k m) k' = (if k' = k then None else hm_get m k')"
  by (induction m) (auto simp: hm_get_def hm_remove_def)

lemma hm_get_insert_eq: "hm_get (hm_insert k v m) k' = (if k' = k then Some v else hm_get m k')"
  using hm_get_remove_eq [of k m k'] by (simp add: hm_insert_def hm_get_def)

lemma hm_get_retain_eq:
  "hm_wf m \<Longrightarrow> hm_get (hm_retain P m) k =
     (case hm_get m k of None \<Rightarrow> None | Some v \<Rightarrow> if P k v then Some v else None)"
proof (induction m)
  case (Cons e m)
  have "map_of (filter (\<lambda>e. P (fst e) (snd e)) m) (fst e) = None"
    using Cons.prems by (auto simp: hm_wf_def map_of_eq_None_iff)
  then show ?case using Cons by (auto simp: hm_get_def hm_retain_def hm_wf_def)
qed (simp add: hm_get_def hm_retain_def)

lemma hm_get_Nil: "hm_get [] k = None"
  by (simp add: hm_get_def)

lemma hm_wf_Nil: "hm_wf []"
  by (simp add: hm_wf_def)

lemma hm_wf_filter: "hm_wf m \<Longrightarrow> hm_wf (filter P m)"
  by (simp add: hm_wf_def distinct_map_filter)

lemma hm_wf_insert: "hm_wf m \<Longrightarrow> hm_wf (hm_insert k v m)"
  using hm_wf_filter [of m "\<lambda>e. fst e \<noteq> k"]
  by (auto simp: hm_wf_def hm_insert_def hm_remove_def)

interpretation hm: finite_map_spec "[]" hm_get hm_insert hm_remove hm_retain hm_wf
  by unfold_locales
    (simp_all add: hm_get_Nil hm_get_insert_eq hm_get_remove_eq hm_get_retain_eq hm_wf_Nil
      hm_wf_insert, simp_all add: hm_remove_def hm_retain_def hm_wf_filter)

lemma hm_get_in_set: "hm_get m k = Some v \<Longrightarrow> (k, v) \<in> set m"
  by (simp add: hm_get_def map_of_SomeD)

lemma hm_get_iff: "hm_wf m \<Longrightarrow> hm_get m k = Some v \<longleftrightarrow> (k, v) \<in> set m"
  by (simp add: hm_get_def hm_wf_def)

lemma hm_get_None_iff: "hm_get m k = None \<longleftrightarrow> k \<notin> fst ` set m"
  by (simp add: hm_get_def map_of_eq_None_iff)

lemma set_hm_remove: "set (hm_remove k m) = {e \<in> set m. fst e \<noteq> k}"
  by (simp add: hm_remove_def)

lemma set_hm_insert: "set (hm_insert k v m) = insert (k, v) {e \<in> set m. fst e \<noteq> k}"
  by (simp add: hm_insert_def set_hm_remove)

lemma hm_remove_absent: "hm_get m k = None \<Longrightarrow> hm_remove k m = m"
  by (force simp: hm_get_None_iff hm_remove_def filter_id_conv)

section \<open>IP addresses\<close>

text \<open>\<^verbatim>\<open>std::net::IpAddr\<close>; the octets of an IPv6 address are in network order.\<close>

datatype IpAddr = V4 u32 | V6 "128 word"

definition octets_v6 :: "128 word \<Rightarrow> u8 list" where
  "octets_v6 a = map (\<lambda>i. ucast (drop_bit (8 * i) a)) (rev [0..<16])"

definition ipv4_of_octets :: "u8 \<Rightarrow> u8 \<Rightarrow> u8 \<Rightarrow> u8 \<Rightarrow> u32" where
  "ipv4_of_octets a b c d =
     push_bit 24 (ucast a) OR push_bit 16 (ucast b) OR push_bit 8 (ucast c) OR ucast d"

text \<open>\<^verbatim>\<open>Ipv6Addr::to_ipv4_mapped\<close>: the addresses \<^verbatim>\<open>::ffff:a.b.c.d\<close> only.\<close>

definition to_ipv4_mapped :: "128 word \<Rightarrow> u32 option" where
  "to_ipv4_mapped a =
     (if take 12 (octets_v6 a) = replicate 10 0 @ [255, 255]
      then Some (ipv4_of_octets (octets_v6 a ! 12) (octets_v6 a ! 13)
                   (octets_v6 a ! 14) (octets_v6 a ! 15))
      else None)"

lemma length_octets_v6 [simp]: "length (octets_v6 a) = 16"
  by (simp add: octets_v6_def)

section \<open>Input and output errors\<close>

text \<open>\<^verbatim>\<open>std::io::ErrorKind\<close>, as far as the program distinguishes it.\<close>

datatype io_error = NotFound | AlreadyExists | AddrInUse | UnexpectedEof | OtherIo

section \<open>Strings\<close>

text \<open>A \<^verbatim>\<open>str\<close> is its UTF-8 bytes; \<^verbatim>\<open>len\<close> counts bytes, as \<open>length\<close> does here.\<close>

definition is_ascii :: "string \<Rightarrow> bool" where
  "is_ascii s = list_all (\<lambda>c. (of_char c :: nat) < 128) s"

definition to_ascii_lowercase :: "char \<Rightarrow> char" where
  "to_ascii_lowercase c =
     (let n = of_char c :: nat in if 65 \<le> n \<and> n \<le> 90 then char_of (n + 32) else c)"

definition eq_ignore_ascii_case :: "string \<Rightarrow> string \<Rightarrow> bool" where
  "eq_ignore_ascii_case a b = (map to_ascii_lowercase a = map to_ascii_lowercase b)"

definition is_ascii_hexdigit :: "char \<Rightarrow> bool" where
  "is_ascii_hexdigit c =
     (let n = of_char c :: nat
      in 48 \<le> n \<and> n \<le> 57 \<or> 97 \<le> n \<and> n \<le> 102 \<or> 65 \<le> n \<and> n \<le> 70)"

definition is_ascii_uppercase :: "char \<Rightarrow> bool" where
  "is_ascii_uppercase c = (let n = of_char c :: nat in 65 \<le> n \<and> n \<le> 90)"

text \<open>
  \<^verbatim>\<open>str::trim\<close> removes white space of the Unicode property at both ends. The length in bytes of a
  white-space character that a text starts with, 0 for none:
\<close>

fun ws_prefix :: "nat list \<Rightarrow> nat" where
  "ws_prefix (a # rest) =
     (if a = 32 \<or> 9 \<le> a \<and> a \<le> 13 then 1
      else case rest of
          b # rest' \<Rightarrow>
            (if a = 194 \<and> (b = 133 \<or> b = 160) then 2
             else case rest' of
                 c # _ \<Rightarrow>
                   (if a = 225 \<and> b = 154 \<and> c = 128
                     \<or> a = 226 \<and> b = 128 \<and> (128 \<le> c \<and> c \<le> 138 \<or> c = 168 \<or> c = 169 \<or> c = 175)
                     \<or> a = 226 \<and> b = 129 \<and> c = 159
                     \<or> a = 227 \<and> b = 128 \<and> c = 128 then 3 else 0)
               | [] \<Rightarrow> 0)
        | [] \<Rightarrow> 0)"
| "ws_prefix [] = 0"

definition ws_suffix :: "nat list \<Rightarrow> nat" where
  "ws_suffix s =
     (if ws_prefix (drop (length s - 1) s) = 1 then 1
      else if ws_prefix (drop (length s - 2) s) = 2 then 2
      else if ws_prefix (drop (length s - 3) s) = 3 then 3 else 0)"

definition str_bytes :: "string \<Rightarrow> nat list" where
  "str_bytes s = map of_char s"

function trim_start :: "string \<Rightarrow> string" where
  "trim_start s =
     (let n = ws_prefix (str_bytes s)
      in if n = 0 \<or> s = [] then s else trim_start (drop n s))"
  by pat_completeness auto
termination
  by (relation "measure length") auto

function trim_end :: "string \<Rightarrow> string" where
  "trim_end s =
     (let n = ws_suffix (str_bytes s)
      in if n = 0 \<or> s = [] then s else trim_end (take (length s - n) s))"
  by pat_completeness auto
termination
  by (relation "measure length") auto

declare trim_start.simps [simp del] trim_end.simps [simp del]

definition trim :: "string \<Rightarrow> string" where
  "trim s = trim_end (trim_start s)"

section \<open>Hexadecimal\<close>

definition hex_value :: "char \<Rightarrow> nat option" where
  "hex_value c =
     (let n = of_char c :: nat
      in if 48 \<le> n \<and> n \<le> 57 then Some (n - 48)
         else if 97 \<le> n \<and> n \<le> 102 then Some (n - 87)
         else if 65 \<le> n \<and> n \<le> 70 then Some (n - 55)
         else None)"

fun radix16_digits :: "nat \<Rightarrow> string \<Rightarrow> nat option" where
  "radix16_digits acc [] = Some acc"
| "radix16_digits acc (c # cs) =
     (case hex_value c of
        None \<Rightarrow> None
      | Some d \<Rightarrow> if acc * 16 + d < 256 then radix16_digits (acc * 16 + d) cs else None)"

text \<open>
  \<^verbatim>\<open>u8::from_str_radix(_, 16)\<close>: an optional leading plus sign, then at least one digit, upper or
  lower case; \<open>None\<close> for every parse error.
\<close>

definition u8_from_str_radix16 :: "string \<Rightarrow> u8 option" where
  "u8_from_str_radix16 s =
     map_option of_nat
      (if s = [] \<or> s = ''+'' \<or> s = ''-'' then None
       else if hd s = CHR ''+'' then radix16_digits 0 (tl s)
       else radix16_digits 0 s)"

definition hex_char :: "nat \<Rightarrow> char" where
  "hex_char n = char_of (if n < 10 then n + 48 else n + 87)"

text \<open>\<^verbatim>\<open>Display\<close> of an unsigned integer.\<close>

fun display_nat :: "nat \<Rightarrow> string" where
  "display_nat n =
     (if n < 10 then [char_of (n + 48)] else display_nat (n div 10) @ [char_of (n mod 10 + 48)])"

declare display_nat.simps [simp del]

text \<open>The format directive \<^verbatim>\<open>{byte:02x}\<close>.\<close>

definition fmt_02x :: "u8 \<Rightarrow> string" where
  "fmt_02x b = [hex_char (unat b div 16), hex_char (unat b mod 16)]"

lemma of_char_hex_char: "n < 16 \<Longrightarrow> of_char (hex_char n) = (if n < 10 then n + 48 else n + 87 :: nat)"
  by (auto simp: hex_char_def)

lemma hex_value_hex_char: "n < 16 \<Longrightarrow> hex_value (hex_char n) = Some n"
  by (auto simp: hex_value_def of_char_hex_char Let_def)

lemma hex_char_hexdigit:
  "n < 16 \<Longrightarrow> is_ascii_hexdigit (hex_char n) \<and> \<not> is_ascii_uppercase (hex_char n)"
  by (auto simp: is_ascii_hexdigit_def is_ascii_uppercase_def of_char_hex_char Let_def)

lemma unat_u8_lt: "unat (b :: u8) < 256"
  using unsigned_less [of b] by simp

lemma hex_char_not_sign: "n < 16 \<Longrightarrow> hex_char n \<noteq> CHR ''+'' \<and> hex_char n \<noteq> CHR ''-''"
  using of_char_hex_char [of n] by (auto split: if_splits)

lemma u8_from_str_radix16_fmt: "u8_from_str_radix16 (fmt_02x b) = Some b"
proof -
  have lt: "unat b div 16 < 16" "unat b mod 16 < 16"
    using unat_u8_lt [of b] by simp_all
  have "unat b div 16 * 16 + unat b mod 16 = unat b"
    by simp
  then have "radix16_digits 0 (fmt_02x b) = Some (unat b)"
    using lt unat_u8_lt [of b] by (simp add: fmt_02x_def hex_value_hex_char)
  then show ?thesis
    using hex_char_not_sign [OF lt(1)]
    by (simp add: u8_from_str_radix16_def) (simp add: fmt_02x_def)
qed

text \<open>The loop of both hex parsers of the program: 32 two-character slices.\<close>

definition hex_slice :: "string \<Rightarrow> nat \<Rightarrow> string" where
  "hex_slice s i = take 2 (drop (i * 2) s)"

definition hex_encode :: "u8 list \<Rightarrow> string" where
  "hex_encode bs = concat (map fmt_02x bs)"

lemma length_fmt_02x [simp]: "length (fmt_02x b) = 2"
  by (simp add: fmt_02x_def)

lemma length_hex_encode [simp]: "length (hex_encode bs) = 2 * length bs"
  by (induction bs) (simp_all add: hex_encode_def)

lemma hex_encode_lower:
  "list_all (\<lambda>c. is_ascii_hexdigit c \<and> \<not> is_ascii_uppercase c) (hex_encode bs)"
proof -
  have "list_all (\<lambda>c. is_ascii_hexdigit c \<and> \<not> is_ascii_uppercase c) (fmt_02x b)" for b
    using unat_u8_lt [of b] by (simp add: fmt_02x_def hex_char_hexdigit)
  then show ?thesis
    by (induction bs) (simp_all add: hex_encode_def)
qed

lemma hexdigit_ascii: "is_ascii_hexdigit c \<Longrightarrow> (of_char c :: nat) < 128"
  by (auto simp: is_ascii_hexdigit_def Let_def)

lemma hex_encode_ascii: "is_ascii (hex_encode bs)"
  using hex_encode_lower [of bs] by (auto simp: is_ascii_def list_all_iff hexdigit_ascii)

lemma hex_slice_encode: "i < length bs \<Longrightarrow> hex_slice (hex_encode bs) i = fmt_02x (bs ! i)"
proof (induction bs arbitrary: i)
  case (Cons b bs)
  then show ?case
    by (cases i) (simp_all add: hex_slice_def hex_encode_def)
qed simp

text \<open>The same operations over integers, the code equations used to evaluate concrete runs.\<close>

lemma char_le_int:
  "n \<le> (of_char c :: nat) \<longleftrightarrow> int n \<le> of_char c" "(of_char c :: nat) \<le> n \<longleftrightarrow> of_char c \<le> int n"
  "(of_char c :: nat) < n \<longleftrightarrow> of_char c < int n"
  by (simp_all flip: of_nat_of_char [where 'a = int])

lemma is_ascii_code [code]: "is_ascii s = list_all (\<lambda>c. (of_char c :: int) < 128) s"
  by (simp add: is_ascii_def char_le_int)

lemma is_ascii_hexdigit_code [code]:
  "is_ascii_hexdigit c =
     (let n = of_char c :: int in 48 \<le> n \<and> n \<le> 57 \<or> 97 \<le> n \<and> n \<le> 102 \<or> 65 \<le> n \<and> n \<le> 70)"
  by (simp add: is_ascii_hexdigit_def char_le_int Let_def)

lemma is_ascii_uppercase_code [code]:
  "is_ascii_uppercase c = (let n = of_char c :: int in 65 \<le> n \<and> n \<le> 90)"
  by (simp add: is_ascii_uppercase_def char_le_int Let_def)

lemma hex_value_code [code]:
  "hex_value c =
     (let n = of_char c :: int
      in if 48 \<le> n \<and> n \<le> 57 then Some (nat (n - 48))
         else if 97 \<le> n \<and> n \<le> 102 then Some (nat (n - 87))
         else if 65 \<le> n \<and> n \<le> 70 then Some (nat (n - 55))
         else None)"
proof -
  have "nat (of_char c - int k) = of_char c - k" for k
    by (simp flip: of_nat_of_char [where 'a = int])
  from this [of 48] this [of 87] this [of 55] show ?thesis
    by (simp add: hex_value_def char_le_int Let_def)
qed

definition hex_char_int :: "int \<Rightarrow> char" where
  "hex_char_int n = char_of (if n < 10 then n + 48 else n + 87)"

lemma hex_char_int: "hex_char_int (int n) = hex_char n"
proof -
  have "(char_of (int m) :: char) = char_of m" for m
    by (simp add: char_of_def bit_of_nat_iff_bit)
  from this [of "n + 48"] this [of "n + 87"] show ?thesis
    by (simp add: hex_char_int_def hex_char_def)
qed

lemma fmt_02x_code [code]: "fmt_02x b = [hex_char_int (uint b div 16), hex_char_int (uint b mod 16)]"
  by (simp add: fmt_02x_def zdiv_int zmod_int flip: hex_char_int)

section \<open>Duration\<close>

text \<open>
  \<^verbatim>\<open>std::time::Duration\<close>: seconds and a nanosecond part below one second, ordered by the time they
  add up to. \<open>Duration s n\<close> with \<open>n\<close> below \<open>10^9\<close> is the library's representation.
\<close>

datatype Duration = Duration (dur_secs: u64) (dur_nanos: u32)

definition NANOS_PER_SEC :: nat where
  "NANOS_PER_SEC = 1000000000"

definition from_secs :: "u64 \<Rightarrow> Duration" where
  "from_secs s = Duration s 0"

definition DURATION_MAX :: Duration where
  "DURATION_MAX = Duration (- 1) 999999999"

instantiation Duration :: linorder
begin

definition less_eq_Duration :: "Duration \<Rightarrow> Duration \<Rightarrow> bool" where
  "less_eq_Duration a b \<longleftrightarrow>
     dur_secs a < dur_secs b \<or> dur_secs a = dur_secs b \<and> dur_nanos a \<le> dur_nanos b"

definition less_Duration :: "Duration \<Rightarrow> Duration \<Rightarrow> bool" where
  "less_Duration a b \<longleftrightarrow>
     dur_secs a < dur_secs b \<or> dur_secs a = dur_secs b \<and> dur_nanos a < dur_nanos b"

instance
  by standard (auto simp: less_eq_Duration_def less_Duration_def intro: Duration.expand)

end

text \<open>
  \<^verbatim>\<open>Duration::saturating_mul\<close>: the nanoseconds carry into the seconds; a seconds overflow gives
  \<^verbatim>\<open>Duration::MAX\<close>.
\<close>

definition dur_saturating_mul :: "Duration \<Rightarrow> u32 \<Rightarrow> Duration" where
  "dur_saturating_mul d k =
     (let total = unat (dur_nanos d) * unat k;
          extra = total div NANOS_PER_SEC;
          nanos = total mod NANOS_PER_SEC;
          secs = unat (dur_secs d) * unat k + extra
      in if secs < 2 ^ 64 then Duration (of_nat secs) (of_nat nanos) else DURATION_MAX)"

end
