(* ===== verification/Host_Admission.thy ===== *)
theory Host_Admission
  imports Rust_Std
begin

unbundle bit_operations_syntax

text \<open>
  The component \<^verbatim>\<open>crates/server/src/host_admission.rs\<close>: the network a host comes from
  (\<^verbatim>\<open>HostSource\<close>: an IPv4 address, or the /64 prefix of an IPv6 address) and the per-network count
  of connections that await registration (\<^verbatim>\<open>PendingByIp\<close>). A permit is what \<^verbatim>\<open>try_acquire\<close> returns;
  dropping it gives the slot back. The step relation \<open>admission_step\<close> interleaves acquisitions and
  drops in any order; the invariant says that the table counts exactly the permits in flight.
\<close>

section \<open>Where a host comes from\<close>

datatype HostSource = SourceV4 u32 | SourceV6 "u8 list"

definition host_source_from :: "IpAddr \<Rightarrow> HostSource" where
  "host_source_from ip =
     (case ip of
        V4 a \<Rightarrow> SourceV4 a
      | V6 a \<Rightarrow>
          (case to_ipv4_mapped a of
             Some mapped \<Rightarrow> SourceV4 mapped
           | None \<Rightarrow> SourceV6 (take 8 (octets_v6 a))))"

lemma octets_v6_nth: "i < 16 \<Longrightarrow> octets_v6 a ! i = ucast (drop_bit (8 * (15 - i)) a)"
  by (simp add: octets_v6_def rev_nth del: upt_Suc upt.simps)

lemma bit_octet_v6: "i < 16 \<Longrightarrow> j < 8 \<Longrightarrow> bit (octets_v6 a ! i) j = bit a (8 * (15 - i) + j)"
  by (simp add: octets_v6_nth bit_simps)

lemma take8_octets_eq_iff:
  "take 8 (octets_v6 a) = take 8 (octets_v6 b) \<longleftrightarrow> drop_bit 64 a = drop_bit 64 b"
proof
  assume eq: "take 8 (octets_v6 a) = take 8 (octets_v6 b)"
  show "drop_bit 64 a = drop_bit 64 b"
  proof (rule bit_word_eqI)
    fix n :: nat
    assume "n < LENGTH(128)"
    show "bit (drop_bit 64 a) n = bit (drop_bit 64 b) n"
    proof (cases "n < 64")
      case True
      define i where "i = 7 - n div 8"
      have "n div 8 < 8" using True by simp
      then have i: "i < 8" "8 * (15 - i) + n mod 8 = 64 + n"
        unfolding i_def by auto
      have "octets_v6 a ! i = octets_v6 b ! i"
        using eq i(1) by (metis nth_take)
      then have "bit a (64 + n) = bit b (64 + n)"
        using bit_octet_v6 [of i "n mod 8" a] bit_octet_v6 [of i "n mod 8" b] i by simp
      then show ?thesis by (simp add: bit_simps)
    next
      case False
      then have "\<not> bit a (64 + n)" "\<not> bit b (64 + n)"
        by (auto simp: bit_imp_le_length dest!: bit_imp_le_length)
      then show ?thesis by (simp add: bit_simps)
    qed
  qed
next
  assume eq: "drop_bit 64 a = drop_bit 64 b"
  have "octets_v6 a ! i = octets_v6 b ! i" if "i < 8" for i
  proof (rule bit_word_eqI)
    fix j :: nat
    assume "j < LENGTH(8)"
    then have j: "j < 8" by simp
    have "bit (drop_bit 64 a) (8 * (7 - i) + j) = bit (drop_bit 64 b) (8 * (7 - i) + j)"
      by (simp add: eq)
    moreover have "64 + (8 * (7 - i) + j) = 8 * (15 - i) + j"
      using that by simp
    ultimately show "bit (octets_v6 a ! i) j = bit (octets_v6 b ! i) j"
      using bit_octet_v6 [of i j] that j by (simp add: bit_simps)
  qed
  then show "take 8 (octets_v6 a) = take 8 (octets_v6 b)"
    by (intro nth_equalityI) simp_all
qed

text \<open>The address \<^verbatim>\<open>::ffff:a.b.c.d\<close> of an IPv4 address.\<close>

definition v4_mapped_v6 :: "u32 \<Rightarrow> 128 word" where
  "v4_mapped_v6 v = push_bit 32 (mask 16) OR ucast v"

lemma bit_v4_mapped_v6:
  "bit (v4_mapped_v6 v) n \<longleftrightarrow> 32 \<le> n \<and> n < 48 \<or> n < 32 \<and> bit v n"
  by (auto simp: v4_mapped_v6_def bit_simps dest: bit_imp_le_length)

lemma octets_mapped_zero: "i < 10 \<Longrightarrow> octets_v6 (v4_mapped_v6 v) ! i = 0"
  by (rule bit_word_eqI) (auto simp: bit_octet_v6 bit_v4_mapped_v6)

lemma octets_mapped_ones: "i = 10 \<or> i = 11 \<Longrightarrow> octets_v6 (v4_mapped_v6 v) ! i = mask 8"
  by (rule bit_word_eqI) (auto simp: bit_octet_v6 bit_v4_mapped_v6 bit_simps)

lemma take12_mapped: "take 12 (octets_v6 (v4_mapped_v6 v)) = replicate 10 0 @ [255, 255]"
proof (rule nth_equalityI)
  fix i assume "i < length (take 12 (octets_v6 (v4_mapped_v6 v)))"
  then consider "i < 10" | "i = 10" | "i = 11" by force
  then show "take 12 (octets_v6 (v4_mapped_v6 v)) ! i = (replicate 10 0 @ [255, 255]) ! i"
    by cases (simp_all add: octets_mapped_zero octets_mapped_ones nth_append mask_eq_exp_minus_1)
qed simp

lemma ipv4_of_mapped:
  "ipv4_of_octets (octets_v6 (v4_mapped_v6 v) ! 12) (octets_v6 (v4_mapped_v6 v) ! 13)
     (octets_v6 (v4_mapped_v6 v) ! 14) (octets_v6 (v4_mapped_v6 v) ! 15) = v"
proof (rule bit_word_eqI)
  fix n :: nat
  assume "n < LENGTH(32)"
  then consider "n < 8" | "8 \<le> n" "n < 16" | "16 \<le> n" "n < 24" | "24 \<le> n" "n < 32" by force
  then show "bit (ipv4_of_octets (octets_v6 (v4_mapped_v6 v) ! 12) (octets_v6 (v4_mapped_v6 v) ! 13)
     (octets_v6 (v4_mapped_v6 v) ! 14) (octets_v6 (v4_mapped_v6 v) ! 15)) n = bit v n"
    by cases (auto simp: ipv4_of_octets_def bit_simps bit_octet_v6 bit_v4_mapped_v6
        dest: bit_imp_le_length)
qed

section \<open>Connections that await registration\<close>

record PendingByIp =
  pending_limit :: nat
  counts :: "(HostSource, nat) hash_map"

record PendingHostPermit =
  permit_source :: HostSource

definition PendingByIp_new :: "nat \<Rightarrow> PendingByIp" where
  "PendingByIp_new limit = \<lparr>pending_limit = limit, counts = []\<rparr>"

text \<open>\<^verbatim>\<open>counts.entry(source).or_default()\<close> creates the entry before the limit is looked at.\<close>

definition try_acquire :: "IpAddr \<Rightarrow> PendingByIp \<Rightarrow> PendingHostPermit option \<times> PendingByIp" where
  "try_acquire ip p =
     (let source = host_source_from ip;
          entered = (if hm_contains_key (counts p) source then counts p
                     else hm_insert source 0 (counts p));
          current = (case hm_get entered source of Some n \<Rightarrow> n | None \<Rightarrow> 0)
      in if pending_limit p \<le> current then (None, p\<lparr>counts := entered\<rparr>)
         else (Some \<lparr>permit_source = source\<rparr>,
               p\<lparr>counts := hm_insert source (current + 1) entered\<rparr>))"

definition active_for :: "IpAddr \<Rightarrow> PendingByIp \<Rightarrow> nat" where
  "active_for ip p = (case hm_get (counts p) (host_source_from ip) of Some n \<Rightarrow> n | None \<Rightarrow> 0)"

text \<open>\<^verbatim>\<open>Drop for PendingHostPermit\<close>; \<open>None\<close> is the underflow of \<^verbatim>\<open>*count -= 1\<close>, a panic.\<close>

definition drop_permit :: "PendingHostPermit \<Rightarrow> PendingByIp \<Rightarrow> PendingByIp option" where
  "drop_permit permit p =
     (case hm_get (counts p) (permit_source permit) of
        None \<Rightarrow> Some p
      | Some n \<Rightarrow>
          if n = 0 then None
          else if n - 1 = 0 then Some (p\<lparr>counts := hm_remove (permit_source permit) (counts p)\<rparr>)
          else Some (p\<lparr>counts := hm_insert (permit_source permit) (n - 1) (counts p)\<rparr>))"

text \<open>
  Permits are handed out and dropped in any order by the connections' tasks; the second component
  is the multiset of permits in flight.
\<close>

type_synonym admission_state = "PendingByIp \<times> PendingHostPermit multiset"

inductive admission_step :: "admission_state \<Rightarrow> admission_state \<Rightarrow> bool" where
  admitted: "try_acquire ip p = (Some permit, p') \<Longrightarrow>
     admission_step (p, held) (p', add_mset permit held)"
| refused: "try_acquire ip p = (None, p') \<Longrightarrow> admission_step (p, held) (p', held)"
| dropped: "permit \<in># held \<Longrightarrow> drop_permit permit p = Some p' \<Longrightarrow>
     admission_step (p, held) (p', held - {#permit#})"

definition admission_start :: "nat \<Rightarrow> admission_state \<Rightarrow> bool" where
  "admission_start limit s \<longleftrightarrow> s = (PendingByIp_new limit, {#})"

definition held_from :: "HostSource \<Rightarrow> PendingHostPermit multiset \<Rightarrow> nat" where
  "held_from src held = count held \<lparr>permit_source = src\<rparr>"

definition admission_inv :: "nat \<Rightarrow> admission_state \<Rightarrow> bool" where
  "admission_inv limit s \<longleftrightarrow>
     0 < limit \<and> pending_limit (fst s) = limit \<and>
     (\<forall>src. held_from src (snd s) \<le> limit) \<and>
     (\<forall>src. hm_get (counts (fst s)) src =
        (if held_from src (snd s) = 0 then None else Some (held_from src (snd s))))"

lemma permit_eq_iff: "permit = \<lparr>permit_source = src\<rparr> \<longleftrightarrow> permit_source permit = src"
  by (cases permit) auto

lemma held_from_add:
  "held_from src (add_mset permit held) =
     (if permit_source permit = src then Suc (held_from src held) else held_from src held)"
  by (cases permit) (auto simp: held_from_def)

lemma held_from_remove:
  "permit \<in># held \<Longrightarrow> held_from src (held - {#permit#}) =
     (if permit_source permit = src then held_from src held - 1 else held_from src held)"
  by (cases permit) (auto simp: held_from_def)

lemma held_from_pos: "permit \<in># held \<Longrightarrow> 0 < held_from (permit_source permit) held"
  by (cases permit) (auto simp: held_from_def)

lemma admission_invD:
  assumes "admission_inv limit (p, held)"
  shows "0 < limit" and "pending_limit p = limit" and "held_from src held \<le> limit"
    and "hm_get (counts p) src = (if held_from src held = 0 then None else Some (held_from src held))"
  using assms by (auto simp: admission_inv_def)

text \<open>What \<open>try_acquire\<close> does, with the created entry folded into the update.\<close>

lemma hm_insert_insert: "hm_insert k v (hm_insert k w m) = hm_insert k v m"
  by (simp add: hm_insert_def hm_remove_def)

lemma try_acquire_active_for:
  "active_for ip p < pending_limit p \<Longrightarrow> try_acquire ip p =
     (Some \<lparr>permit_source = host_source_from ip\<rparr>,
      p\<lparr>counts := hm_insert (host_source_from ip) (active_for ip p + 1) (counts p)\<rparr>)"
  by (auto simp: try_acquire_def active_for_def hm_contains_key_def hm.get_put hm_insert_insert
      Let_def split: option.splits)

lemma try_acquire_at_limit:
  "pending_limit p \<le> active_for ip p \<Longrightarrow> 0 < pending_limit p \<Longrightarrow> try_acquire ip p = (None, p)"
  by (auto simp: try_acquire_def active_for_def hm_contains_key_def Let_def split: option.splits)

lemma active_for_eq_held:
  "admission_inv limit (p, held) \<Longrightarrow> active_for ip p = held_from (host_source_from ip) held"
  using admission_invD(4) [of limit p held "host_source_from ip"] by (simp add: active_for_def)

lemma try_acquire_admitted:
  assumes "admission_inv limit (p, held)" and "try_acquire ip p = (Some permit, p')"
  shows "permit = \<lparr>permit_source = host_source_from ip\<rparr>"
    and "held_from (host_source_from ip) held < limit"
    and "pending_limit p' = limit"
    and "hm_get (counts p') src =
      (if src = host_source_from ip then Some (Suc (held_from src held)) else hm_get (counts p) src)"
proof -
  have lt: "active_for ip p < pending_limit p"
    using try_acquire_at_limit [of p ip] assms admission_invD(1,2) [OF assms(1)] by force
  note eq = try_acquire_active_for [OF lt, unfolded assms(2)]
  show "permit = \<lparr>permit_source = host_source_from ip\<rparr>"
    and "held_from (host_source_from ip) held < limit"
    and "pending_limit p' = limit"
    and "hm_get (counts p') src =
      (if src = host_source_from ip then Some (Suc (held_from src held)) else hm_get (counts p) src)"
    using eq lt admission_invD(2) [OF assms(1)] active_for_eq_held [OF assms(1)]
    by (simp_all add: hm.get_put)
qed

lemma try_acquire_refused:
  assumes "admission_inv limit (p, held)" and "try_acquire ip p = (None, p')"
  shows "p' = p" and "held_from (host_source_from ip) held = limit"
proof -
  have "\<not> active_for ip p < pending_limit p"
    using try_acquire_active_for [of ip p] assms(2) by force
  then show "p' = p" and "held_from (host_source_from ip) held = limit"
    using try_acquire_at_limit [of p ip] assms(2) admission_invD(1,2) [OF assms(1)]
      admission_invD(3) [OF assms(1), of "host_source_from ip"]
      active_for_eq_held [OF assms(1), of ip] by simp_all
qed

lemma drop_permit_held:
  assumes "admission_inv limit (p, held)" and "permit \<in># held"
  shows "\<exists>p'. drop_permit permit p = Some p' \<and> pending_limit p' = limit \<and>
    (\<forall>src. hm_get (counts p') src =
      (if src = permit_source permit
       then (if held_from src held = 1 then None else Some (held_from src held - 1))
       else hm_get (counts p) src))"
proof -
  have "hm_get (counts p) (permit_source permit) = Some (held_from (permit_source permit) held)"
    using assms held_from_pos [OF assms(2)] by (simp add: admission_inv_def)
  then show ?thesis
    using assms(1) held_from_pos [OF assms(2)]
    by (auto simp: drop_permit_def admission_inv_def hm.get_put hm.get_remove)
qed

lemma admission_step_inv [inv_intros]:
  assumes "admission_step s s'" and "admission_inv limit s"
  shows "admission_inv limit s'"
  using assms
proof (cases rule: admission_step.cases)
  case (admitted ip p permit p' held)
  note inv = assms(2) [unfolded admitted(1)]
  show ?thesis
    using try_acquire_admitted [OF inv admitted(3)] inv
    by (auto simp: admitted(2) admission_inv_def held_from_add)
next
  case (refused ip p p' held)
  then show ?thesis using try_acquire_refused assms(2) by blast
next
  case (dropped permit held p p')
  note inv = assms(2) [unfolded dropped(1)]
  obtain q where q: "drop_permit permit p = Some q" "pending_limit q = limit"
    "\<forall>src. hm_get (counts q) src =
      (if src = permit_source permit
       then (if held_from src held = 1 then None else Some (held_from src held - 1))
       else hm_get (counts p) src)"
    using drop_permit_held [OF inv dropped(3)] by blast
  have "held_from src (held - {#permit#}) \<le> limit" for src
    using admission_invD(3) [OF inv, of src] by (auto simp: held_from_remove [OF dropped(3)])
  then show ?thesis
    using q inv dropped(2,4) held_from_pos [OF dropped(3)]
    by (auto simp: admission_inv_def held_from_remove [OF dropped(3)])
qed

interpretation admission: invariant_system "admission_start (Suc n)" admission_step
  "admission_inv (Suc n)" for n
proof unfold_locales
  fix s assume "admission_start (Suc n) s"
  then show "admission_inv (Suc n) s"
    by (simp add: admission_start_def admission_inv_def PendingByIp_new_def held_from_def hm_get_def)
qed (rule admission_step_inv)

section \<open>Properties\<close>

lemma counts_empty_iff: "(\<forall>k. hm_get m k = None) \<longleftrightarrow> m = []"
  by (cases m) (auto simp: hm_get_None_iff)

text \<open>
  Two IPv6 addresses that are not IPv4-mapped share their admission quota exactly when they
  have the same /64 prefix, and an IPv4-mapped IPv6 address shares the quota of the IPv4 address.
\<close>

theorem host_source_by_network:
  assumes "to_ipv4_mapped a = None" and "to_ipv4_mapped b = None"
  shows "(host_source_from (V6 a) = host_source_from (V6 b) \<longleftrightarrow> drop_bit 64 a = drop_bit 64 b)
    \<and> host_source_from (V6 a) \<noteq> host_source_from (V4 v)
    \<and> host_source_from (V6 (v4_mapped_v6 v)) = host_source_from (V4 v)"
  using assms take8_octets_eq_iff [of a b]
  by (simp add: host_source_from_def to_ipv4_mapped_def take12_mapped ipv4_of_mapped)

theorem host_source_by_network_witness:
  "to_ipv4_mapped 0x20010db8000100020000000000000001 = None
   \<and> to_ipv4_mapped 0x20010db8000100020000000000000002 = None
   \<and> host_source_from (V6 0x20010db8000100020000000000000001)
      = host_source_from (V6 0x20010db8000100020000000000000002)
   \<and> host_source_from (V6 (v4_mapped_v6 0xC0000201)) = host_source_from (V4 0xC0000201)"
proof -
  have a: "to_ipv4_mapped 0x20010db8000100020000000000000001 = None" by code_simp
  have b: "to_ipv4_mapped 0x20010db8000100020000000000000002 = None" by code_simp
  have "drop_bit 64 (0x20010db8000100020000000000000001 :: 128 word)
      = drop_bit 64 0x20010db8000100020000000000000002" by code_simp
  then show ?thesis
    using host_source_by_network [OF a b, of "0xC0000201"] a b by blast
qed

text \<open>
  C30: in every interleaving of admissions, refusals and drops from an empty table with a positive
  limit, the count kept for a network is the number of permits in flight from it and never exceeds
  the limit; dropping a permit in flight never underflows; a request is admitted exactly when its
  network is below the limit; and when no permit is in flight the table is empty, so entries of past
  networks do not accumulate.
\<close>

theorem admission_counts_permits:
  assumes "reachable_by (admission_start (Suc n)) admission_step (p, held)"
  shows "active_for ip p = held_from (host_source_from ip) held
    \<and> active_for ip p \<le> Suc n
    \<and> (permit \<in># held \<longrightarrow> drop_permit permit p \<noteq> None)
    \<and> (fst (try_acquire ip p) \<noteq> None \<longleftrightarrow> held_from (host_source_from ip) held < Suc n)
    \<and> (held = {#} \<longrightarrow> counts p = [])"
proof -
  have inv: "admission_inv (Suc n) (p, held)"
    using assms by (rule admission.invar_reachable)
  note d = admission_invD [OF inv]
  have "fst (try_acquire ip p) \<noteq> None \<longleftrightarrow> active_for ip p < pending_limit p"
    using try_acquire_active_for [of ip p] try_acquire_at_limit [of p ip] d(1,2) by force
  moreover have "counts p = []" if "held = {#}"
    using that d(4) counts_empty_iff [of "counts p"] by (simp add: held_from_def)
  moreover have "drop_permit permit p \<noteq> None" if "permit \<in># held"
    using drop_permit_held [OF inv that] by auto
  ultimately show ?thesis
    using active_for_eq_held [OF inv, of ip] d(2) d(3) [of "host_source_from ip"] by simp
qed

theorem admission_counts_permits_witness:
  "reachable_by (admission_start (Suc 0)) admission_step
     (snd (try_acquire (V4 1) (PendingByIp_new 1)), {#\<lparr>permit_source = SourceV4 1\<rparr>#})
   \<and> active_for (V4 1) (snd (try_acquire (V4 1) (PendingByIp_new 1))) = 1
   \<and> fst (try_acquire (V4 1) (snd (try_acquire (V4 1) (PendingByIp_new 1)))) = None"
proof -
  have "try_acquire (V4 1) (PendingByIp_new 1) =
     (Some \<lparr>permit_source = SourceV4 1\<rparr>, snd (try_acquire (V4 1) (PendingByIp_new 1)))"
    by code_simp
  from admission_step.admitted [OF this]
  have r: "reachable_by (admission_start (Suc 0)) admission_step
     (snd (try_acquire (V4 1) (PendingByIp_new 1)), {#\<lparr>permit_source = SourceV4 1\<rparr>#})"
    by (intro reachable_by.reach_step [OF reachable_by.reach_start]) (auto simp: admission_start_def)
  then show ?thesis
    using admission_counts_permits [OF r, of "V4 1" "\<lparr>permit_source = SourceV4 1\<rparr>"]
    by (auto simp: host_source_from_def held_from_def)
qed

end
