(* ===== verification/Lease_Table.thy ===== *)
theory Lease_Table
  imports Host_Admission
begin

text \<open>
  The component \<^verbatim>\<open>crates/server/src/lease.rs\<close>: the table of port claims. Data and operations are
  translated one by one; an operation on \<^verbatim>\<open>&mut self\<close> that returns \<^verbatim>\<open>anyhow::Result\<close> becomes a
  function to a pair of the result and the table it leaves behind, since some operations expire
  old claims before they fail. The table is a \<^verbatim>\<open>HashMap\<close>, here the list of its entries in some
  iteration order. Times are milliseconds in a \<^verbatim>\<open>u64\<close>, ports are \<^verbatim>\<open>u16\<close>. SHA-256 is a function
  argument (\<open>sha256\<close>) wherever a token is fingerprinted.
\<close>

section \<open>Data\<close>

definition PORT_START :: u16 where
  [const_defs]: "PORT_START = 10000"

definition PORT_END :: u16 where
  [const_defs]: "PORT_END = 10999"

definition MAX_TUNNELS_PER_IP :: nat where
  [const_defs]: "MAX_TUNNELS_PER_IP = 2"

definition GRACE_MS :: u64 where
  [const_defs]: "GRACE_MS = 300000"

definition MAX_RETIRED_IDENTITIES :: nat where
  [const_defs]: "MAX_RETIRED_IDENTITIES = 8"

datatype TokenId = TokenId "u8 list"

definition TokenId_from_token :: "(u8 list \<Rightarrow> u8 list) \<Rightarrow> u8 list \<Rightarrow> TokenId" where
  "TokenId_from_token sha256 token = TokenId (sha256 token)"

datatype SessionId = SessionId u64

datatype RotationResult = Transferred u16 | Unchanged "u16 option"

fun rotation_port :: "RotationResult \<Rightarrow> u16 option" where
  "rotation_port (Transferred p) = Some p"
| "rotation_port (Unchanged p) = p"

record LeaseRecord =
  rec_token_id :: TokenId
  rec_retired_token_ids :: "TokenId list"
  rec_recovery_id :: "TokenId option"
  rec_port :: u16
  rec_last_ip :: "IpAddr option"
  rec_expires_at_ms :: u64

datatype LeaseStatus = Active SessionId | Grace u64

record Lease =
  lease_port :: u16
  lease_last_ip :: "IpAddr option"
  lease_retired_token_ids :: "TokenId list"
  lease_recovery_id :: "TokenId option"
  lease_status :: LeaseStatus

record LeaseTable =
  leases :: "(TokenId, Lease) hash_map"
  next_session_id :: u64

record RecoveryResult =
  recovered_port :: u16
  displaced :: "(TokenId \<times> SessionId) option"
  changed :: bool

text \<open>The errors, one for each message of the source.\<close>

datatype lease_error =
    ClaimRotated \<comment> \<open>This identity's port claim has been rotated\<close>
  | AlreadyActive \<comment> \<open>This identity already has an active tunnel\<close>
  | TooManyTunnels IpAddr \<comment> \<open>Too many tunnels from ... (max ...)\<close>
  | PortPoolExhausted \<comment> \<open>Port pool exhausted\<close>
  | PortNotAvailable \<comment> \<open>Port is not available to this identity\<close>
  | RecoveryKeyOwnsAnother \<comment> \<open>Recovery key already owns another port claim\<close>
  | RecoveryKeyMismatch \<comment> \<open>Recovery key does not match this port claim\<close>
  | SessionIdExhausted \<comment> \<open>Session ID exhausted\<close>
  | NewEqualsOld \<comment> \<open>New identity must differ from old identity\<close>
  | NewOwnsClaim \<comment> \<open>New identity already owns a port claim\<close>
  | NewPreviouslyRotated \<comment> \<open>New identity was previously rotated\<close>
  | OldAlreadyRotated \<comment> \<open>Old identity's port claim was already rotated to another token\<close>
  | StopActiveFirst \<comment> \<open>Stop the active host tunnel before rotating its identity\<close>
  | RotatedOnce \<comment> \<open>This port claim has already been rotated once\<close>
  | NoLiveClaim \<comment> \<open>No live port claim matches this recovery key\<close>
  | NewPreviouslyRetired \<comment> \<open>New identity was previously retired\<close>
  | TooManyLeases \<comment> \<open>Too many leases\<close>
  | InvalidLeasePort \<comment> \<open>Invalid lease port\<close>
  | DuplicateLeasePort \<comment> \<open>Duplicate lease port\<close>
  | DuplicateTokenId \<comment> \<open>Duplicate token ID\<close>
  | DuplicateRecoveryId \<comment> \<open>Duplicate recovery key fingerprint\<close>
  | TooManyRetired \<comment> \<open>Too many retired identities\<close>
  | RetiresItself \<comment> \<open>Identity cannot retire itself\<close>
  | DuplicateRetiredId \<comment> \<open>Duplicate retired token ID\<close>
  | ActiveRetiredOverlap \<comment> \<open>Active and retired token overlap\<close>

section \<open>Operations\<close>

definition LeaseTable_new :: LeaseTable where
  "LeaseTable_new = \<lparr>leases = [], next_session_id = 0\<rparr>"

definition lease_expired :: "u64 \<Rightarrow> Lease \<Rightarrow> bool" where
  "lease_expired now_ms lease =
     (case lease_status lease of Grace expires_at_ms \<Rightarrow> expires_at_ms \<le> now_ms | Active _ \<Rightarrow> False)"

definition reap_expired :: "u64 \<Rightarrow> LeaseTable \<Rightarrow> LeaseTable" where
  "reap_expired now_ms t =
     t\<lparr>leases := hm_retain (\<lambda>_ lease. \<not> lease_expired now_ms lease) (leases t)\<rparr>"

definition lease_source :: "Lease \<Rightarrow> HostSource option" where
  "lease_source lease = map_option host_source_from (lease_last_ip lease)"

definition source_count :: "HostSource \<Rightarrow> LeaseTable \<Rightarrow> nat" where
  "source_count source t =
     length (filter (\<lambda>lease. lease_source lease = Some source) (hm_values (leases t)))"

definition check_ip_quota :: "LeaseTable \<Rightarrow> IpAddr \<Rightarrow> bool \<Rightarrow> (lease_error, unit) result" where
  "check_ip_quota t peer_ip already_counted =
     (if already_counted \<or> source_count (host_source_from peer_ip) t < MAX_TUNNELS_PER_IP
      then Ok () else Err (TooManyTunnels peer_ip))"

definition is_retired :: "TokenId \<Rightarrow> LeaseTable \<Rightarrow> bool" where
  "is_retired token_id t =
     list_ex (\<lambda>lease. token_id \<in> set (lease_retired_token_ids lease)) (hm_values (leases t))"

text \<open>The range \<^verbatim>\<open>PORT_START..=PORT_END\<close>, in order.\<close>

definition port_range :: "u16 list" where
  "port_range = map of_nat [unat PORT_START ..< Suc (unat PORT_END)]"

definition free_ports :: "LeaseTable \<Rightarrow> u16 list" where
  "free_ports t =
     (let occupied = set (map lease_port (hm_values (leases t)))
      in filter (\<lambda>port. port \<notin> occupied) port_range)"

definition candidate_ports ::
  "TokenId \<Rightarrow> IpAddr \<Rightarrow> u64 \<Rightarrow> LeaseTable \<Rightarrow> (lease_error, u16 list) result \<times> LeaseTable" where
  "candidate_ports token_id peer_ip now_ms t0 =
     (let t = reap_expired now_ms t0 in
      (if is_retired token_id t then Err ClaimRotated
       else case hm_get (leases t) token_id of
           Some lease \<Rightarrow>
             (case lease_status lease of
                Active _ \<Rightarrow> Err AlreadyActive
              | Grace _ \<Rightarrow>
                  (case check_ip_quota t peer_ip
                          (lease_source lease = Some (host_source_from peer_ip)) of
                     Inl e \<Rightarrow> Err e
                   | Inr _ \<Rightarrow> Ok [lease_port lease]))
         | None \<Rightarrow>
             (case check_ip_quota t peer_ip False of
                Inl e \<Rightarrow> Err e
              | Inr _ \<Rightarrow>
                  (if free_ports t = [] then Err PortPoolExhausted else Ok (free_ports t))), t))"

text \<open>
  \<^verbatim>\<open>activate_with_recovery\<close>, in two parts: the claim is enrolled (lines 142 to 179) once the port is
  known to be a candidate (lines 137 to 141).
\<close>

definition enroll_claim ::
  "TokenId \<Rightarrow> TokenId option \<Rightarrow> IpAddr \<Rightarrow> u16 \<Rightarrow> LeaseTable
    \<Rightarrow> (lease_error, SessionId) result \<times> LeaseTable" where
  "enroll_claim token_id recovery_id peer_ip port t =
     (if recovery_id \<noteq> None
        \<and> list_ex (\<lambda>(id, lease). id \<noteq> token_id \<and> lease_recovery_id lease = recovery_id)
            (leases t)
      then (Err RecoveryKeyOwnsAnother, t)
      else
        (let existing = hm_get (leases t) token_id;
             enrolled = Option.bind existing lease_recovery_id
         in if enrolled \<noteq> None \<and> recovery_id \<noteq> None \<and> enrolled \<noteq> recovery_id
            then (Err RecoveryKeyMismatch, t)
            else case checked_add_u64 (next_session_id t) 1 of
                None \<Rightarrow> (Err SessionIdExhausted, t)
              | Some n \<Rightarrow>
                  (Ok (SessionId n),
                   t\<lparr>leases := hm_insert token_id
                       \<lparr>lease_port = port,
                        lease_last_ip = Some peer_ip,
                        lease_retired_token_ids =
                          (case existing of Some l \<Rightarrow> lease_retired_token_ids l | None \<Rightarrow> []),
                        lease_recovery_id =
                          (case enrolled of Some r \<Rightarrow> Some r | None \<Rightarrow> recovery_id),
                        lease_status = Active (SessionId n)\<rparr> (leases t),
                     next_session_id := n\<rparr>)))"

definition activate_with_recovery ::
  "TokenId \<Rightarrow> TokenId option \<Rightarrow> IpAddr \<Rightarrow> u16 \<Rightarrow> u64 \<Rightarrow> LeaseTable
    \<Rightarrow> (lease_error, SessionId) result \<times> LeaseTable" where
  "activate_with_recovery token_id recovery_id peer_ip port now_ms t0 =
     (case candidate_ports token_id peer_ip now_ms t0 of
        (Inl e, t) \<Rightarrow> (Err e, t)
      | (Inr ports, t) \<Rightarrow>
          if port \<notin> set ports then (Err PortNotAvailable, t)
          else enroll_claim token_id recovery_id peer_ip port t)"

definition activate ::
  "TokenId \<Rightarrow> IpAddr \<Rightarrow> u16 \<Rightarrow> u64 \<Rightarrow> LeaseTable
    \<Rightarrow> (lease_error, SessionId) result \<times> LeaseTable" where
  "activate token_id peer_ip port now_ms t =
     activate_with_recovery token_id None peer_ip port now_ms t"

text \<open>\<^verbatim>\<open>LeaseTable::end\<close>.\<close>

definition end_session :: "TokenId \<Rightarrow> SessionId \<Rightarrow> u64 \<Rightarrow> LeaseTable \<Rightarrow> bool \<times> LeaseTable" where
  "end_session token_id session_id now_ms t =
     (case hm_get (leases t) token_id of
        None \<Rightarrow> (False, t)
      | Some lease \<Rightarrow>
          if lease_status lease \<noteq> Active session_id then (False, t)
          else (True,
            t\<lparr>leases := hm_insert token_id
               (lease\<lparr>lease_status := Grace (saturating_add_u64 now_ms GRACE_MS)\<rparr>) (leases t)\<rparr>))"

definition rotate_claim ::
  "TokenId \<Rightarrow> TokenId \<Rightarrow> u64 \<Rightarrow> LeaseTable \<Rightarrow> (lease_error, RotationResult) result \<times> LeaseTable"
where
  "rotate_claim old new now_ms t0 =
     (let t = reap_expired now_ms t0 in
      if old = new then (Err NewEqualsOld, t)
      else case hm_get (leases t) new of
          Some lease \<Rightarrow>
            if old \<in> set (lease_retired_token_ids lease)
            then (Ok (Unchanged (Some (lease_port lease))), t)
            else (Err NewOwnsClaim, t)
        | None \<Rightarrow>
            if is_retired new t then (Err NewPreviouslyRotated, t)
            else if is_retired old t then (Err OldAlreadyRotated, t)
            else case hm_get (leases t) old of
                None \<Rightarrow> (Ok (Unchanged None), t)
              | Some lease \<Rightarrow>
                  (case lease_status lease of
                     Active _ \<Rightarrow> (Err StopActiveFirst, t)
                   | Grace _ \<Rightarrow>
                       if lease_retired_token_ids lease \<noteq> [] then (Err RotatedOnce, t)
                       else
                         (Ok (Transferred (lease_port lease)),
                          t\<lparr>leases := hm_insert new
                             (lease\<lparr>lease_retired_token_ids :=
                                lease_retired_token_ids lease @ [old]\<rparr>)
                             (hm_remove old (leases t))\<rparr>)))"

text \<open>\<^verbatim>\<open>push(old)\<close>, then \<^verbatim>\<open>remove(0)\<close> when the list has become too long.\<close>

definition push_retired :: "TokenId list \<Rightarrow> TokenId \<Rightarrow> TokenId list" where
  "push_retired ids old =
     (let ids' = ids @ [old]
      in if MAX_RETIRED_IDENTITIES < length ids' then tl ids' else ids')"

definition recover_claim ::
  "TokenId \<Rightarrow> TokenId \<Rightarrow> IpAddr \<Rightarrow> u64 \<Rightarrow> LeaseTable
    \<Rightarrow> (lease_error, RecoveryResult) result \<times> LeaseTable" where
  "recover_claim recovery_id new peer_ip now_ms t0 =
     (let t = reap_expired now_ms t0 in
      case find (\<lambda>(_, lease). lease_recovery_id lease = Some recovery_id) (leases t) of
        None \<Rightarrow> (Err NoLiveClaim, t)
      | Some (old, lease) \<Rightarrow>
          if old = new then
            (Ok \<lparr>recovered_port = lease_port lease, displaced = None, changed = False\<rparr>, t)
          else if hm_contains_key (leases t) new then (Err NewOwnsClaim, t)
          else if is_retired new t then (Err NewPreviouslyRetired, t)
          else case check_ip_quota t peer_ip
                  (lease_source lease = Some (host_source_from peer_ip)) of
              Inl e \<Rightarrow> (Err e, t)
            | Inr _ \<Rightarrow>
                (Ok \<lparr>recovered_port = lease_port lease,
                     displaced = (case lease_status lease of
                        Active session_id \<Rightarrow> Some (old, session_id) | Grace _ \<Rightarrow> None),
                     changed = True\<rparr>,
                 t\<lparr>leases := hm_insert new
                    (lease\<lparr>lease_status := Grace (saturating_add_u64 now_ms GRACE_MS),
                           lease_last_ip := Some peer_ip,
                           lease_retired_token_ids :=
                             push_retired (lease_retired_token_ids lease) old\<rparr>)
                    (hm_remove old (leases t))\<rparr>))"

definition lease_record :: "u64 \<Rightarrow> TokenId \<times> Lease \<Rightarrow> LeaseRecord" where
  "lease_record now_ms e =
     \<lparr>rec_token_id = fst e,
      rec_retired_token_ids = lease_retired_token_ids (snd e),
      rec_recovery_id = lease_recovery_id (snd e),
      rec_port = lease_port (snd e),
      rec_last_ip = lease_last_ip (snd e),
      rec_expires_at_ms =
        (case lease_status (snd e) of
           Active _ \<Rightarrow> saturating_add_u64 now_ms GRACE_MS
         | Grace expires_at_ms \<Rightarrow> expires_at_ms)\<rparr>"

definition snapshot :: "u64 \<Rightarrow> LeaseTable \<Rightarrow> LeaseRecord list" where
  "snapshot now_ms t = map (lease_record now_ms) (leases t)"

text \<open>
  \<^verbatim>\<open>LeaseTable::restore\<close>: the loop over the records carries the four \<^verbatim>\<open>HashSet\<close>s and the table built
  so far; every \<^verbatim>\<open>ensure!\<close> is a branch. A record that has expired is checked like the others and
  then skipped.
\<close>

fun restore_retired ::
  "TokenId \<Rightarrow> TokenId list \<Rightarrow> TokenId set \<Rightarrow> (lease_error, TokenId set) result" where
  "restore_retired token_id [] retired = Ok retired"
| "restore_retired token_id (old # olds) retired =
     (if old = token_id then Err RetiresItself
      else if old \<in> retired then Err DuplicateRetiredId
      else restore_retired token_id olds (insert old retired))"

definition lease_of_record :: "LeaseRecord \<Rightarrow> Lease" where
  "lease_of_record r =
     \<lparr>lease_port = rec_port r,
      lease_last_ip = rec_last_ip r,
      lease_retired_token_ids = rec_retired_token_ids r,
      lease_recovery_id = rec_recovery_id r,
      lease_status = Grace (rec_expires_at_ms r)\<rparr>"

fun restore_loop ::
  "u64 \<Rightarrow> LeaseRecord list \<Rightarrow> u16 set \<Rightarrow> TokenId set \<Rightarrow> TokenId set \<Rightarrow> TokenId set \<Rightarrow> LeaseTable
    \<Rightarrow> (lease_error, TokenId set \<times> TokenId set \<times> LeaseTable) result" where
  "restore_loop now_ms [] ports tokens retired recovery_ids t = Ok (tokens, retired, t)"
| "restore_loop now_ms (r # rs) ports tokens retired recovery_ids t =
     (if \<not> (PORT_START \<le> rec_port r \<and> rec_port r \<le> PORT_END) then Err InvalidLeasePort
      else if rec_port r \<in> ports then Err DuplicateLeasePort
      else if rec_token_id r \<in> tokens then Err DuplicateTokenId
      else if (case rec_recovery_id r of Some k \<Rightarrow> k \<in> recovery_ids | None \<Rightarrow> False)
        then Err DuplicateRecoveryId
      else if MAX_RETIRED_IDENTITIES < length (rec_retired_token_ids r) then Err TooManyRetired
      else case restore_retired (rec_token_id r) (rec_retired_token_ids r) retired of
          Inl e \<Rightarrow> Err e
        | Inr retired' \<Rightarrow>
            restore_loop now_ms rs (insert (rec_port r) ports) (insert (rec_token_id r) tokens)
              retired'
              (case rec_recovery_id r of Some k \<Rightarrow> insert k recovery_ids | None \<Rightarrow> recovery_ids)
              (if rec_expires_at_ms r \<le> now_ms then t
               else t\<lparr>leases := hm_insert (rec_token_id r) (lease_of_record r) (leases t)\<rparr>))"

definition restore :: "LeaseRecord list \<Rightarrow> u64 \<Rightarrow> (lease_error, LeaseTable) result" where
  "restore records now_ms =
     (if unat (PORT_END - PORT_START + 1) < length records then Err TooManyLeases
      else case restore_loop now_ms records {} {} {} {} LeaseTable_new of
          Inl e \<Rightarrow> Err e
        | Inr (tokens, retired, t) \<Rightarrow>
            if tokens \<inter> retired \<noteq> {} then Err ActiveRetiredOverlap else Ok t)"

definition active_session :: "LeaseTable \<Rightarrow> TokenId \<Rightarrow> SessionId option" where
  "active_session t token_id =
     (case hm_get (leases t) token_id of
        None \<Rightarrow> None
      | Some lease \<Rightarrow>
          (case lease_status lease of Active session_id \<Rightarrow> Some session_id | Grace _ \<Rightarrow> None))"

definition grace_port :: "LeaseTable \<Rightarrow> TokenId \<Rightarrow> u16 option" where
  "grace_port t token_id =
     (case hm_get (leases t) token_id of
        None \<Rightarrow> None
      | Some lease \<Rightarrow>
          (case lease_status lease of Grace _ \<Rightarrow> Some (lease_port lease) | Active _ \<Rightarrow> None))"

section \<open>The port range\<close>

lemma port_range_eq: "port_range = map of_nat [10000 ..< 11000]"
proof -
  have "unat PORT_START = 10000" "Suc (unat PORT_END) = 11000"
    by (simp_all add: const_defs)
  then show ?thesis unfolding port_range_def by (simp only:)
qed

lemma in_port_range: "p \<in> set port_range \<longleftrightarrow> PORT_START \<le> p \<and> p \<le> PORT_END"
proof
  assume "p \<in> set port_range"
  then obtain n where "10000 \<le> n" "n < 11000" "p = of_nat n"
    unfolding port_range_eq set_map set_upt by auto
  then show "PORT_START \<le> p \<and> p \<le> PORT_END"
    by (simp add: const_defs word_le_nat_alt unat_of_nat)
next
  assume "PORT_START \<le> p \<and> p \<le> PORT_END"
  then have "unat p \<in> {10000 ..< 11000}"
    by (simp add: const_defs word_le_nat_alt)
  then have "of_nat (unat p) \<in> set port_range"
    unfolding port_range_eq set_map set_upt by (rule imageI)
  then show "p \<in> set port_range" by simp
qed

lemma length_port_range: "length port_range = 1000"
  unfolding port_range_eq length_map length_upt by simp

lemma distinct_port_range: "distinct port_range"
proof -
  have "inj_on (of_nat :: nat \<Rightarrow> u16) {10000 ..< 11000}"
    by (rule inj_on_inverseI [where g = unat]) (simp add: unat_of_nat)
  then show ?thesis
    unfolding port_range_eq distinct_map set_upt by (simp only: distinct_upt simp_thms)
qed

lemma in_free_ports:
  "p \<in> set (free_ports t) \<longleftrightarrow>
     PORT_START \<le> p \<and> p \<le> PORT_END \<and> p \<notin> set (map lease_port (hm_values (leases t)))"
  by (auto simp: free_ports_def in_port_range)

text \<open>
  The same activation without listing the thousand ports: the code equation used to evaluate
  concrete runs.
\<close>

lemma activate_with_recovery_code [code]:
  "activate_with_recovery token_id recovery_id peer_ip port now_ms t0 =
     (let t = reap_expired now_ms t0 in
      if is_retired token_id t then (Err ClaimRotated, t)
      else case hm_get (leases t) token_id of
          Some lease \<Rightarrow>
            (case lease_status lease of
               Active _ \<Rightarrow> (Err AlreadyActive, t)
             | Grace _ \<Rightarrow>
                 (case check_ip_quota t peer_ip
                         (lease_source lease = Some (host_source_from peer_ip)) of
                    Inl e \<Rightarrow> (Err e, t)
                  | Inr _ \<Rightarrow>
                      if port \<noteq> lease_port lease then (Err PortNotAvailable, t)
                      else enroll_claim token_id recovery_id peer_ip port t))
        | None \<Rightarrow>
            (case check_ip_quota t peer_ip False of
               Inl e \<Rightarrow> (Err e, t)
             | Inr _ \<Rightarrow>
                 if PORT_START \<le> port \<and> port \<le> PORT_END
                   \<and> port \<notin> set (map lease_port (hm_values (leases t)))
                 then enroll_claim token_id recovery_id peer_ip port t
                 else if free_ports t = [] then (Err PortPoolExhausted, t)
                 else (Err PortNotAvailable, t)))"
proof -
  have "free_ports (reap_expired now_ms t0) \<noteq> []"
    if "port \<in> set (free_ports (reap_expired now_ms t0))"
    using that by auto
  then show ?thesis
    by (auto simp: activate_with_recovery_def candidate_ports_def Let_def in_free_ports
        split: option.splits LeaseStatus.splits sum.splits)
qed

end
