(* ===== verification/Lease_Invariant.thy ===== *)
theory Lease_Invariant
  imports Lease_Table
begin

text \<open>
  The invariant of the lease table and its preservation by every operation. It is stated entry by
  entry (\<open>entry_ok\<close>) and pairwise (\<open>entries_compatible\<close>): ports are in range and owned once, a
  recovery key is enrolled once, retired identities are pairwise different, never an owner, and at
  most eight per claim, and session numbers of active claims are pairwise different and not above
  the counter. The per-network quota is a second invariant (\<open>quota_inv\<close>), since a state file may
  violate it.
\<close>

section \<open>The invariant\<close>

definition entry_ok :: "u64 \<Rightarrow> TokenId \<times> Lease \<Rightarrow> bool" where
  "entry_ok n e \<longleftrightarrow>
     PORT_START \<le> lease_port (snd e) \<and> lease_port (snd e) \<le> PORT_END
     \<and> length (lease_retired_token_ids (snd e)) \<le> MAX_RETIRED_IDENTITIES
     \<and> distinct (lease_retired_token_ids (snd e))
     \<and> fst e \<notin> set (lease_retired_token_ids (snd e))
     \<and> (\<forall>s. lease_status (snd e) = Active (SessionId s) \<longrightarrow> s \<le> n)"

definition entries_compatible :: "TokenId \<times> Lease \<Rightarrow> TokenId \<times> Lease \<Rightarrow> bool" where
  "entries_compatible e e' \<longleftrightarrow>
     fst e \<noteq> fst e'
     \<and> lease_port (snd e) \<noteq> lease_port (snd e')
     \<and> (lease_recovery_id (snd e) \<noteq> lease_recovery_id (snd e') \<or> lease_recovery_id (snd e) = None)
     \<and> set (lease_retired_token_ids (snd e)) \<inter> set (lease_retired_token_ids (snd e')) = {}
     \<and> fst e \<notin> set (lease_retired_token_ids (snd e'))
     \<and> fst e' \<notin> set (lease_retired_token_ids (snd e))
     \<and> (\<forall>s. lease_status (snd e) = Active s \<longrightarrow> lease_status (snd e') \<noteq> Active s)"

definition lease_inv :: "LeaseTable \<Rightarrow> bool" where
  "lease_inv t \<longleftrightarrow>
     list_all (entry_ok (next_session_id t)) (leases t) \<and> sorted_wrt entries_compatible (leases t)"

definition quota_inv :: "LeaseTable \<Rightarrow> bool" where
  "quota_inv t \<longleftrightarrow> (\<forall>source. source_count source t \<le> MAX_TUNNELS_PER_IP)"

lemma symp_entries_compatible: "symp entries_compatible"
  by (rule sympI) (auto simp: entries_compatible_def)

lemma lease_inv_entry: "lease_inv t \<Longrightarrow> e \<in> set (leases t) \<Longrightarrow> entry_ok (next_session_id t) e"
  by (simp add: lease_inv_def list_all_iff)

lemma lease_inv_pair:
  "lease_inv t \<Longrightarrow> e \<in> set (leases t) \<Longrightarrow> e' \<in> set (leases t) \<Longrightarrow> e \<noteq> e'
    \<Longrightarrow> entries_compatible e e'"
  unfolding lease_inv_def by (blast intro: sorted_wrt_symmetricD symp_entries_compatible)

lemma lease_inv_other:
  assumes "lease_inv t" and "(k, l) \<in> set (leases t)" and "e \<in> set (leases t)" and "fst e \<noteq> k"
  shows "entries_compatible (k, l) e"
  by (rule lease_inv_pair [OF assms(1-3)]) (use assms(4) in auto)

lemma compatible_distinct_keys: "sorted_wrt entries_compatible m \<Longrightarrow> distinct (map fst m)"
  by (induction m) (auto simp: entries_compatible_def)

lemma lease_inv_wf: "lease_inv t \<Longrightarrow> hm_wf (leases t)"
  by (simp add: lease_inv_def hm_wf_def compatible_distinct_keys)

lemma lease_inv_get: "lease_inv t \<Longrightarrow> hm_get (leases t) k = Some l \<longleftrightarrow> (k, l) \<in> set (leases t)"
  by (simp add: hm_get_iff lease_inv_wf)

lemma entry_ok_mono: "entry_ok n e \<Longrightarrow> n \<le> n' \<Longrightarrow> entry_ok n' e"
  by (auto simp: entry_ok_def intro: order_trans)

lemma is_retired_iff:
  "is_retired k t \<longleftrightarrow> (\<exists>e \<in> set (leases t). k \<in> set (lease_retired_token_ids (snd e)))"
  by (auto simp: is_retired_def hm_values_def list_ex_iff)

section \<open>Updates that keep the invariant\<close>

lemma lease_inv_new: "lease_inv LeaseTable_new"
  by (simp add: lease_inv_def LeaseTable_new_def)

lemma quota_inv_new: "quota_inv LeaseTable_new"
  by (simp add: quota_inv_def LeaseTable_new_def source_count_def hm_values_def)

lemma lease_inv_filter: "lease_inv t \<Longrightarrow> lease_inv (t\<lparr>leases := filter P (leases t)\<rparr>)"
  by (auto simp: lease_inv_def list_all_iff sorted_wrt_filter)

lemma lease_inv_put:
  assumes "lease_inv t" and "next_session_id t \<le> n" and "entry_ok n (k, l)"
    and "\<And>e. e \<in> set (leases t) \<Longrightarrow> fst e \<noteq> k \<Longrightarrow> entries_compatible (k, l) e"
  shows "lease_inv (t\<lparr>leases := hm_insert k l (leases t), next_session_id := n\<rparr>)"
proof -
  have "list_all (entry_ok n) (hm_insert k l (leases t))"
    using assms(1-3) entry_ok_mono by (auto simp: lease_inv_def list_all_iff set_hm_insert)
  moreover have "sorted_wrt entries_compatible (hm_insert k l (leases t))"
    using assms(1,4)
    by (auto simp: lease_inv_def hm_insert_def hm_remove_def sorted_wrt_filter)
  ultimately show ?thesis by (simp add: lease_inv_def)
qed

lemma lease_inv_move:
  assumes "lease_inv t" and "entry_ok (next_session_id t) (new, l)"
    and "\<And>e. e \<in> set (leases t) \<Longrightarrow> fst e \<noteq> old \<Longrightarrow> fst e \<noteq> new \<Longrightarrow> entries_compatible (new, l) e"
  shows "lease_inv (t\<lparr>leases := hm_insert new l (hm_remove old (leases t))\<rparr>)"
proof -
  let ?t = "t\<lparr>leases := hm_remove old (leases t)\<rparr>"
  have "lease_inv ?t"
    using assms(1) lease_inv_filter [of t "\<lambda>e. fst e \<noteq> old"] by (simp add: hm_remove_def)
  then have "lease_inv (?t\<lparr>leases := hm_insert new l (leases ?t),
      next_session_id := next_session_id ?t\<rparr>)"
    using assms(2,3) by (intro lease_inv_put) (auto simp: set_hm_remove)
  then show ?thesis by simp
qed

lemma source_count_eq:
  "source_count source t = length (filter (\<lambda>e. lease_source (snd e) = Some source) (leases t))"
  by (simp add: source_count_def hm_values_def filter_map o_def)

lemma length_filter_hm_remove:
  "hm_wf m \<Longrightarrow> (k, v) \<in> set m \<Longrightarrow>
     length (filter P (hm_remove k m)) + (if P (k, v) then 1 else 0) = length (filter P m)"
proof (induction m)
  case (Cons e m)
  show ?case
  proof (cases "fst e = k")
    case True
    have "k \<notin> fst ` set m" using Cons.prems(1) True by (auto simp: hm_wf_def)
    then have "hm_remove k m = m" and "e = (k, v)"
      using Cons.prems(2) True by (auto simp: hm_remove_absent hm_get_None_iff rev_image_eqI)
    then show ?thesis by (simp add: hm_remove_def)
  next
    case False
    then show ?thesis using Cons by (auto simp: hm_wf_def hm_remove_def)
  qed
qed simp

lemma quota_inv_filter: "quota_inv t \<Longrightarrow> quota_inv (t\<lparr>leases := filter P (leases t)\<rparr>)"
  unfolding quota_inv_def source_count_eq
  by (auto intro: order_trans [OF length_filter_conj_le])

lemma source_count_move:
  "source_count source (t\<lparr>leases := hm_insert new l (hm_remove old (leases t))\<rparr>) \<le>
     length (filter (\<lambda>e. lease_source (snd e) = Some source) (hm_remove old (leases t)))
     + (if lease_source l = Some source then 1 else 0)"
  unfolding source_count_eq hm_insert_def hm_remove_def [of new]
  by (simp add: length_filter_conj_le)

lemma quota_inv_move:
  assumes q: "quota_inv t" and wf: "hm_wf (leases t)" and ql: "lease_source l = Some source"
    and "check_ip_quota t ip (lease_source l0 = Some source) = Inr u"
    and "source = host_source_from ip" and "(old, l0) \<in> set (leases t)"
  shows "quota_inv (t\<lparr>leases := hm_insert new l (hm_remove old (leases t))\<rparr>)"
  unfolding quota_inv_def
proof
  fix src
  note move = source_count_move [where source = src and t = t and new = new and l = l and old = old]
  have split: "length (filter (\<lambda>e. lease_source (snd e) = Some src) (hm_remove old (leases t)))
      + (if lease_source l0 = Some src then 1 else 0) = source_count src t"
    using length_filter_hm_remove [OF wf assms(6), of "\<lambda>e. lease_source (snd e) = Some src"]
    by (simp add: source_count_eq)
  have le: "source_count src t \<le> MAX_TUNNELS_PER_IP"
    using q by (simp add: quota_inv_def)
  show "source_count src (t\<lparr>leases := hm_insert new l (hm_remove old (leases t))\<rparr>)
      \<le> MAX_TUNNELS_PER_IP"
  proof (cases "src = source")
    case True
    then show ?thesis
      using move split le ql assms(4,5)
      by (auto simp: check_ip_quota_def split: if_splits)
  next
    case False
    then show ?thesis using move split le ql by auto
  qed
qed

section \<open>Each operation keeps the invariants\<close>

lemma reap_expired_filter:
  "reap_expired now t = t\<lparr>leases := filter (\<lambda>e. \<not> lease_expired now (snd e)) (leases t)\<rparr>"
  by (simp add: reap_expired_def hm_retain_def)

lemma reap_expired_inv [inv_intros]: "lease_inv t \<Longrightarrow> lease_inv (reap_expired now t)"
  by (simp add: reap_expired_filter lease_inv_filter)

lemma reap_expired_quota [inv_intros]: "quota_inv t \<Longrightarrow> quota_inv (reap_expired now t)"
  by (simp add: reap_expired_filter quota_inv_filter)

lemma snd_candidate_ports [simp]: "snd (candidate_ports k ip now t) = reap_expired now t"
  by (simp add: candidate_ports_def Let_def)

text \<open>The port a claim may be activated on, after expired claims are gone.\<close>

definition port_offered :: "TokenId \<Rightarrow> IpAddr \<Rightarrow> u16 \<Rightarrow> LeaseTable \<Rightarrow> bool" where
  "port_offered k ip p t \<longleftrightarrow>
     \<not> is_retired k t \<and>
     (case hm_get (leases t) k of
        Some l \<Rightarrow> p = lease_port l \<and> (\<exists>x. lease_status l = Grace x)
          \<and> check_ip_quota t ip (lease_source l = Some (host_source_from ip)) = Inr ()
      | None \<Rightarrow> check_ip_quota t ip False = Inr () \<and> p \<in> set (free_ports t))"

lemma candidate_ports_offered:
  assumes "candidate_ports k ip now t0 = (Inr ports, t)" and "p \<in> set ports"
  shows "t = reap_expired now t0" and "port_offered k ip p t"
  using assms
  by (auto simp: candidate_ports_def port_offered_def Let_def
      split: if_splits option.splits sum.splits LeaseStatus.splits)

lemma enroll_claim_cases:
  assumes "enroll_claim k r ip p t = (res, t')"
  obtains (failed) e where "res = Inl e" "t' = t"
  | (enrolled) n existing where
      "checked_add_u64 (next_session_id t) 1 = Some n" "res = Inr (SessionId n)"
      "existing = hm_get (leases t) k"
      "r = None \<or> (\<forall>e \<in> set (leases t). fst e \<noteq> k \<longrightarrow> lease_recovery_id (snd e) \<noteq> r)"
      "\<And>l. existing = Some l \<Longrightarrow> lease_recovery_id l = None \<or> r = None \<or> lease_recovery_id l = r"
      "t' = t\<lparr>leases := hm_insert k
         \<lparr>lease_port = p, lease_last_ip = Some ip,
          lease_retired_token_ids =
            (case existing of Some l \<Rightarrow> lease_retired_token_ids l | None \<Rightarrow> []),
          lease_recovery_id =
            (case Option.bind existing lease_recovery_id of Some x \<Rightarrow> Some x | None \<Rightarrow> r),
          lease_status = Active (SessionId n)\<rparr> (leases t), next_session_id := n\<rparr>"
proof (cases res)
  case (Inl e)
  then show ?thesis
    using assms failed
    by (auto simp: enroll_claim_def Let_def split: if_splits option.splits)
next
  case (Inr s)
  then show ?thesis
    using assms enrolled
    by (auto simp: enroll_claim_def Let_def list_ex_iff case_prod_unfold
        split: if_splits option.splits)
qed

lemma session_fresh:
  assumes "lease_inv t" and "checked_add_u64 (next_session_id t) 1 = Some n"
    and "e \<in> set (leases t)"
  shows "next_session_id t \<le> n" and "lease_status (snd e) \<noteq> Active (SessionId n)"
proof -
  have n: "unat n = unat (next_session_id t) + 1"
    using checked_add_Some [OF assms(2)] by simp
  then show "next_session_id t \<le> n" by (simp add: word_le_nat_alt)
  show "lease_status (snd e) \<noteq> Active (SessionId n)"
    using lease_inv_entry [OF assms(1,3)] n by (auto simp: entry_ok_def word_le_nat_alt)
qed

lemma offered_new_entry:
  assumes "lease_inv t" and "port_offered k ip p t" and "hm_get (leases t) k = None"
    and "e \<in> set (leases t)"
    and "r = None \<or> lease_recovery_id (snd e) \<noteq> r" and "lease_status (snd e) \<noteq> Active s"
  shows "entries_compatible
    (k, \<lparr>lease_port = p, lease_last_ip = i, lease_retired_token_ids = [],
         lease_recovery_id = r, lease_status = Active s\<rparr>) e"
proof -
  have "p \<noteq> lease_port (snd e)" "k \<noteq> fst e" "k \<notin> set (lease_retired_token_ids (snd e))"
    using assms(2-4)
    by (auto simp: port_offered_def in_free_ports hm_values_def hm_get_None_iff is_retired_iff)
  then show ?thesis using assms(5,6) by (auto simp: entries_compatible_def)
qed

lemma enroll_claim_inv [inv_intros]:
  assumes inv: "lease_inv t" and off: "port_offered k ip p t"
    and run: "enroll_claim k r ip p t = (res, t')"
  shows "lease_inv t'"
  using run
proof (cases rule: enroll_claim_cases)
  case (enrolled n existing)
  have le: "next_session_id t \<le> n"
    using checked_add_Some [OF enrolled(1)] by (simp add: word_le_nat_alt)
  show ?thesis
  proof (cases existing)
    case None
    have range: "PORT_START \<le> p" "p \<le> PORT_END"
      using off None enrolled(3) by (auto simp: port_offered_def in_free_ports)
    show ?thesis
      unfolding enrolled(6) None using inv le range
      by (intro lease_inv_put)
        (use enrolled None session_fresh [OF inv enrolled(1)] offered_new_entry [OF inv off] in
          \<open>auto simp: entry_ok_def\<close>)
  next
    case (Some l)
    have kl: "(k, l) \<in> set (leases t)" and p: "p = lease_port l"
      using Some enrolled(3) off by (auto simp: hm_get_in_set port_offered_def)
    show ?thesis
      unfolding enrolled(6) Some using inv le lease_inv_entry [OF inv kl] p
      by (intro lease_inv_put)
        (use enrolled Some session_fresh [OF inv enrolled(1)] lease_inv_other [OF inv kl] in
          \<open>auto simp: entry_ok_def entries_compatible_def split: option.splits\<close>)
  qed
qed (simp add: inv)

lemma activate_with_recovery_cases:
  assumes "activate_with_recovery k r ip p now t0 = (res, t')"
  obtains (not_offered) e where "res = Inl e" "t' = reap_expired now t0"
  | (offered) "port_offered k ip p (reap_expired now t0)"
      "enroll_claim k r ip p (reap_expired now t0) = (res, t')"
proof -
  obtain c where c: "candidate_ports k ip now t0 = (c, reap_expired now t0)"
    using snd_candidate_ports [of k ip now t0] by (metis prod.collapse)
  show ?thesis
  proof (cases "\<exists>ports. c = Inr ports \<and> p \<in> set ports")
    case True
    then obtain ports where ports: "c = Inr ports" "p \<in> set ports" by blast
    have "enroll_claim k r ip p (reap_expired now t0) = (res, t')"
      using assms c ports by (simp add: activate_with_recovery_def)
    then show ?thesis
      using offered candidate_ports_offered(2) [OF c [unfolded ports(1)] ports(2)] by blast
  next
    case False
    then have "\<exists>e. res = Inl e \<and> t' = reap_expired now t0"
      using assms c by (cases c) (auto simp: activate_with_recovery_def)
    then show ?thesis using not_offered by blast
  qed
qed

lemma activate_with_recovery_inv [inv_intros]:
  assumes "lease_inv t" and "activate_with_recovery k r ip p now t = (res, t')"
  shows "lease_inv t'"
  using assms(2)
  by (cases rule: activate_with_recovery_cases)
    (auto intro: enroll_claim_inv reap_expired_inv assms(1))

text \<open>Re-inserting a claim with another status keeps the invariant if the status is no session.\<close>

lemma end_session_inv [inv_intros]:
  assumes inv: "lease_inv t" and run: "end_session k s now t = (b, t')"
  shows "lease_inv t'"
proof (cases b)
  case True
  then obtain l where l: "hm_get (leases t) k = Some l"
    and t': "t' = t\<lparr>leases := hm_insert k
      (l\<lparr>lease_status := Grace (saturating_add_u64 now GRACE_MS)\<rparr>) (leases t)\<rparr>"
    using run by (auto simp: end_session_def split: option.splits if_splits)
  have kl: "(k, l) \<in> set (leases t)" by (rule hm_get_in_set [OF l])
  have "lease_inv (t\<lparr>leases := hm_insert k
      (l\<lparr>lease_status := Grace (saturating_add_u64 now GRACE_MS)\<rparr>) (leases t),
      next_session_id := next_session_id t\<rparr>)"
    using inv lease_inv_entry [OF inv kl] lease_inv_other [OF inv kl]
    by (intro lease_inv_put) (auto simp: entry_ok_def entries_compatible_def)
  then show ?thesis by (simp add: t')
next
  case False
  then show ?thesis
    using run inv by (auto simp: end_session_def split: option.splits if_splits)
qed

text \<open>A claim that changes hands: the old owner joins the retired identities.\<close>

lemma entries_compatible_handover:
  assumes inv: "lease_inv t" and old: "(old, l) \<in> set (leases t)"
    and e: "e \<in> set (leases t)" "fst e \<noteq> old" "fst e \<noteq> new"
    and new: "\<not> is_retired new t"
    and ids: "set ids \<subseteq> insert old (set (lease_retired_token_ids l))"
  shows "entries_compatible
    (new, \<lparr>lease_port = lease_port l, lease_last_ip = i, lease_retired_token_ids = ids,
      lease_recovery_id = lease_recovery_id l, lease_status = Grace x\<rparr>) e"
proof -
  have "entries_compatible (old, l) e"
    by (rule lease_inv_other [OF inv old e(1,2)])
  moreover have "new \<notin> set (lease_retired_token_ids (snd e))"
    using new e(1) by (auto simp: is_retired_iff)
  moreover have "fst e \<notin> set ids"
    using ids e(2) calculation(1) by (auto simp: entries_compatible_def)
  moreover have "set ids \<inter> set (lease_retired_token_ids (snd e)) = {}"
    using ids calculation(1) by (auto simp: entries_compatible_def)
  ultimately show ?thesis
    using e(3) by (auto simp: entries_compatible_def)
qed

lemma lease_inv_handover:
  assumes inv: "lease_inv t" and old: "(old, l) \<in> set (leases t)" and ne: "old \<noteq> new"
    and new: "\<not> is_retired new t"
    and ids: "set ids \<subseteq> insert old (set (lease_retired_token_ids l))" "distinct ids"
      "length ids \<le> MAX_RETIRED_IDENTITIES"
  shows "lease_inv (t\<lparr>leases := hm_insert new
    \<lparr>lease_port = lease_port l, lease_last_ip = i, lease_retired_token_ids = ids,
      lease_recovery_id = lease_recovery_id l, lease_status = Grace x\<rparr> (hm_remove old (leases t))\<rparr>)"
proof (rule lease_inv_move [OF inv])
  have "new \<notin> set ids"
    using ids(1) ne new old by (force simp: is_retired_iff)
  then show "entry_ok (next_session_id t) (new, \<lparr>lease_port = lease_port l, lease_last_ip = i,
      lease_retired_token_ids = ids, lease_recovery_id = lease_recovery_id l,
      lease_status = Grace x\<rparr>)"
    using lease_inv_entry [OF inv old] ids(2,3) by (auto simp: entry_ok_def)
qed (auto intro: entries_compatible_handover [OF inv old _ _ _ new ids(1)])

lemma lease_retire_eq:
  "lease_status l = Grace x \<Longrightarrow> l\<lparr>lease_retired_token_ids := ids\<rparr> =
     \<lparr>lease_port = lease_port l, lease_last_ip = lease_last_ip l, lease_retired_token_ids = ids,
      lease_recovery_id = lease_recovery_id l, lease_status = Grace x\<rparr>"
  by (cases l) simp

lemma lease_handover_eq:
  "l\<lparr>lease_status := s, lease_last_ip := i, lease_retired_token_ids := ids\<rparr> =
     \<lparr>lease_port = lease_port l, lease_last_ip = i, lease_retired_token_ids = ids,
      lease_recovery_id = lease_recovery_id l, lease_status = s\<rparr>"
  by (cases l) simp

lemma rotate_claim_cases:
  assumes "rotate_claim old new now t0 = (res, t')"
  obtains (unchanged) "t' = reap_expired now t0" "\<And>p. res \<noteq> Inr (Transferred p)"
  | (moved) t l x where "t = reap_expired now t0"
      "old \<noteq> new" "hm_get (leases t) new = None" "\<not> is_retired new t" "\<not> is_retired old t"
      "hm_get (leases t) old = Some l" "lease_status l = Grace x"
      "lease_retired_token_ids l = []" "res = Inr (Transferred (lease_port l))"
      "t' = t\<lparr>leases := hm_insert new
        \<lparr>lease_port = lease_port l, lease_last_ip = lease_last_ip l, lease_retired_token_ids = [old],
         lease_recovery_id = lease_recovery_id l, lease_status = Grace x\<rparr>
        (hm_remove old (leases t))\<rparr>"
proof (cases "\<exists>p. res = Inr (Transferred p)")
  case True
  then show ?thesis
    using assms moved [OF refl]
    by (auto simp: rotate_claim_def Let_def lease_retire_eq
        split: if_splits option.splits LeaseStatus.splits)
next
  case False
  then show ?thesis
    using assms unchanged
    by (auto simp: rotate_claim_def Let_def split: if_splits option.splits LeaseStatus.splits)
qed

lemma rotate_claim_inv [inv_intros]:
  assumes inv: "lease_inv t" and run: "rotate_claim old new now t = (res, t')"
  shows "lease_inv t'"
  using run
proof (cases rule: rotate_claim_cases)
  case (moved u l x)
  have "lease_inv u" using inv moved(1) by (simp add: reap_expired_inv)
  then show ?thesis
    unfolding moved(10) using moved(2,4) hm_get_in_set [OF moved(6)]
    by (intro lease_inv_handover) (auto simp: const_defs)
qed (simp add: inv reap_expired_inv)

lemma set_push_retired: "set (push_retired ids old) \<subseteq> insert old (set ids)"
  by (cases ids) (auto simp: push_retired_def Let_def)

lemma distinct_push_retired:
  "distinct ids \<Longrightarrow> old \<notin> set ids \<Longrightarrow> distinct (push_retired ids old)"
  by (cases ids) (auto simp: push_retired_def Let_def)

lemma length_push_retired:
  "length ids \<le> MAX_RETIRED_IDENTITIES \<Longrightarrow> length (push_retired ids old) \<le> MAX_RETIRED_IDENTITIES"
  by (simp add: push_retired_def Let_def)

lemma last_push_retired: "push_retired ids old = butlast (push_retired ids old) @ [old]"
  by (cases ids) (auto simp: push_retired_def Let_def butlast_append const_defs)

lemma recover_claim_cases:
  assumes "recover_claim r new ip now t0 = (res, t')"
  obtains (failed) e where "t' = reap_expired now t0" "res = Inl e"
  | (repeated) l where "t' = reap_expired now t0"
      "(new, l) \<in> set (leases t')" "lease_recovery_id l = Some r"
      "res = Inr \<lparr>recovered_port = lease_port l, displaced = None, changed = False\<rparr>"
  | (moved) t old l where "t = reap_expired now t0"
      "(old, l) \<in> set (leases t)" "lease_recovery_id l = Some r"
      "old \<noteq> new" "hm_get (leases t) new = None" "\<not> is_retired new t"
      "check_ip_quota t ip (lease_source l = Some (host_source_from ip)) = Inr ()"
      "res = Inr \<lparr>recovered_port = lease_port l,
         displaced = (case lease_status l of Active s \<Rightarrow> Some (old, s) | Grace _ \<Rightarrow> None),
         changed = True\<rparr>"
      "t' = t\<lparr>leases := hm_insert new
        \<lparr>lease_port = lease_port l, lease_last_ip = Some ip,
         lease_retired_token_ids = push_retired (lease_retired_token_ids l) old,
         lease_recovery_id = lease_recovery_id l,
         lease_status = Grace (saturating_add_u64 now GRACE_MS)\<rparr>
        (hm_remove old (leases t))\<rparr>"
proof (cases "find (\<lambda>(_, lease). lease_recovery_id lease = Some r) (leases (reap_expired now t0))")
  case None
  then show ?thesis using assms failed by (auto simp: recover_claim_def Let_def)
next
  case (Some e)
  obtain old l where e: "e = (old, l)" by (cases e)
  have f: "(old, l) \<in> set (leases (reap_expired now t0))" "lease_recovery_id l = Some r"
    using find_Some_set [OF Some] e by auto
  show ?thesis
  proof (cases "changed (projr res) \<and> is_ok res")
    case True
    then show ?thesis
      using assms Some e f moved [OF refl f]
      by (auto simp: recover_claim_def Let_def hm_contains_key_def lease_handover_eq
          split: if_splits sum.splits)
  next
    case False
    then show ?thesis
      using assms Some e f failed repeated
      by (auto simp: recover_claim_def Let_def split: if_splits sum.splits)
  qed
qed

lemma recover_claim_inv [inv_intros]:
  assumes inv: "lease_inv t" and run: "recover_claim r new ip now t = (res, t')"
  shows "lease_inv t'"
  using run
proof (cases rule: recover_claim_cases)
  case (moved u old l)
  have u: "lease_inv u" using inv moved(1) by (simp add: reap_expired_inv)
  have "entry_ok (next_session_id u) (old, l)" by (rule lease_inv_entry [OF u moved(2)])
  then have ids: "distinct (push_retired (lease_retired_token_ids l) old)"
    "length (push_retired (lease_retired_token_ids l) old) \<le> MAX_RETIRED_IDENTITIES"
    by (auto simp: entry_ok_def intro: distinct_push_retired length_push_retired)
  show ?thesis
    unfolding moved(9)
    by (rule lease_inv_handover [OF u moved(2,4,6) set_push_retired ids])
qed (simp_all add: inv reap_expired_inv)

end
