(* ===== verification/Lease_Restore.thy ===== *)
theory Lease_Restore
  imports Lease_Invariant
begin

text \<open>
  Saving and restoring the lease table (\<^verbatim>\<open>LeaseTable::snapshot\<close> and \<^verbatim>\<open>LeaseTable::restore\<close>): which
  record lists \<open>restore\<close> accepts, what table it builds, that the table satisfies the invariant, and
  that the snapshot of a table that satisfies the invariant is always accepted and gives back the
  unexpired claims.
\<close>

section \<open>The loop of restore\<close>

definition entry_of_record :: "LeaseRecord \<Rightarrow> TokenId \<times> Lease" where
  "entry_of_record r = (rec_token_id r, lease_of_record r)"

definition record_live :: "u64 \<Rightarrow> LeaseRecord \<Rightarrow> bool" where
  "record_live now r \<longleftrightarrow> \<not> rec_expires_at_ms r \<le> now"

definition rec_ok :: "LeaseRecord \<Rightarrow> bool" where
  "rec_ok r \<longleftrightarrow> PORT_START \<le> rec_port r \<and> rec_port r \<le> PORT_END
     \<and> length (rec_retired_token_ids r) \<le> MAX_RETIRED_IDENTITIES
     \<and> distinct (rec_retired_token_ids r) \<and> rec_token_id r \<notin> set (rec_retired_token_ids r)"

definition rec_apart :: "LeaseRecord \<Rightarrow> LeaseRecord \<Rightarrow> bool" where
  "rec_apart r r' \<longleftrightarrow> rec_port r \<noteq> rec_port r' \<and> rec_token_id r \<noteq> rec_token_id r'
     \<and> (rec_recovery_id r \<noteq> rec_recovery_id r' \<or> rec_recovery_id r = None)
     \<and> set (rec_retired_token_ids r) \<inter> set (rec_retired_token_ids r') = {}"

definition rec_fresh ::
  "u16 set \<Rightarrow> TokenId set \<Rightarrow> TokenId set \<Rightarrow> TokenId set \<Rightarrow> LeaseRecord \<Rightarrow> bool" where
  "rec_fresh ports tokens retired recovery_ids r \<longleftrightarrow>
     rec_port r \<notin> ports \<and> rec_token_id r \<notin> tokens
     \<and> (\<forall>k. rec_recovery_id r = Some k \<longrightarrow> k \<notin> recovery_ids)
     \<and> set (rec_retired_token_ids r) \<inter> retired = {}"

lemma restore_retired_iff:
  "restore_retired token_id olds retired = Inr retired' \<longleftrightarrow>
     token_id \<notin> set olds \<and> distinct olds \<and> set olds \<inter> retired = {} \<and> retired' = retired \<union> set olds"
  by (induction olds arbitrary: retired) auto

definition restore_insert :: "u64 \<Rightarrow> LeaseTable \<Rightarrow> LeaseRecord \<Rightarrow> LeaseTable" where
  "restore_insert now t r =
     (if record_live now r
      then t\<lparr>leases := hm_insert (rec_token_id r) (lease_of_record r) (leases t)\<rparr> else t)"

lemma rec_fresh_step:
  "rec_fresh (insert (rec_port r) P) (insert (rec_token_id r) T) (R \<union> set (rec_retired_token_ids r))
     (case rec_recovery_id r of Some k \<Rightarrow> insert k K | None \<Rightarrow> K) r'
   \<longleftrightarrow> rec_fresh P T R K r' \<and> rec_apart r r'"
  by (auto simp: rec_fresh_def rec_apart_def split: option.splits)

lemma restore_loop_Cons:
  "restore_loop now (r # rs) P T R K t = Inr res \<longleftrightarrow>
     rec_ok r \<and> rec_fresh P T R K r \<and>
     restore_loop now rs (insert (rec_port r) P) (insert (rec_token_id r) T)
       (R \<union> set (rec_retired_token_ids r))
       (case rec_recovery_id r of Some k \<Rightarrow> insert k K | None \<Rightarrow> K) (restore_insert now t r) = Inr res"
proof (cases "restore_retired (rec_token_id r) (rec_retired_token_ids r) R")
  case (Inl e)
  then have "\<not> (rec_ok r \<and> rec_fresh P T R K r)"
    using restore_retired_iff [of "rec_token_id r" "rec_retired_token_ids r" R
        "R \<union> set (rec_retired_token_ids r)"]
    by (auto simp: rec_ok_def rec_fresh_def)
  then show ?thesis using Inl by (auto simp: restore_loop.simps)
next
  case (Inr R')
  then show ?thesis
    using restore_retired_iff [of "rec_token_id r" "rec_retired_token_ids r" R R']
    by (auto simp: rec_ok_def rec_fresh_def restore_insert_def record_live_def split: option.splits)
qed

declare restore_loop.simps(2) [simp del]

lemma restore_loop_iff:
  "restore_loop now rs P T R K t = Inr (T', R', t') \<longleftrightarrow>
     (\<forall>r \<in> set rs. rec_ok r \<and> rec_fresh P T R K r) \<and> sorted_wrt rec_apart rs
     \<and> T' = T \<union> rec_token_id ` set rs \<and> R' = R \<union> (\<Union>r \<in> set rs. set (rec_retired_token_ids r))
     \<and> t' = foldl (restore_insert now) t rs"
  by (induction rs arbitrary: P T R K t) (auto simp: restore_loop_Cons rec_fresh_step)

section \<open>What restore accepts and builds\<close>

definition records_valid :: "LeaseRecord list \<Rightarrow> bool" where
  "records_valid rs \<longleftrightarrow> length rs \<le> 1000
     \<and> list_all (\<lambda>r. entry_ok 0 (entry_of_record r)) rs
     \<and> sorted_wrt (\<lambda>r r'. entries_compatible (entry_of_record r) (entry_of_record r')) rs"

definition restored_table :: "LeaseRecord list \<Rightarrow> u64 \<Rightarrow> LeaseTable" where
  "restored_table rs now =
     \<lparr>leases = rev (map entry_of_record (filter (record_live now) rs)), next_session_id = 0\<rparr>"

lemma entry_ok_of_record: "entry_ok n (entry_of_record r) \<longleftrightarrow> rec_ok r"
  by (simp add: entry_ok_def rec_ok_def entry_of_record_def lease_of_record_def)

lemma compatible_of_record:
  "entries_compatible (entry_of_record r) (entry_of_record r') \<longleftrightarrow>
     rec_apart r r' \<and> rec_token_id r \<notin> set (rec_retired_token_ids r')
     \<and> rec_token_id r' \<notin> set (rec_retired_token_ids r)"
  by (auto simp: entries_compatible_def rec_apart_def entry_of_record_def lease_of_record_def)

lemma restored_keys:
  assumes "sorted_wrt rec_apart rs" and "\<forall>r \<in> set rs. rec_token_id r \<notin> fst ` set m"
  shows "leases (foldl (restore_insert now) \<lparr>leases = m, next_session_id = 0\<rparr> rs) =
      rev (map entry_of_record (filter (record_live now) rs)) @ m"
  using assms
proof (induction rs arbitrary: m)
  case (Cons r rs)
  have "hm_get m (rec_token_id r) = None"
    using Cons.prems(2) by (simp add: hm_get_None_iff)
  then have step: "restore_insert now \<lparr>leases = m, next_session_id = 0\<rparr> r =
      \<lparr>leases = (if record_live now r then [entry_of_record r] else []) @ m, next_session_id = 0\<rparr>"
    by (simp add: restore_insert_def entry_of_record_def hm_insert_def hm_remove_absent)
  have "\<forall>r' \<in> set rs. rec_token_id r' \<notin>
      fst ` set ((if record_live now r then [entry_of_record r] else []) @ m)"
    using Cons.prems by (auto simp: rec_apart_def entry_of_record_def)
  then show ?case
    using Cons.IH [of "(if record_live now r then [entry_of_record r] else []) @ m"] Cons.prems(1)
    by (simp add: step)
qed simp

lemma restored_next_session:
  "next_session_id (foldl (restore_insert now) t rs) = next_session_id t"
  by (induction rs arbitrary: t) (simp_all add: restore_insert_def)

lemma foldl_restore_insert:
  assumes "sorted_wrt rec_apart rs"
  shows "foldl (restore_insert now) LeaseTable_new rs = restored_table rs now"
  using restored_keys [of rs "[]" now] restored_next_session [of now LeaseTable_new rs] assms
  by (simp add: restored_table_def LeaseTable_new_def)

lemma port_count: "unat (PORT_END - PORT_START + 1) = 1000"
  by (simp add: const_defs)

lemma disjoint_tokens_retired:
  assumes "\<forall>r \<in> set rs. rec_ok r"
  shows "rec_token_id ` set rs \<inter> (\<Union>r \<in> set rs. set (rec_retired_token_ids r)) = {} \<longleftrightarrow>
    (\<forall>r \<in> set rs. \<forall>r' \<in> set rs. r \<noteq> r' \<longrightarrow> rec_token_id r \<notin> set (rec_retired_token_ids r'))"
proof -
  have "rec_token_id r \<notin> set (rec_retired_token_ids r')"
    if "r \<in> set rs" "r' \<in> set rs"
      "\<forall>r \<in> set rs. \<forall>r' \<in> set rs. r \<noteq> r' \<longrightarrow> rec_token_id r \<notin> set (rec_retired_token_ids r')" for r r'
    using assms that by (cases "r = r'") (auto simp: rec_ok_def)
  then show ?thesis by auto
qed

lemma sorted_wrt_records:
  assumes "\<forall>r \<in> set rs. rec_ok r"
  shows "sorted_wrt (\<lambda>r r'. entries_compatible (entry_of_record r) (entry_of_record r')) rs \<longleftrightarrow>
    sorted_wrt rec_apart rs
    \<and> (\<forall>r \<in> set rs. \<forall>r' \<in> set rs. r \<noteq> r' \<longrightarrow> rec_token_id r \<notin> set (rec_retired_token_ids r'))"
  using assms
proof (induction rs)
  case (Cons r rs)
  then show ?case by (auto simp: compatible_of_record rec_ok_def)
qed simp

lemma restore_eq_iff:
  "restore rs now = Inr t \<longleftrightarrow> records_valid rs \<and> t = restored_table rs now"
proof -
  have "restore rs now = Inr t \<longleftrightarrow> length rs \<le> 1000
      \<and> (\<exists>T R. restore_loop now rs {} {} {} {} LeaseTable_new = Inr (T, R, t) \<and> T \<inter> R = {})"
    by (auto simp: restore_def port_count split: sum.splits if_splits)
  also have "\<dots> \<longleftrightarrow> length rs \<le> 1000 \<and> (\<forall>r \<in> set rs. rec_ok r) \<and> sorted_wrt rec_apart rs
      \<and> rec_token_id ` set rs \<inter> (\<Union>r \<in> set rs. set (rec_retired_token_ids r)) = {}
      \<and> t = restored_table rs now"
    by (auto simp: restore_loop_iff rec_fresh_def foldl_restore_insert)
  also have "\<dots> \<longleftrightarrow> records_valid rs \<and> t = restored_table rs now"
    using sorted_wrt_records [of rs] disjoint_tokens_retired [of rs]
    by (auto simp: records_valid_def list_all_iff entry_ok_of_record)
  finally show ?thesis .
qed

lemma lease_inv_restored:
  assumes "records_valid rs"
  shows "lease_inv (restored_table rs now)"
proof -
  have "sorted_wrt entries_compatible (map entry_of_record (filter (record_live now) rs))"
    using assms by (simp add: records_valid_def sorted_wrt_map sorted_wrt_filter)
  then have "sorted_wrt entries_compatible (rev (map entry_of_record (filter (record_live now) rs)))"
    by (rule sorted_wrt_perm [OF _ symp_entries_compatible, rotated]) simp
  moreover have "list_all (entry_ok 0) (map entry_of_record (filter (record_live now) rs))"
    using assms by (auto simp: records_valid_def list_all_iff)
  ultimately show ?thesis
    by (simp add: lease_inv_def restored_table_def list_all_iff)
qed

lemma restored_get:
  assumes "records_valid rs"
  shows "hm_get (leases (restored_table rs now)) k = Some l \<longleftrightarrow>
    (\<exists>r \<in> set rs. record_live now r \<and> rec_token_id r = k \<and> lease_of_record r = l)"
proof -
  have "hm_get (leases (restored_table rs now)) k = Some l \<longleftrightarrow>
      (k, l) \<in> set (leases (restored_table rs now))"
    by (rule lease_inv_get [OF lease_inv_restored [OF assms]])
  then show ?thesis by (auto simp: restored_table_def entry_of_record_def)
qed

lemma restored_active_session:
  assumes "records_valid rs"
  shows "active_session (restored_table rs now) k = None"
proof (cases "hm_get (leases (restored_table rs now)) k")
  case (Some m)
  then have "\<exists>r. lease_of_record r = m" using restored_get [OF assms, of now k m] by auto
  then show ?thesis using Some by (auto simp: active_session_def lease_of_record_def)
qed (simp add: active_session_def)

section \<open>Snapshots\<close>

definition lease_expiry :: "u64 \<Rightarrow> Lease \<Rightarrow> u64" where
  "lease_expiry now l =
     (case lease_status l of Active _ \<Rightarrow> saturating_add_u64 now GRACE_MS | Grace x \<Rightarrow> x)"

lemma entry_of_lease_record:
  "entry_of_record (lease_record now e) = (fst e, (snd e)\<lparr>lease_status := Grace (lease_expiry now (snd e))\<rparr>)"
  by (cases "snd e")
    (simp add: entry_of_record_def lease_record_def lease_of_record_def lease_expiry_def)

lemma lease_record_simps:
  "rec_token_id (lease_record now e) = fst e"
  "lease_of_record (lease_record now e) = (snd e)\<lparr>lease_status := Grace (lease_expiry now (snd e))\<rparr>"
  "record_live now' (lease_record now e) \<longleftrightarrow> \<not> lease_expiry now (snd e) \<le> now'"
  by (cases "snd e",
    simp_all add: lease_record_def lease_of_record_def lease_expiry_def record_live_def)

lemma compatible_distinct_ports:
  "sorted_wrt entries_compatible m \<Longrightarrow> distinct (map (lease_port \<circ> snd) m)"
  by (induction m) (auto simp: entries_compatible_def)

lemma leases_bounded:
  assumes "lease_inv t"
  shows "length (leases t) \<le> 1000"
proof -
  have "distinct (map (lease_port \<circ> snd) (leases t))"
    using assms by (simp add: lease_inv_def compatible_distinct_ports)
  then have "length (leases t) = card (set (map (lease_port \<circ> snd) (leases t)))"
    by (metis distinct_card length_map)
  also have "\<dots> \<le> card (set port_range)"
    using assms by (intro card_mono) (auto simp: in_port_range entry_ok_def dest: lease_inv_entry)
  also have "\<dots> = 1000"
    using distinct_card [OF distinct_port_range] length_port_range by simp
  finally show ?thesis .
qed

lemma snapshot_valid:
  assumes "lease_inv t"
  shows "records_valid (snapshot now t)"
proof -
  have "entry_ok 0 (entry_of_record (lease_record now e))" if "e \<in> set (leases t)" for e
    using lease_inv_entry [OF assms that] by (simp add: entry_of_lease_record entry_ok_def)
  moreover have "sorted_wrt (\<lambda>e e'. entries_compatible (entry_of_record (lease_record now e))
      (entry_of_record (lease_record now e'))) (leases t)"
    using assms unfolding lease_inv_def
    by (auto simp: entry_of_lease_record entries_compatible_def elim!: sorted_wrt_mono_rel [rotated])
  ultimately show ?thesis
    using leases_bounded [OF assms]
    by (auto simp: records_valid_def snapshot_def sorted_wrt_map list_all_iff)
qed

lemma restore_snapshot:
  "lease_inv t \<Longrightarrow> restore (snapshot now t) now' = Inr (restored_table (snapshot now t) now')"
  by (simp add: restore_eq_iff snapshot_valid)

lemma restored_snapshot_get:
  assumes "lease_inv t"
  shows "hm_get (leases (restored_table (snapshot now t) now')) k =
    (case hm_get (leases t) k of
       None \<Rightarrow> None
     | Some l \<Rightarrow> if lease_expiry now l \<le> now' then None
                else Some (l\<lparr>lease_status := Grace (lease_expiry now l)\<rparr>))" (is "?lhs = ?rhs")
proof -
  have "?lhs = Some l' \<longleftrightarrow> ?rhs = Some l'" for l'
  proof -
    have "?lhs = Some l' \<longleftrightarrow> (\<exists>e \<in> set (leases t). \<not> lease_expiry now (snd e) \<le> now' \<and> fst e = k
        \<and> (snd e)\<lparr>lease_status := Grace (lease_expiry now (snd e))\<rparr> = l')"
      unfolding restored_get [OF snapshot_valid [OF assms]]
      by (auto simp: snapshot_def lease_record_simps)
    also have "\<dots> \<longleftrightarrow> (\<exists>l. (k, l) \<in> set (leases t) \<and> \<not> lease_expiry now l \<le> now'
        \<and> l\<lparr>lease_status := Grace (lease_expiry now l)\<rparr> = l')"
      unfolding Bex_def split_paired_Ex by simp
    also have "\<dots> \<longleftrightarrow> (\<exists>l. hm_get (leases t) k = Some l \<and> \<not> lease_expiry now l \<le> now'
        \<and> l\<lparr>lease_status := Grace (lease_expiry now l)\<rparr> = l')"
      unfolding lease_inv_get [OF assms] ..
    also have "\<dots> \<longleftrightarrow> ?rhs = Some l'"
      by (auto split: option.splits)
    finally show ?thesis .
  qed
  then show ?thesis by (rule option_eqI)
qed

end
