(* ===== verification/Lease_System.thy ===== *)
theory Lease_System
  imports Lease_Restore
begin

text \<open>
  The lease table as a state machine: \<open>lease_step\<close> has one rule per operation of \<^verbatim>\<open>LeaseTable\<close>, with
  any arguments and whatever its result, and a rule for a restart of the relay from a snapshot. Both
  invariants hold in every reachable table. The abstract view of the table is \<open>owner_of\<close>, which
  identity owns which port; the refinement lemmas say which operations change it and how.
\<close>

section \<open>The quota\<close>

lemma source_count_next_session [simp]:
  "source_count src (t\<lparr>next_session_id := n\<rparr>) = source_count src t"
  by (simp add: source_count_def)

lemma quota_inv_next_session [simp]: "quota_inv (t\<lparr>next_session_id := n\<rparr>) = quota_inv t"
  by (simp add: quota_inv_def)

lemma hm_insert_remove_same: "hm_insert k v m = hm_insert k v (hm_remove k m)"
  by (simp add: hm_insert_def hm_remove_def)

lemma quota_inv_same_source:
  assumes q: "quota_inv t" and wf: "hm_wf (leases t)" and "(old, l0) \<in> set (leases t)"
    and "lease_source l = lease_source l0"
  shows "quota_inv (t\<lparr>leases := hm_insert new l (hm_remove old (leases t))\<rparr>)"
  unfolding quota_inv_def
proof
  fix src
  have "source_count src (t\<lparr>leases := hm_insert new l (hm_remove old (leases t))\<rparr>)
      \<le> source_count src t"
    using source_count_move [where source = src and t = t and new = new and l = l and old = old]
      length_filter_hm_remove [OF wf assms(3), of "\<lambda>e. lease_source (snd e) = Some src"] assms(4)
    by (simp add: source_count_eq)
  then show "source_count src (t\<lparr>leases := hm_insert new l (hm_remove old (leases t))\<rparr>)
      \<le> MAX_TUNNELS_PER_IP"
    using q by (auto simp: quota_inv_def intro: order_trans)
qed

lemma quota_inv_new_claim:
  assumes q: "quota_inv t" and "check_ip_quota t ip False = Inr ()"
    and "lease_source l = Some (host_source_from ip)" and "hm_get (leases t) k = None"
  shows "quota_inv (t\<lparr>leases := hm_insert k l (leases t)\<rparr>)"
  using assms
  by (auto simp: quota_inv_def source_count_eq hm_insert_def hm_remove_absent check_ip_quota_def
      split: if_splits)

lemma enroll_claim_quota:
  assumes inv: "lease_inv t" and q: "quota_inv t" and off: "port_offered k ip p t"
    and run: "enroll_claim k r ip p t = (res, t')"
  shows "quota_inv t'"
  using run
proof (cases rule: enroll_claim_cases)
  case (enrolled n existing)
  show ?thesis
  proof (cases existing)
    case None
    then show ?thesis
      unfolding enrolled(6) using q off enrolled(3)
      by (auto simp: port_offered_def lease_source_def intro!: quota_inv_new_claim)
  next
    case (Some l)
    then have "(k, l) \<in> set (leases t)" and
      "check_ip_quota t ip (lease_source l = Some (host_source_from ip)) = Inr ()"
      using off enrolled(3) by (auto simp: port_offered_def hm_get_in_set)
    then show ?thesis
      unfolding enrolled(6) hm_insert_remove_same [of k _ "leases t"]
      using quota_inv_move [OF q lease_inv_wf [OF inv]] by (simp add: lease_source_def)
  qed
qed (simp add: q)

lemma activate_with_recovery_quota [inv_intros]:
  assumes "lease_inv t" and "quota_inv t" and "activate_with_recovery k r ip p now t = (res, t')"
  shows "quota_inv t'"
  using assms(3)
  by (cases rule: activate_with_recovery_cases)
    (auto intro: enroll_claim_quota reap_expired_inv reap_expired_quota assms(1,2))

lemma end_session_quota [inv_intros]:
  assumes "lease_inv t" and "quota_inv t" and "end_session k s now t = (b, t')"
  shows "quota_inv t'"
  using assms quota_inv_same_source [OF assms(2) lease_inv_wf [OF assms(1)] hm_get_in_set]
  by (auto simp: end_session_def lease_source_def hm_insert_remove_same [of k _ "leases t"]
      split: option.splits if_splits)

lemma rotate_claim_quota [inv_intros]:
  assumes inv: "lease_inv t" and q: "quota_inv t" and run: "rotate_claim old new now t = (res, t')"
  shows "quota_inv t'"
  using run
proof (cases rule: rotate_claim_cases)
  case (moved u l x)
  have "lease_inv u" "quota_inv u" using inv q moved(1) by (simp_all add: reap_expired_inv reap_expired_quota)
  then show ?thesis
    unfolding moved(10) using quota_inv_same_source [OF _ lease_inv_wf hm_get_in_set [OF moved(6)]]
    by (simp add: lease_source_def)
qed (simp add: q reap_expired_quota)

lemma recover_claim_quota [inv_intros]:
  assumes inv: "lease_inv t" and q: "quota_inv t" and run: "recover_claim r new ip now t = (res, t')"
  shows "quota_inv t'"
  using run
proof (cases rule: recover_claim_cases)
  case (moved u old l)
  have "lease_inv u" "quota_inv u" using inv q moved(1) by (simp_all add: reap_expired_inv reap_expired_quota)
  then show ?thesis
    unfolding moved(9) using quota_inv_move [OF _ lease_inv_wf _ moved(7) refl moved(2)]
    by (simp add: lease_source_def)
qed (simp_all add: q reap_expired_quota)

lemma restored_quota:
  assumes "lease_inv t" and "quota_inv t"
  shows "quota_inv (restored_table (snapshot now t) now')"
  unfolding quota_inv_def
proof
  fix src
  have "source_count src (restored_table (snapshot now t) now') \<le> source_count src t"
    unfolding source_count_eq restored_table_def snapshot_def
    by (simp add: filter_map rev_filter [symmetric] o_def entry_of_lease_record lease_source_def
        length_filter_conj_le)
  then show "source_count src (restored_table (snapshot now t) now') \<le> MAX_TUNNELS_PER_IP"
    using assms(2) by (auto simp: quota_inv_def intro: order_trans)
qed

section \<open>The machine\<close>

inductive lease_op_step :: "LeaseTable \<Rightarrow> LeaseTable \<Rightarrow> bool" where
  step_candidates: "candidate_ports k ip now t = (c, t') \<Longrightarrow> lease_op_step t t'"
| step_activate: "activate_with_recovery k r ip p now t = (s, t') \<Longrightarrow> lease_op_step t t'"
| step_end: "end_session k s now t = (b, t') \<Longrightarrow> lease_op_step t t'"
| step_rotate: "rotate_claim old new now t = (rr, t') \<Longrightarrow> lease_op_step t t'"
| step_recover: "recover_claim r new ip now t = (rc, t') \<Longrightarrow> lease_op_step t t'"
| step_reap: "lease_op_step t (reap_expired now t)"

inductive lease_step :: "LeaseTable \<Rightarrow> LeaseTable \<Rightarrow> bool" where
  step_op: "lease_op_step t t' \<Longrightarrow> lease_step t t'"
| step_restart: "restore (snapshot now t) now' = Inr t' \<Longrightarrow> lease_step t t'"

lemma lease_op_step_inv:
  assumes "lease_op_step t t'" and "lease_inv t"
  shows "lease_inv t'"
  using assms
proof (cases rule: lease_op_step.cases)
  case (step_candidates k ip now c)
  then show ?thesis
    using assms(2) snd_candidate_ports [of k ip now t] by (simp add: reap_expired_inv)
qed (auto intro: inv_intros)

lemma lease_op_step_quota:
  assumes "lease_op_step t t'" and "lease_inv t" and "quota_inv t"
  shows "quota_inv t'"
  using assms
proof (cases rule: lease_op_step.cases)
  case (step_candidates k ip now c)
  then show ?thesis
    using assms(3) snd_candidate_ports [of k ip now t] by (simp add: reap_expired_quota)
qed (auto intro: inv_intros)

lemma lease_step_invs:
  assumes "lease_step t t'" and "lease_inv t \<and> quota_inv t"
  shows "lease_inv t' \<and> quota_inv t'"
  using assms
proof (cases rule: lease_step.cases)
  case step_op
  then show ?thesis using assms(2) lease_op_step_inv lease_op_step_quota by blast
next
  case (step_restart now now')
  then show ?thesis
    using assms(2) by (auto simp: restore_snapshot lease_inv_restored snapshot_valid restored_quota)
qed

abbreviation lease_reachable :: "LeaseTable \<Rightarrow> bool" where
  "lease_reachable \<equiv> reachable_by (\<lambda>t. t = LeaseTable_new) lease_step"

interpretation table: invariant_system "\<lambda>t. t = LeaseTable_new" lease_step
  "\<lambda>t. lease_inv t \<and> quota_inv t"
  by unfold_locales
    (auto simp: lease_inv_new quota_inv_new dest: lease_step_invs)

section \<open>Session numbers\<close>

lemma next_session_reap [simp]: "next_session_id (reap_expired now t) = next_session_id t"
  by (simp add: reap_expired_def)

lemma enroll_next_session:
  assumes "enroll_claim k r ip p t = (res, t')"
  shows "next_session_id t \<le> next_session_id t'"
  using assms
  by (cases rule: enroll_claim_cases) (auto simp: word_le_nat_alt dest: checked_add_Some)

lemma activate_next_session:
  assumes "activate_with_recovery k r ip p now t = (res, t')"
  shows "next_session_id t \<le> next_session_id t'"
  using assms
  by (cases rule: activate_with_recovery_cases) (auto dest: enroll_next_session)

lemma lease_op_step_next_session:
  assumes "lease_op_step t t'"
  shows "next_session_id t \<le> next_session_id t'"
  using assms
proof (cases rule: lease_op_step.cases)
  case (step_candidates k ip now c)
  then show ?thesis using snd_candidate_ports [of k ip now t] by simp
next
  case (step_activate k r ip p now s)
  then show ?thesis by (rule activate_next_session)
next
  case (step_end k s now b)
  then show ?thesis by (auto simp: end_session_def split: option.splits if_splits)
next
  case (step_rotate old new now rr)
  then show ?thesis by (cases rule: rotate_claim_cases) auto
next
  case (step_recover r new ip now rc)
  then show ?thesis by (cases rule: recover_claim_cases) auto
qed simp

lemma lease_op_steps_next_session:
  "lease_op_step\<^sup>*\<^sup>* t t' \<Longrightarrow> next_session_id t \<le> next_session_id t'"
  by (induction rule: rtranclp_induct) (auto dest: lease_op_step_next_session)

lemma activate_session_number:
  assumes "activate_with_recovery k r ip p now t = (Inr (SessionId n), t')"
  shows "unat n = Suc (unat (next_session_id t))" and "next_session_id t' = n"
  using assms
  by (cases rule: activate_with_recovery_cases;
      auto elim!: enroll_claim_cases dest: checked_add_Some)+

section \<open>Who owns a port\<close>

definition owner_of :: "LeaseTable \<Rightarrow> u16 \<Rightarrow> TokenId option" where
  "owner_of t p = map_option fst (find (\<lambda>e. lease_port (snd e) = p) (leases t))"

lemma owner_of_iff:
  assumes "lease_inv t"
  shows "owner_of t p = Some k \<longleftrightarrow> (\<exists>l. (k, l) \<in> set (leases t) \<and> lease_port l = p)"
proof
  assume "owner_of t p = Some k"
  then show "\<exists>l. (k, l) \<in> set (leases t) \<and> lease_port l = p"
    by (auto simp: owner_of_def dest!: find_Some_set)
next
  assume "\<exists>l. (k, l) \<in> set (leases t) \<and> lease_port l = p"
  then obtain l where l: "(k, l) \<in> set (leases t)" "lease_port l = p" by blast
  have "find (\<lambda>e. lease_port (snd e) = p) (leases t) = Some (k, l)"
  proof (rule find_eq_of_unique [OF l(1)])
    fix e assume e: "e \<in> set (leases t)" "lease_port (snd e) = p"
    show "e = (k, l)"
      using lease_inv_pair [OF assms e(1) l(1)] e(2) l(2) by (auto simp: entries_compatible_def)
  qed (simp add: l(2))
  then show "owner_of t p = Some k" by (simp add: owner_of_def)
qed

lemma owner_of_get:
  "lease_inv t \<Longrightarrow> owner_of t p = Some k \<longleftrightarrow> (\<exists>l. hm_get (leases t) k = Some l \<and> lease_port l = p)"
  by (simp add: owner_of_iff lease_inv_get)

text \<open>
  The abstract registry: a partial function from ports to owners. A claim is granted on a port
  nobody owns to an identity that owns none, handed over to an identity that owns none, or released.
\<close>

type_synonym registry = "u16 \<Rightarrow> TokenId option"

inductive registry_step :: "registry \<Rightarrow> registry \<Rightarrow> bool" where
  registry_release: "registry_step R (R |` A)"
| registry_grant: "R p = None \<Longrightarrow> k \<notin> ran R \<Longrightarrow> PORT_START \<le> p \<Longrightarrow> p \<le> PORT_END
    \<Longrightarrow> registry_step R (R(p \<mapsto> k))"
| registry_handover: "R p = Some old \<Longrightarrow> new \<notin> ran R \<Longrightarrow> registry_step R (R(p \<mapsto> new))"

lemma ran_owner_of: "lease_inv t \<Longrightarrow> k \<in> ran (owner_of t) \<longleftrightarrow> hm_get (leases t) k \<noteq> None"
  by (auto simp: ran_def owner_of_get)

lemma owner_of_filter:
  assumes "lease_inv t"
  shows "\<exists>A. owner_of (t\<lparr>leases := filter P (leases t)\<rparr>) = owner_of t |` A"
proof -
  let ?A = "{p. \<exists>e \<in> set (leases t). P e \<and> lease_port (snd e) = p}"
  have "owner_of (t\<lparr>leases := filter P (leases t)\<rparr>) p = (owner_of t |` ?A) p" for p
  proof (rule option_eqI)
    fix k
    have "owner_of (t\<lparr>leases := filter P (leases t)\<rparr>) p = Some k \<longleftrightarrow>
        (\<exists>l. (k, l) \<in> set (leases t) \<and> P (k, l) \<and> lease_port l = p)"
      by (auto simp: owner_of_iff [OF lease_inv_filter [OF assms]])
    also have "\<dots> \<longleftrightarrow> (\<exists>l. (k, l) \<in> set (leases t) \<and> lease_port l = p) \<and> p \<in> ?A"
    proof
      assume r: "(\<exists>l. (k, l) \<in> set (leases t) \<and> lease_port l = p) \<and> p \<in> ?A"
      then obtain l e where "(k, l) \<in> set (leases t)" "lease_port l = p" "e \<in> set (leases t)" "P e"
        "lease_port (snd e) = p" by blast
      moreover from this have "e = (k, l)"
        using lease_inv_pair [OF assms, of e "(k, l)"] by (auto simp: entries_compatible_def)
      ultimately show "\<exists>l. (k, l) \<in> set (leases t) \<and> P (k, l) \<and> lease_port l = p" by blast
    qed auto
    also have "\<dots> \<longleftrightarrow> (owner_of t |` ?A) p = Some k"
      by (simp add: restrict_map_def owner_of_iff [OF assms])
    finally show "owner_of (t\<lparr>leases := filter P (leases t)\<rparr>) p = Some k \<longleftrightarrow>
        (owner_of t |` ?A) p = Some k" .
  qed
  then show ?thesis by blast
qed

lemma owner_of_put:
  assumes "lease_inv t" and "lease_inv (t\<lparr>leases := hm_insert k l m, next_session_id := n\<rparr>)"
    and "\<And>e. e \<in> set m \<Longrightarrow> fst e \<noteq> k \<Longrightarrow> e \<in> set (leases t)"
    and "\<And>e. e \<in> set (leases t) \<Longrightarrow> fst e = k \<or> lease_port (snd e) = lease_port l \<or> e \<in> set m"
    and "\<And>l0. (k, l0) \<in> set (leases t) \<Longrightarrow> lease_port l0 = lease_port l"
  shows "owner_of (t\<lparr>leases := hm_insert k l m, next_session_id := n\<rparr>) =
    (owner_of t)(lease_port l \<mapsto> k)" (is "owner_of ?t' = _")
proof (rule ext, rule option_eqI)
  fix q k'
  have "owner_of ?t' q = Some k' \<longleftrightarrow> k' = k \<and> lease_port l = q
      \<or> k' \<noteq> k \<and> (\<exists>l'. (k', l') \<in> set m \<and> lease_port l' = q)"
    by (auto simp: owner_of_iff [OF assms(2)] set_hm_insert)
  also have "\<dots> \<longleftrightarrow> ((owner_of t)(lease_port l \<mapsto> k)) q = Some k'"
  proof (cases "q = lease_port l")
    case True
    have "k' = k" if "(k', l') \<in> set m" "lease_port l' = q" for l'
      using lease_inv_pair [OF assms(2), of "(k, l)" "(k', l')"] that True
      by (auto simp: set_hm_insert entries_compatible_def)
    then show ?thesis using True by auto
  next
    case False
    have "(k' \<noteq> k \<and> (\<exists>l'. (k', l') \<in> set m \<and> lease_port l' = q)) \<longleftrightarrow>
        (\<exists>l'. (k', l') \<in> set (leases t) \<and> lease_port l' = q)"
      using assms(3-5) False by fastforce
    then show ?thesis
      using False by (auto simp: owner_of_iff [OF assms(1)])
  qed
  finally show "owner_of ?t' q = Some k' \<longleftrightarrow> ((owner_of t)(lease_port l \<mapsto> k)) q = Some k'" .
qed

section \<open>Every operation refines the registry\<close>

lemma owner_of_reap:
  assumes "lease_inv t"
  shows "registry_step (owner_of t) (owner_of (reap_expired now t))"
  using owner_of_filter [OF assms, of "\<lambda>e. \<not> lease_expired now (snd e)"]
  by (auto simp: reap_expired_filter registry_step.simps)

lemma owner_of_restored:
  assumes "lease_inv t"
  shows "owner_of (restored_table (snapshot now t) now') p = Some k \<longleftrightarrow>
    (\<exists>l. hm_get (leases t) k = Some l \<and> lease_port l = p \<and> \<not> lease_expiry now l \<le> now')"
  using owner_of_get [OF lease_inv_restored [OF snapshot_valid [OF assms]]]
  by (auto simp: restored_snapshot_get [OF assms] split: option.splits if_splits)

lemma owner_of_restart:
  assumes "lease_inv t"
  shows "registry_step (owner_of t) (owner_of (restored_table (snapshot now t) now'))"
proof -
  let ?A = "{p. owner_of (restored_table (snapshot now t) now') p \<noteq> None}"
  have "owner_of (restored_table (snapshot now t) now') = owner_of t |` ?A"
  proof
    fix p
    have "owner_of t p = Some k" if "owner_of (restored_table (snapshot now t) now') p = Some k" for k
      using that by (auto simp: owner_of_restored [OF assms] owner_of_get [OF assms])
    then show "owner_of (restored_table (snapshot now t) now') p = (owner_of t |` ?A) p"
      by (simp add: restrict_map_def) fastforce
  qed
  then show ?thesis by (metis registry_release)
qed

lemma owner_of_enroll:
  assumes inv: "lease_inv t" and off: "port_offered k ip p t"
    and run: "enroll_claim k r ip p t = (Inr s, t')"
  shows "owner_of t' = (owner_of t)(p \<mapsto> k)"
    and "owner_of t p = None \<and> k \<notin> ran (owner_of t) \<and> p \<in> set port_range \<or> owner_of t p = Some k"
proof -
  from run obtain l n where t': "t' = t\<lparr>leases := hm_insert k l (leases t), next_session_id := n\<rparr>"
    and l: "lease_port l = p"
    by (cases rule: enroll_claim_cases) auto
  have inv': "lease_inv (t\<lparr>leases := hm_insert k l (leases t), next_session_id := n\<rparr>)"
    using enroll_claim_inv [OF inv off run] t' by simp
  have old: "lease_port l0 = p" if "(k, l0) \<in> set (leases t)" for l0
    using off that [folded lease_inv_get [OF inv]] by (simp add: port_offered_def)
  show "owner_of t' = (owner_of t)(p \<mapsto> k)"
    unfolding t' using owner_of_put [OF inv inv'] old l by auto
  show "owner_of t p = None \<and> k \<notin> ran (owner_of t) \<and> p \<in> set port_range \<or> owner_of t p = Some k"
  proof (cases "hm_get (leases t) k")
    case None
    then have "p \<in> set (free_ports t)" using off by (simp add: port_offered_def)
    then have range: "p \<in> set port_range" and free: "p \<notin> lease_port ` snd ` set (leases t)"
      by (simp_all add: in_free_ports in_port_range hm_values_def image_image)
    have "owner_of t p \<noteq> Some k'" for k'
      using free by (force simp: owner_of_iff [OF inv])
    then show ?thesis using range None ran_owner_of [OF inv, of k] by auto
  next
    case (Some l0)
    then show ?thesis
      using old [OF hm_get_in_set [OF Some]] owner_of_get [OF inv, of p k] by simp
  qed
qed

lemma owner_of_move:
  assumes inv: "lease_inv t" and old: "(old, l0) \<in> set (leases t)"
    and new: "hm_get (leases t) new = None" and p: "lease_port l = lease_port l0"
    and inv': "lease_inv (t\<lparr>leases := hm_insert new l (hm_remove old (leases t))\<rparr>)"
  shows "owner_of (t\<lparr>leases := hm_insert new l (hm_remove old (leases t))\<rparr>) =
      (owner_of t)(lease_port l0 \<mapsto> new)"
    and "owner_of t (lease_port l0) = Some old" and "new \<notin> ran (owner_of t)"
proof -
  have "owner_of (t\<lparr>leases := hm_insert new l (hm_remove old (leases t)),
      next_session_id := next_session_id t\<rparr>) = (owner_of t)(lease_port l \<mapsto> new)"
  proof (rule owner_of_put [OF inv])
    fix e assume "e \<in> set (leases t)"
    then show "fst e = new \<or> lease_port (snd e) = lease_port l \<or> e \<in> set (hm_remove old (leases t))"
      using lease_inv_pair [OF inv _ old, of e] p by (cases "e = (old, l0)")
        (auto simp: set_hm_remove entries_compatible_def)
  next
    fix l' assume "(new, l') \<in> set (leases t)"
    then show "lease_port l' = lease_port l" using new by (auto simp: hm_get_None_iff rev_image_eqI)
  qed (use inv' in \<open>auto simp: set_hm_remove\<close>)
  then show "owner_of (t\<lparr>leases := hm_insert new l (hm_remove old (leases t))\<rparr>) =
      (owner_of t)(lease_port l0 \<mapsto> new)" by (simp add: p)
  show "owner_of t (lease_port l0) = Some old" using old owner_of_iff [OF inv] by blast
  show "new \<notin> ran (owner_of t)" using new ran_owner_of [OF inv] by simp
qed

lemma rotate_claim_owner:
  assumes "lease_inv t" and "rotate_claim old new now t = (Inr (Transferred p), t')"
  shows "owner_of t' = (owner_of (reap_expired now t))(p \<mapsto> new)"
    and "owner_of (reap_expired now t) p = Some old" and "new \<notin> ran (owner_of (reap_expired now t))"
proof -
  from assms(2) have "owner_of t' = (owner_of (reap_expired now t))(p \<mapsto> new)
      \<and> owner_of (reap_expired now t) p = Some old \<and> new \<notin> ran (owner_of (reap_expired now t))"
  proof (cases rule: rotate_claim_cases)
    case (moved u l x)
    have u: "lease_inv u" using assms(1) moved(1) by (simp add: reap_expired_inv)
    note inv' = rotate_claim_inv [OF assms, unfolded moved(10)]
    show ?thesis
      using owner_of_move [OF u hm_get_in_set [OF moved(6)] moved(3) _ inv'] moved(1,9,10) by simp
  qed blast
  then show "owner_of t' = (owner_of (reap_expired now t))(p \<mapsto> new)"
    "owner_of (reap_expired now t) p = Some old" "new \<notin> ran (owner_of (reap_expired now t))"
    by blast+
qed

lemma recover_claim_owner:
  assumes "lease_inv t" and "recover_claim r new ip now t = (Inr rec, t')" and "changed rec"
  shows "owner_of t' = (owner_of (reap_expired now t))(recovered_port rec \<mapsto> new)"
    and "\<exists>old l. owner_of (reap_expired now t) (recovered_port rec) = Some old \<and> old \<noteq> new
      \<and> hm_get (leases (reap_expired now t)) old = Some l \<and> lease_recovery_id l = Some r"
    and "new \<notin> ran (owner_of (reap_expired now t))"
proof -
  from assms(2) have "owner_of t' = (owner_of (reap_expired now t))(recovered_port rec \<mapsto> new)
      \<and> (\<exists>old l. owner_of (reap_expired now t) (recovered_port rec) = Some old \<and> old \<noteq> new
        \<and> hm_get (leases (reap_expired now t)) old = Some l \<and> lease_recovery_id l = Some r)
      \<and> new \<notin> ran (owner_of (reap_expired now t))"
  proof (cases rule: recover_claim_cases)
    case (repeated l)
    then show ?thesis using assms(3) by simp
  next
    case (moved u old l)
    have u: "lease_inv u" using assms(1) moved(1) by (simp add: reap_expired_inv)
    note inv' = recover_claim_inv [OF assms(1,2), unfolded moved(9)]
    have "hm_get (leases u) old = Some l" using moved(2) lease_inv_get [OF u] by simp
    then show ?thesis
      using owner_of_move [OF u moved(2,5) _ inv'] moved(1,3,4,8,9) by auto
  qed simp
  then show "owner_of t' = (owner_of (reap_expired now t))(recovered_port rec \<mapsto> new)"
    "\<exists>old l. owner_of (reap_expired now t) (recovered_port rec) = Some old \<and> old \<noteq> new
      \<and> hm_get (leases (reap_expired now t)) old = Some l \<and> lease_recovery_id l = Some r"
    "new \<notin> ran (owner_of (reap_expired now t))"
    by blast+
qed

lemma end_session_owner:
  assumes "lease_inv t" and "end_session k s now t = (b, t')"
  shows "owner_of t' = owner_of t"
proof (rule ext, rule option_eqI)
  fix p k'
  show "owner_of t' p = Some k' \<longleftrightarrow> owner_of t p = Some k'"
    using assms end_session_inv [OF assms]
    by (auto simp: owner_of_get end_session_def hm.get_put split: option.splits if_splits)
qed

lemma activate_owner:
  assumes "lease_inv t" and "activate_with_recovery k r ip p now t = (Inr s, t')"
  shows "owner_of t' = (owner_of (reap_expired now t))(p \<mapsto> k)"
    and "owner_of (reap_expired now t) p = None \<and> k \<notin> ran (owner_of (reap_expired now t))
        \<and> p \<in> set port_range
      \<or> owner_of (reap_expired now t) p = Some k"
  using assms(2)
  by (cases rule: activate_with_recovery_cases;
      use owner_of_enroll [OF reap_expired_inv [OF assms(1)]] in auto)+

lemma lease_op_step_refines:
  assumes inv: "lease_inv t" and "lease_op_step t t'"
  shows "registry_step\<^sup>*\<^sup>* (owner_of t) (owner_of t')"
  using assms(2)
proof (cases rule: lease_op_step.cases)
  case (step_candidates k ip now c)
  then show ?thesis
    using owner_of_reap [OF inv, of now] snd_candidate_ports [of k ip now t] by auto
next
  case (step_activate k r ip p now s)
  let ?R = "owner_of (reap_expired now t)"
  have "owner_of t' = ?R \<or> registry_step ?R (owner_of t')"
  proof (cases s)
    case (Inl e)
    have "t' = reap_expired now t"
      using step_activate [unfolded Inl]
      by (cases rule: activate_with_recovery_cases) (auto elim!: enroll_claim_cases)
    then show ?thesis by simp
  next
    case (Inr n)
    show ?thesis
      using activate_owner [OF inv step_activate [unfolded Inr]] registry_grant [of ?R p k]
      by (auto simp: in_port_range fun_upd_idem)
  qed
  then show ?thesis using owner_of_reap [OF inv, of now] by auto
next
  case (step_end k s now b)
  then show ?thesis using end_session_owner [OF inv] by simp
next
  case (step_rotate old new now rr)
  have "owner_of t' = owner_of (reap_expired now t)
      \<or> registry_step (owner_of (reap_expired now t)) (owner_of t')"
    using step_rotate
  proof (cases rule: rotate_claim_cases)
    case (moved u l x)
    note run = step_rotate [unfolded moved(9)]
    show ?thesis
      unfolding rotate_claim_owner(1) [OF inv run]
      using registry_handover [OF rotate_claim_owner(2,3) [OF inv run]] by simp
  qed simp
  then show ?thesis using owner_of_reap [OF inv, of now] by auto
next
  case (step_recover r new ip now rc)
  have "owner_of t' = owner_of (reap_expired now t)
      \<or> registry_step (owner_of (reap_expired now t)) (owner_of t')"
    using step_recover
  proof (cases rule: recover_claim_cases)
    case (moved u old l)
    note run = step_recover [unfolded moved(8)]
    obtain old' where "owner_of (reap_expired now t) (lease_port l) = Some old'"
      using recover_claim_owner(2) [OF inv run] by auto
    then show ?thesis
      using recover_claim_owner(1,3) [OF inv run] registry_handover by simp
  qed simp_all
  then show ?thesis using owner_of_reap [OF inv, of now] by auto
next
  case (step_reap now)
  then show ?thesis using owner_of_reap [OF inv, of now] by auto
qed

lemma lease_step_refines:
  assumes "lease_step t t'" and "lease_inv t \<and> quota_inv t"
  shows "registry_step\<^sup>*\<^sup>* (owner_of t) (owner_of t')"
  using assms(1)
proof (cases rule: lease_step.cases)
  case step_op
  then show ?thesis using assms(2) lease_op_step_refines by blast
next
  case (step_restart now now')
  then show ?thesis
    using assms(2) owner_of_restart [of t now now'] restore_snapshot [of t now now'] by auto
qed

lemma owner_of_new: "owner_of LeaseTable_new = Map.empty"
  by (auto simp: owner_of_def LeaseTable_new_def)

interpretation table_registry: forward_simulation "\<lambda>t. t = LeaseTable_new" lease_step
  "\<lambda>t. lease_inv t \<and> quota_inv t" owner_of "\<lambda>R. R = Map.empty" registry_step
  by unfold_locales (auto simp: owner_of_new intro: lease_step_refines)

end
