(* ===== verification/File_System.thy ===== *)
theory File_System
  imports Rust_Std
begin

text \<open>
  The file system as \<^verbatim>\<open>std::fs\<close> shows it to the relay's lease store and to the client's identity
  files (the Unix build), with I/O errors as values. A \<open>World\<close> holds the nodes by path and the list
  of faults to come: each primitive takes the next entry and fails if it says so, so that a theorem
  for every fault list covers every pattern of failing system calls, and after the list is used up
  all calls succeed when they can. An interrupted \<^verbatim>\<open>write_all\<close> leaves a prefix behind. The crate
  \<^verbatim>\<open>tempfile\<close> is the parameter \<open>tempfile\<close>; what the program relies on is the locale
  \<open>tempfile_spec\<close>, interpreted here on an implementation by the primitives.
\<close>

section \<open>Paths and nodes\<close>

type_synonym path = "string list"

definition path_parent :: "path \<Rightarrow> path option" where
  "path_parent p = (if p = [] \<or> last p = ''/'' then None else Some (butlast p))"

definition path_file_name :: "path \<Rightarrow> string option" where
  "path_file_name p = (if p = [] \<or> last p \<in> {''/'', ''.'', ''..''} then None else Some (last p))"

definition with_file_name :: "string \<Rightarrow> path \<Rightarrow> path" where
  "with_file_name n p = (if path_file_name p = None then p @ [n] else butlast p @ [n])"

text \<open>\<^verbatim>\<open>path.parent().unwrap_or_else(|| Path::new("."))\<close>.\<close>

definition parent_or_dot :: "path \<Rightarrow> path" where
  "parent_or_dot p = (case path_parent p of Some d \<Rightarrow> d | None \<Rightarrow> [''.''])"

datatype node =
    Regular (node_bytes: "u8 list") (node_mode: nat)
  | Directory
  | Symlink path
  | Special

datatype fault = Fine | Fail io_error nat

record World =
  nodes :: "path \<Rightarrow> node option"
  faults :: "fault list"

type_synonym ('e, 'a) io = "World \<Rightarrow> ('e, 'a) result \<times> World"

section \<open>Sequencing\<close>

definition io_return :: "'a \<Rightarrow> ('e, 'a) io" where
  "io_return x w = (Inr x, w)"

definition io_fail :: "'e \<Rightarrow> ('e, 'a) io" where
  "io_fail e w = (Inl e, w)"

definition io_bind :: "('e, 'a) io \<Rightarrow> ('a \<Rightarrow> ('e, 'b) io) \<Rightarrow> ('e, 'b) io" where
  "io_bind m f w = (case m w of (Inl e, w') \<Rightarrow> (Inl e, w') | (Inr x, w') \<Rightarrow> f x w')"

definition io_then :: "('e, 'a) io \<Rightarrow> ('e, 'b) io \<Rightarrow> ('e, 'b) io" where
  "io_then m n = io_bind m (\<lambda>_. n)"

definition io_ensure :: "bool \<Rightarrow> 'e \<Rightarrow> ('e, unit) io" where
  "io_ensure b e = (if b then io_return () else io_fail e)"

definition io_result :: "('e, 'a) result \<Rightarrow> ('e, 'a) io" where
  "io_result r w = (r, w)"

definition map_err :: "('e \<Rightarrow> 'f) \<Rightarrow> ('e, 'a) result \<Rightarrow> ('f, 'a) result" where
  "map_err f r = (case r of Inl e \<Rightarrow> Inl (f e) | Inr x \<Rightarrow> Inr x)"

definition io_map_err :: "('e \<Rightarrow> 'f) \<Rightarrow> ('e, 'a) io \<Rightarrow> ('f, 'a) io" where
  "io_map_err f m w = (case m w of (r, w') \<Rightarrow> (map_err f r, w'))"

text \<open>A value with a destructor goes out of scope when the rest of its block fails.\<close>

definition on_error :: "(World \<Rightarrow> World) \<Rightarrow> ('e, 'a) io \<Rightarrow> ('e, 'a) io" where
  "on_error d m w = (case m w of (Inl e, w') \<Rightarrow> (Inl e, d w') | (Inr x, w') \<Rightarrow> (Inr x, w'))"

section \<open>Primitives\<close>

text \<open>One system call: \<open>partial n\<close> is what a failing call leaves behind.\<close>

definition sys_call ::
  "(nat \<Rightarrow> World \<Rightarrow> World) \<Rightarrow> (World \<Rightarrow> (io_error, 'a) result \<times> World) \<Rightarrow> (io_error, 'a) io" where
  "sys_call partial act w =
     (case faults w of
        [] \<Rightarrow> act w
      | Fine # fs \<Rightarrow> act (w\<lparr>faults := fs\<rparr>)
      | Fail e n # fs \<Rightarrow> (Inl e, partial n (w\<lparr>faults := fs\<rparr>)))"

abbreviation no_effect :: "nat \<Rightarrow> World \<Rightarrow> World" where
  "no_effect \<equiv> \<lambda>_ w. w"

text \<open>Symbolic links are followed up to 40 times, as the kernel does.\<close>

fun resolve_links :: "nat \<Rightarrow> (path \<Rightarrow> node option) \<Rightarrow> path \<Rightarrow> path option" where
  "resolve_links 0 ns p = None"
| "resolve_links (Suc n) ns p =
     (case ns p of Some (Symlink q) \<Rightarrow> resolve_links n ns q | _ \<Rightarrow> Some p)"

definition lookup_followed :: "World \<Rightarrow> path \<Rightarrow> (io_error, path \<times> node) result" where
  "lookup_followed w p =
     (case resolve_links 41 (nodes w) p of
        None \<Rightarrow> Inl OtherIo
      | Some q \<Rightarrow> (case nodes w q of None \<Rightarrow> Inl NotFound | Some n \<Rightarrow> Inr (q, n)))"

text \<open>\<^verbatim>\<open>fs::metadata(p)\<close>: the node after following links, of which the program uses the length.\<close>

definition node_len :: "node \<Rightarrow> nat" where
  "node_len n = (case n of Regular bs _ \<Rightarrow> length bs | _ \<Rightarrow> 0)"

definition fs_metadata :: "path \<Rightarrow> (io_error, node) io" where
  "fs_metadata p = sys_call no_effect (\<lambda>w.
     (case lookup_followed w p of Inl e \<Rightarrow> Inl e | Inr (_, n) \<Rightarrow> Inr n, w))"

definition fs_symlink_metadata :: "path \<Rightarrow> (io_error, node) io" where
  "fs_symlink_metadata p = sys_call no_effect (\<lambda>w.
     (case nodes w p of None \<Rightarrow> Inl NotFound | Some n \<Rightarrow> Inr n, w))"

definition fs_read :: "path \<Rightarrow> (io_error, u8 list) io" where
  "fs_read p = sys_call no_effect (\<lambda>w.
     (case lookup_followed w p of
        Inl e \<Rightarrow> Inl e
      | Inr (_, Regular bs _) \<Rightarrow> Inr bs
      | Inr _ \<Rightarrow> Inl OtherIo, w))"

text \<open>\<^verbatim>\<open>File::open(p)?.sync_all()?\<close>, on a file or on a directory.\<close>

definition fs_open :: "path \<Rightarrow> (io_error, unit) io" where
  "fs_open p = sys_call no_effect (\<lambda>w.
     (case lookup_followed w p of Inl e \<Rightarrow> Inl e | Inr _ \<Rightarrow> Inr (), w))"

definition fs_sync_all :: "(io_error, unit) io" where
  "fs_sync_all = sys_call no_effect (\<lambda>w. (Inr (), w))"

definition dir_exists :: "World \<Rightarrow> path \<Rightarrow> bool" where
  "dir_exists w d = (d = [] \<or> nodes w d = Some Directory)"

text \<open>\<^verbatim>\<open>OpenOptions::new().write(true).create_new(true).mode(0o600).open(p)\<close>.\<close>

definition fs_create_new :: "nat \<Rightarrow> path \<Rightarrow> (io_error, unit) io" where
  "fs_create_new mode p = sys_call no_effect (\<lambda>w.
     if nodes w p \<noteq> None then (Inl AlreadyExists, w)
     else if \<not> dir_exists w (butlast p) then (Inl NotFound, w)
     else (Inr (), w\<lparr>nodes := (nodes w)(p \<mapsto> Regular [] mode)\<rparr>))"

text \<open>\<^verbatim>\<open>write_all\<close> to an open file, which the program only ever fills once from the start.\<close>

definition append_node :: "path \<Rightarrow> u8 list \<Rightarrow> World \<Rightarrow> World" where
  "append_node p bs w =
     (case nodes w p of
        Some (Regular old m) \<Rightarrow> w\<lparr>nodes := (nodes w)(p \<mapsto> Regular (old @ bs) m)\<rparr>
      | _ \<Rightarrow> w)"

definition fs_write_all :: "path \<Rightarrow> u8 list \<Rightarrow> (io_error, unit) io" where
  "fs_write_all p bs =
     sys_call (\<lambda>n w. append_node p (take n bs) w) (\<lambda>w. (Inr (), append_node p bs w))"

definition fs_set_permissions :: "path \<Rightarrow> nat \<Rightarrow> (io_error, unit) io" where
  "fs_set_permissions p mode = sys_call no_effect (\<lambda>w.
     (case lookup_followed w p of
        Inl e \<Rightarrow> (Inl e, w)
      | Inr (q, Regular bs _) \<Rightarrow> (Inr (), w\<lparr>nodes := (nodes w)(q \<mapsto> Regular bs mode)\<rparr>)
      | Inr _ \<Rightarrow> (Inr (), w)))"

definition fs_rename :: "path \<Rightarrow> path \<Rightarrow> (io_error, unit) io" where
  "fs_rename a b = sys_call no_effect (\<lambda>w.
     (case nodes w a of
        None \<Rightarrow> (Inl NotFound, w)
      | Some n \<Rightarrow>
          if nodes w b = Some Directory \<or> \<not> dir_exists w (butlast b) then (Inl OtherIo, w)
          else (Inr (), w\<lparr>nodes := (nodes w)(a := None, b \<mapsto> n)\<rparr>)))"

definition fs_remove_file :: "path \<Rightarrow> (io_error, unit) io" where
  "fs_remove_file p = sys_call no_effect (\<lambda>w.
     (case nodes w p of
        None \<Rightarrow> (Inl NotFound, w)
      | Some Directory \<Rightarrow> (Inl OtherIo, w)
      | Some _ \<Rightarrow> (Inr (), w\<lparr>nodes := (nodes w)(p := None)\<rparr>)))"

definition OWNER_ONLY :: nat where
  [const_defs]: "OWNER_ONLY = 384" \<comment> \<open>\<^verbatim>\<open>0o600\<close>\<close>

text \<open>\<^verbatim>\<open>fs::create_dir_all\<close>: every missing prefix of the path becomes a directory.\<close>

definition path_prefixes :: "path \<Rightarrow> path list" where
  "path_prefixes p = map (\<lambda>n. take (Suc n) p) [0..<length p]"

definition make_dirs :: "path list \<Rightarrow> World \<Rightarrow> World" where
  "make_dirs ps w =
     w\<lparr>nodes := \<lambda>q. if nodes w q = None \<and> q \<in> set ps then Some Directory else nodes w q\<rparr>"

definition fs_create_dir_all :: "path \<Rightarrow> (io_error, unit) io" where
  "fs_create_dir_all p =
     sys_call (\<lambda>n w. make_dirs (take n (path_prefixes p)) w) (\<lambda>w.
       if list_all (\<lambda>q. nodes w q \<in> {None, Some Directory}) (path_prefixes p)
       then (Inr (), make_dirs (path_prefixes p) w) else (Inl OtherIo, w))"

text \<open>\<^verbatim>\<open>metadata.file_type().is_file()\<close>.\<close>

definition is_file :: "node \<Rightarrow> bool" where
  "is_file n = (case n of Regular _ _ \<Rightarrow> True | _ \<Rightarrow> False)"

section \<open>Temporary files\<close>

text \<open>
  \<^verbatim>\<open>tempfile::NamedTempFile\<close>: creation in a directory, the two ways to give the file its final name,
  and its destructor. Temporary names start with \<^verbatim>\<open>.tmp\<close>.
\<close>

record tempfile =
  tf_new_in :: "path \<Rightarrow> (io_error, path) io"
  tf_persist :: "path \<Rightarrow> path \<Rightarrow> (io_error, unit) io"
  tf_persist_noclobber :: "path \<Rightarrow> path \<Rightarrow> (io_error, unit) io"
  tf_drop :: "path \<Rightarrow> World \<Rightarrow> World"

definition temp_name :: "path \<Rightarrow> bool" where
  "temp_name p = (p \<noteq> [] \<and> take 4 (last p) = ''.tmp'')"

text \<open>The nodes other programs look at: all but the temporary files.\<close>

definition visible :: "World \<Rightarrow> path \<Rightarrow> node option" where
  "visible w p = (if temp_name p then None else nodes w p)"

locale tempfile_spec =
  fixes tf :: tempfile
  assumes new_in_ok: "tf_new_in tf d w = (Inr t, w') \<Longrightarrow>
      temp_name t \<and> nodes w t = None \<and> nodes w' = (nodes w)(t \<mapsto> Regular [] OWNER_ONLY)"
    and new_in_err: "tf_new_in tf d w = (Inl e, w') \<Longrightarrow> nodes w' = nodes w"
    and persist_ok: "tf_persist tf t p w = (Inr u, w') \<Longrightarrow>
      nodes w' = (nodes w)(t := None, p := nodes w t)"
    and persist_err: "tf_persist tf t p w = (Inl e, w') \<Longrightarrow> nodes w' = nodes w"
    and noclobber_ok: "tf_persist_noclobber tf t p w = (Inr u, w') \<Longrightarrow>
      nodes w p = None \<and> nodes w' = (nodes w)(t := None, p := nodes w t)"
    and noclobber_err: "tf_persist_noclobber tf t p w = (Inl e, w') \<Longrightarrow> nodes w' = nodes w"
    and drop_temp: "nodes (tf_drop tf t w) = (nodes w)(t := None) \<or> nodes (tf_drop tf t w) = nodes w"

text \<open>An implementation by the primitives, with numbered names.\<close>

definition temp_path :: "path \<Rightarrow> nat \<Rightarrow> path" where
  "temp_path d n = d @ [''.tmp'' @ replicate n (CHR ''a'')]"

definition std_new_in :: "path \<Rightarrow> (io_error, path) io" where
  "std_new_in d w =
     (case find (\<lambda>n. nodes w (temp_path d n) = None) [0..<100] of
        None \<Rightarrow> (Inl AlreadyExists, w)
      | Some n \<Rightarrow> io_then (fs_create_new OWNER_ONLY (temp_path d n)) (io_return (temp_path d n)) w)"

definition std_persist_noclobber :: "path \<Rightarrow> path \<Rightarrow> (io_error, unit) io" where
  "std_persist_noclobber t p w =
     (if nodes w p \<noteq> None then (Inl AlreadyExists, w) else fs_rename t p w)"

definition std_tempfile :: tempfile where
  "std_tempfile =
     \<lparr>tf_new_in = std_new_in, tf_persist = fs_rename,
      tf_persist_noclobber = std_persist_noclobber, tf_drop = (\<lambda>t w. snd (fs_remove_file t w))\<rparr>"

text \<open>
  The program's idiom for writing a file: a private temporary file in the same directory, filled
  and flushed, to be renamed into place. If a step fails, the temporary file is dropped.
\<close>

definition stage_temp :: "tempfile \<Rightarrow> path \<Rightarrow> u8 list \<Rightarrow> (io_error, path) io" where
  "stage_temp tf parent bytes =
     io_bind (tf_new_in tf parent) (\<lambda>t.
       io_then
         (on_error (tf_drop tf t)
           (io_then (fs_set_permissions t OWNER_ONLY)
             (io_then (fs_write_all t bytes) fs_sync_all)))
         (io_return t))"

definition persist_temp :: "tempfile \<Rightarrow> path \<Rightarrow> path \<Rightarrow> (io_error, unit) io" where
  "persist_temp tf t p = on_error (tf_drop tf t) (tf_persist tf t p)"

section \<open>Reasoning about sequences of calls\<close>

lemma io_bind_Inr_iff:
  "io_bind m f w = (Inr y, w'') \<longleftrightarrow> (\<exists>x w'. m w = (Inr x, w') \<and> f x w' = (Inr y, w''))"
  by (auto simp: io_bind_def split: prod.splits sum.splits)

lemma io_bind_Inl_iff:
  "io_bind m f w = (Inl e, w'') \<longleftrightarrow>
     m w = (Inl e, w'') \<or> (\<exists>x w'. m w = (Inr x, w') \<and> f x w' = (Inl e, w''))"
  by (auto simp: io_bind_def split: prod.splits sum.splits)

lemma io_then_Inr_iff:
  "io_then m n w = (Inr y, w'') \<longleftrightarrow> (\<exists>x w'. m w = (Inr x, w') \<and> n w' = (Inr y, w''))"
  by (simp add: io_then_def io_bind_Inr_iff)

lemma io_then_Inl_iff:
  "io_then m n w = (Inl e, w'') \<longleftrightarrow>
     m w = (Inl e, w'') \<or> (\<exists>x w'. m w = (Inr x, w') \<and> n w' = (Inl e, w''))"
  by (simp add: io_then_def io_bind_Inl_iff)

lemma io_return_iff: "io_return x w = (r, w') \<longleftrightarrow> r = Inr x \<and> w' = w"
  by (auto simp: io_return_def)

lemma io_fail_iff: "io_fail e w = (r, w') \<longleftrightarrow> r = Inl e \<and> w' = w"
  by (auto simp: io_fail_def)

lemma io_result_iff: "io_result r w = (r', w') \<longleftrightarrow> r' = r \<and> w' = w"
  by (auto simp: io_result_def)

lemma map_err_Inr_iff: "map_err f r = Inr x \<longleftrightarrow> r = Inr x"
  by (cases r) (simp_all add: map_err_def)

lemma io_ensure_iff:
  "io_ensure b e w = (r, w') \<longleftrightarrow> r = (if b then Inr () else Inl e) \<and> w' = w"
  by (auto simp: io_ensure_def io_return_def io_fail_def)

lemma io_map_err_Inr_iff: "io_map_err f m w = (Inr x, w') \<longleftrightarrow> m w = (Inr x, w')"
  by (auto simp: io_map_err_def map_err_def split: prod.splits sum.splits)

lemma io_map_err_Inl_iff:
  "io_map_err f m w = (Inl e, w') \<longleftrightarrow> (\<exists>e0. m w = (Inl e0, w') \<and> e = f e0)"
  by (auto simp: io_map_err_def map_err_def split: prod.splits sum.splits)

lemma on_error_Inr_iff: "on_error d m w = (Inr x, w') \<longleftrightarrow> m w = (Inr x, w')"
  by (auto simp: on_error_def split: prod.splits sum.splits)

lemma on_error_Inl_iff:
  "on_error d m w = (Inl e, w') \<longleftrightarrow> (\<exists>v. m w = (Inl e, v) \<and> w' = d v)"
  by (auto simp: on_error_def split: prod.splits sum.splits)

lemmas io_iffs =
  io_bind_Inr_iff io_bind_Inl_iff io_then_Inr_iff io_then_Inl_iff io_return_iff io_fail_iff
  io_result_iff io_ensure_iff io_map_err_Inr_iff io_map_err_Inl_iff on_error_Inr_iff on_error_Inl_iff

text \<open>Calls that only look.\<close>

definition read_only :: "('e, 'a) io \<Rightarrow> bool" where
  "read_only m \<longleftrightarrow> (\<forall>w. nodes (snd (m w)) = nodes w)"

lemma read_onlyD: "read_only m \<Longrightarrow> m w = (r, w') \<Longrightarrow> nodes w' = nodes w"
  by (metis read_only_def snd_conv)

lemma sys_call_read_only:
  "(\<And>w. nodes (snd (act w)) = nodes w) \<Longrightarrow> read_only (sys_call no_effect act)"
  by (auto simp: read_only_def sys_call_def split: list.splits fault.splits)

lemma read_only_primitives [simp]:
  "read_only (fs_metadata p)" "read_only (fs_symlink_metadata p)" "read_only (fs_read p)"
  "read_only (fs_open p)" "read_only fs_sync_all"
  unfolding fs_metadata_def fs_symlink_metadata_def fs_read_def fs_open_def fs_sync_all_def
  by (rule sys_call_read_only; simp)+

lemma read_only_map_err [simp]: "read_only m \<Longrightarrow> read_only (io_map_err f m)"
  by (simp add: read_only_def io_map_err_def case_prod_unfold)

lemma read_only_bind [simp]:
  assumes "read_only m" and "\<And>x. read_only (f x)"
  shows "read_only (io_bind m f)"
  unfolding read_only_def
proof
  fix w
  obtain r v where m: "m w = (r, v)" by fastforce
  have v: "nodes v = nodes w" by (rule read_onlyD [OF assms(1) m])
  have f: "nodes (snd (f x v)) = nodes v" for x using assms(2) by (simp only: read_only_def)
  show "nodes (snd (io_bind m f w)) = nodes w"
    by (cases r) (simp_all add: io_bind_def m f v)
qed

lemma read_only_then [simp]: "read_only m \<Longrightarrow> read_only n \<Longrightarrow> read_only (io_then m n)"
  by (simp add: io_then_def)

lemma read_only_pure [simp]:
  "read_only (io_return x)" "read_only (io_fail e)" "read_only (io_result r)" "read_only (io_ensure b e)"
  by (simp_all add: read_only_def io_return_def io_fail_def io_result_def io_ensure_def)

lemma sys_call_Inr:
  assumes "sys_call part act w = (Inr x, w')"
  obtains fs where "act (w\<lparr>faults := fs\<rparr>) = (Inr x, w')"
  using assms by (auto simp: sys_call_def split: list.splits fault.splits) (metis World.surjective World.update_convs(2))

lemma sys_call_no_faults [simp]: "faults w = [] \<Longrightarrow> sys_call part act w = act w"
  by (simp add: sys_call_def)

lemma lookup_regular [simp]:
  "nodes w p = Some (Regular bs m) \<Longrightarrow> lookup_followed w p = Inr (p, Regular bs m)"
  by (simp add: lookup_followed_def numeral_eq_Suc)

lemma lookup_faults [simp]: "lookup_followed (w\<lparr>faults := fs\<rparr>) p = lookup_followed w p"
  by (simp add: lookup_followed_def split: option.split)

lemma visible_eq: "nodes w' = nodes w \<Longrightarrow> visible w' = visible w"
  by (auto simp: visible_def)

lemma visible_upd_temp: "temp_name t \<Longrightarrow> nodes w' = (nodes w)(t := n) \<Longrightarrow> visible w' = visible w"
  by (auto simp: visible_def)

lemma fs_set_permissions_regular:
  assumes "fs_set_permissions p mode w = (r, w')" and "nodes w p = Some (Regular bs m)"
  shows "(\<exists>u. r = Inr u) \<and> nodes w' = (nodes w)(p \<mapsto> Regular bs mode)
    \<or> (\<exists>e. r = Inl e) \<and> nodes w' = nodes w"
  using assms
  by (auto simp: fs_set_permissions_def sys_call_def split: list.splits fault.splits)

lemma fs_write_all_regular:
  assumes "fs_write_all p bs w = (r, w')" and "nodes w p = Some (Regular old m)"
  shows "(\<exists>u. r = Inr u) \<and> nodes w' = (nodes w)(p \<mapsto> Regular (old @ bs) m)
    \<or> (\<exists>e n. r = Inl e \<and> nodes w' = (nodes w)(p \<mapsto> Regular (old @ take n bs) m))"
  using assms
  by (auto simp: fs_write_all_def append_node_def sys_call_def split: list.splits fault.splits)

lemma append_node_other: "q \<noteq> p \<Longrightarrow> nodes (append_node p bs w) q = nodes w q"
  by (auto simp: append_node_def split: option.splits node.splits)

lemma visible_write_temp:
  assumes "fs_write_all t bs w = (r, w')" and "temp_name t"
  shows "visible w' = visible w"
proof -
  have "nodes w' q = nodes w q" if "q \<noteq> t" for q
    using assms(1) that
    by (auto simp: fs_write_all_def sys_call_def append_node_other split: list.splits fault.splits)
  then have "visible w' q = visible w q" for q
    using assms(2) by (cases "q = t") (simp_all add: visible_def)
  then show ?thesis by blast
qed

lemma stage_body_visible:
  assumes "temp_name t" and "nodes w t = Some (Regular bs0 m)"
    and "io_then (fs_set_permissions t mode) (io_then (fs_write_all t bs) fs_sync_all) w = (r, w')"
  shows "visible w' = visible w"
proof -
  obtain r1 w1 where p: "fs_set_permissions t mode w = (r1, w1)" by fastforce
  have v1: "visible w1 = visible w"
    using fs_set_permissions_regular [OF p assms(2)] visible_upd_temp [OF assms(1)] visible_eq by blast
  obtain r2 w2 where wr: "fs_write_all t bs w1 = (r2, w2)" by fastforce
  have v2: "visible w2 = visible w1" by (rule visible_write_temp [OF wr assms(1)])
  have v3: "visible (snd (fs_sync_all w2)) = visible w2"
    by (rule visible_eq [OF read_onlyD [OF read_only_primitives(5) prod.collapse [symmetric]]])
  consider "w' = w1" | "w' = w2" | "w' = snd (fs_sync_all w2)"
    using assms(3) p wr by (cases r1; cases r2) (auto simp: io_then_def io_bind_def split: prod.splits sum.splits)
  then show ?thesis by cases (simp_all only: v1 v2 v3)
qed

context tempfile_spec
begin

lemma visible_new_in: "tf_new_in tf d w = (r, w') \<Longrightarrow> visible w' = visible w"
proof (cases r)
  case (Inl e)
  then show "tf_new_in tf d w = (r, w') \<Longrightarrow> visible w' = visible w"
    using new_in_err visible_eq by blast
next
  case (Inr t)
  then show "tf_new_in tf d w = (r, w') \<Longrightarrow> visible w' = visible w"
    using new_in_ok visible_upd_temp by blast
qed

lemma visible_drop: "temp_name t \<Longrightarrow> visible (tf_drop tf t w) = visible w"
  using drop_temp [of t w] visible_upd_temp visible_eq by blast

lemma stage_temp_ok:
  assumes "stage_temp tf d bs w = (Inr t, w')"
  shows "temp_name t \<and> nodes w t = None \<and> nodes w' = (nodes w)(t \<mapsto> Regular bs OWNER_ONLY)"
proof -
  obtain w1 w2 w3 u1 u2 u3 where n: "tf_new_in tf d w = (Inr t, w1)"
    and p: "fs_set_permissions t OWNER_ONLY w1 = (Inr u1, w2)"
    and wr: "fs_write_all t bs w2 = (Inr u2, w3)" and s: "fs_sync_all w3 = (Inr u3, w')"
    using assms by (auto simp: stage_temp_def io_iffs)
  note n' = new_in_ok [OF n]
  have "nodes w2 = (nodes w)(t \<mapsto> Regular [] OWNER_ONLY)"
    using fs_set_permissions_regular [OF p] n' by auto
  then have "nodes w3 = (nodes w)(t \<mapsto> Regular bs OWNER_ONLY)"
    using fs_write_all_regular [OF wr] by auto
  then show ?thesis using n' read_onlyD [OF read_only_primitives(5) s] by simp
qed

lemma stage_temp_visible:
  assumes "stage_temp tf d bs w = (r, w')"
  shows "visible w' = visible w"
proof (cases r)
  case (Inr t)
  then show ?thesis using stage_temp_ok [of d bs w t w'] assms visible_upd_temp by blast
next
  case (Inl e)
  show ?thesis
  proof (cases "tf_new_in tf d w")
    case (Pair r1 w1)
    show ?thesis
    proof (cases r1)
      case (Inl e1)
      then show ?thesis
        using assms Pair visible_new_in [OF Pair] by (auto simp: stage_temp_def io_bind_def)
    next
      case (Inr t)
      have t: "temp_name t" "nodes w1 = (nodes w)(t \<mapsto> Regular [] OWNER_ONLY)"
        using new_in_ok Pair Inr by blast+
      obtain e2 w2 where body: "io_then (fs_set_permissions t OWNER_ONLY)
          (io_then (fs_write_all t bs) fs_sync_all) w1 = (Inl e2, w2)" and w': "w' = tf_drop tf t w2"
        using assms Pair Inr \<open>r = Inl e\<close> by (auto simp: stage_temp_def io_iffs)
      have "visible w2 = visible w"
        using stage_body_visible [OF t(1) _ body] t(2) visible_upd_temp [OF t] by simp
      then show ?thesis using w' visible_drop [OF t(1)] by simp
    qed
  qed
qed

lemma persist_temp_ok:
  assumes "persist_temp tf t p w = (Inr u, w')" and "temp_name t" and "\<not> temp_name p"
    and "nodes w t = Some n"
  shows "visible w' = (visible w)(p \<mapsto> n) \<and> nodes w' p = Some n"
proof -
  have "tf_persist tf t p w = (Inr u, w')"
    using assms(1) by (auto simp: persist_temp_def io_iffs)
  then have "nodes w' = (nodes w)(t := None, p := nodes w t)" by (rule persist_ok)
  then show ?thesis using assms(2-4) by (auto simp: visible_def)
qed

lemma persist_temp_err:
  assumes "persist_temp tf t p w = (Inl e, w')" and "temp_name t"
  shows "visible w' = visible w"
proof -
  obtain v where v: "tf_persist tf t p w = (Inl e, v)" "w' = tf_drop tf t v"
    using assms(1) by (auto simp: persist_temp_def io_iffs)
  show ?thesis
    unfolding v(2) visible_drop [OF assms(2)] by (rule visible_eq [OF persist_err [OF v(1)]])
qed

text \<open>The idiom of writing a temporary file, renaming it and flushing the directory.\<close>

lemma replace_file_cases:
  assumes p: "\<not> temp_name p"
    and run: "io_bind (io_map_err f (stage_temp tf d bytes)) (\<lambda>temp.
      io_then (io_map_err f (persist_temp tf temp p)) sync) w = (r, w')"
    and sync: "read_only sync"
  obtains (unchanged) e where "r = Inl e" "visible w' = visible w"
  | (replaced) "visible w' = (visible w)(p \<mapsto> Regular bytes OWNER_ONLY)"
proof (cases "stage_temp tf d bytes w")
  case (Pair r1 w1)
  show ?thesis
  proof (cases r1)
    case (Inl e)
    then show ?thesis
      using run Pair stage_temp_visible [OF Pair] unchanged
      by (auto simp: io_bind_def io_map_err_def map_err_def)
  next
    case (Inr t)
    note st = stage_temp_ok [OF Pair [unfolded Inr]]
    have v1: "visible w1 = visible w" by (rule stage_temp_visible [OF Pair])
    obtain r2 w2 where P: "persist_temp tf t p w1 = (r2, w2)" by fastforce
    show ?thesis
    proof (cases r2)
      case (Inl e)
      have v2: "visible w2 = visible w"
        using persist_temp_err [OF P [unfolded Inl]] st v1 by simp
      have "r = Inl (f e)" "w' = w2"
        using run Pair Inr P Inl by (auto simp: io_bind_def io_then_def io_map_err_def map_err_def)
      then show ?thesis using unchanged v2 by simp
    next
      case (Inr u)
      have v2: "visible w2 = (visible w)(p \<mapsto> Regular bytes OWNER_ONLY)"
        using persist_temp_ok [OF P [unfolded Inr] _ p] st v1 by simp
      have "sync w2 = (r, w')"
        using run Pair \<open>r1 = Inr t\<close> P Inr
        by (auto simp: io_bind_def io_then_def io_map_err_def map_err_def)
      then have "visible w' = visible w2" by (rule visible_eq [OF read_onlyD [OF sync]])
      then show ?thesis using replaced v2 by simp
    qed
  qed
qed

end

lemma std_new_in_find:
  assumes "std_new_in d w = (r, w')"
  shows "(\<exists>e. r = Inl e) \<and> nodes w' = nodes w
    \<or> (\<exists>n. r = Inr (temp_path d n) \<and> nodes w (temp_path d n) = None
        \<and> nodes w' = (nodes w)(temp_path d n \<mapsto> Regular [] OWNER_ONLY))"
  using assms
  by (auto simp: std_new_in_def fs_create_new_def io_then_def io_bind_def sys_call_def io_return_def
      split: option.splits prod.splits sum.splits list.splits fault.splits if_splits)

lemma fs_rename_result:
  assumes "fs_rename a b w = (r, w')"
  shows "(\<exists>e. r = Inl e) \<and> nodes w' = nodes w
    \<or> (\<exists>u. r = Inr u) \<and> nodes w' = (nodes w)(a := None, b := nodes w a)"
  using assms
  by (auto simp: fs_rename_def sys_call_def split: option.splits list.splits fault.splits if_splits)

lemma fs_remove_result:
  "nodes (snd (fs_remove_file p w)) = (nodes w)(p := None) \<or> nodes (snd (fs_remove_file p w)) = nodes w"
  by (auto simp: fs_remove_file_def sys_call_def
      split: option.splits node.splits list.splits fault.splits)

lemma std_noclobber_result:
  assumes "std_persist_noclobber a b w = (r, w')"
  shows "(\<exists>e. r = Inl e) \<and> nodes w' = nodes w
    \<or> (\<exists>u. r = Inr u) \<and> nodes w b = None \<and> nodes w' = (nodes w)(a := None, b := nodes w a)"
  using assms fs_rename_result [of a b w r w']
  by (auto simp: std_persist_noclobber_def split: if_splits)

lemma std_tempfile_simps [simp]:
  "tf_new_in std_tempfile = std_new_in" "tf_persist std_tempfile = fs_rename"
  "tf_persist_noclobber std_tempfile = std_persist_noclobber"
  "tf_drop std_tempfile t w = snd (fs_remove_file t w)"
  by (simp_all add: std_tempfile_def)

interpretation std_tf: tempfile_spec std_tempfile
proof (unfold_locales, unfold std_tempfile_simps, goal_cases)
  case (1 d w t w')
  then show ?case
    using std_new_in_find [OF 1] by (auto simp: temp_name_def temp_path_def)
next
  case (2 d w e w')
  then show ?case using std_new_in_find [OF 2] by auto
next
  case (3 t p w u w')
  then show ?case using fs_rename_result [OF 3] by auto
next
  case (4 t p w e w')
  then show ?case using fs_rename_result [OF 4] by auto
next
  case (5 t p w u w')
  then show ?case using std_noclobber_result [OF 5] by auto
next
  case (6 t p w e w')
  then show ?case using std_noclobber_result [OF 6] by auto
next
  case (7 t w)
  then show ?case by (rule fs_remove_result)
qed

end
