(* ===== verification/Lease_Store.thy ===== *)
theory Lease_Store
  imports Lease_System File_System
begin

text \<open>
  The component \<^verbatim>\<open>crates/server/src/lease_store.rs\<close>: the state file of the relay. The stored form
  of a lease with its hex codes, saving by a temporary file that is renamed into place, loading
  with validation, and the migration of the older file format with its backup. The crate
  \<^verbatim>\<open>serde_json\<close> with the derived (de)serializers is the parameter \<open>sj\<close>, the crate \<^verbatim>\<open>tempfile\<close> the
  parameter \<open>tf\<close>.
\<close>

section \<open>Data\<close>

definition MAX_STATE_BYTES :: nat where
  [const_defs]: "MAX_STATE_BYTES = 1024 * 1024"

definition fits_state :: "nat \<Rightarrow> bool" where
  "fits_state n \<longleftrightarrow> n \<le> MAX_STATE_BYTES"

text \<open>The code equation used to evaluate concrete runs, with small unary numbers.\<close>

lemma fits_state_code [code]: "fits_state n = (if n < 1000 then True else n \<le> MAX_STATE_BYTES)"
  by (simp add: fits_state_def const_defs)

record LeaseStore =
  store_path :: path

record PersistedLease =
  pl_token_id :: string
  pl_retired_token_id :: "string option"
  pl_retired_token_ids :: "string list"
  pl_recovery_id :: "string option"
  pl_port :: u16
  pl_last_ip :: "IpAddr option"
  pl_expires_at_ms :: u64

record PersistedV2 =
  pv_version :: u8
  pv_leases :: "PersistedLease list"

record LegacyState =
  token_ports :: "(string \<times> u16) list"

datatype serde_error = SerdeError

datatype store_error =
    StoreIo io_error
  | StoreSerde
  | StateFileTooLarge \<comment> \<open>Lease state file exceeds 1 MiB\<close>
  | StateTooLarge \<comment> \<open>Lease state exceeds 1 MiB\<close>
  | UnsupportedVersion \<comment> \<open>Unsupported lease state version\<close>
  | InvalidFingerprint \<comment> \<open>Invalid token fingerprint\<close>
  | ExpectedHex \<comment> \<open>Expected 64 hex characters\<close>
  | BadHexByte \<comment> \<open>the error of \<^verbatim>\<open>u8::from_str_radix\<close>\<close>
  | StoreLease lease_error
  | TooManyLegacy \<comment> \<open>Too many legacy reservations\<close>
  | InvalidLegacyPort \<comment> \<open>Invalid legacy port\<close>
  | DuplicateLegacyPort \<comment> \<open>Duplicate legacy port\<close>
  | DuplicateLegacyToken \<comment> \<open>Duplicate legacy token\<close>
  | NoFileName \<comment> \<open>State path has no file name\<close>
  | BackupNotRegular \<comment> \<open>Legacy backup is not a regular file\<close>
  | BackupDiffers \<comment> \<open>Existing legacy backup differs from source state\<close>

text \<open>The entry points of \<^verbatim>\<open>serde_json\<close> the store uses, at the types it uses them.\<close>

record 'json serde_json =
  to_vec_pretty :: "PersistedV2 \<Rightarrow> (serde_error, u8 list) result"
  from_slice :: "u8 list \<Rightarrow> (serde_error, 'json) result"
  get_version :: "'json \<Rightarrow> bool"
  from_value_v2 :: "'json \<Rightarrow> (serde_error, PersistedV2) result"
  from_value_legacy :: "'json \<Rightarrow> (serde_error, LegacyState) result"

text \<open>
  What the store relies on: a state file that was written is read back as the same value, and it
  has a version field.
\<close>

locale serde_json_spec =
  fixes sj :: "'json serde_json"
  assumes state_roundtrip: "to_vec_pretty sj v = Inr bytes \<Longrightarrow>
    \<exists>json. from_slice sj bytes = Inr json \<and> get_version sj json \<and> from_value_v2 sj json = Inr v"

section \<open>Stored leases\<close>

definition hex_32 :: "u8 list \<Rightarrow> string" where
  "hex_32 bytes = hex_encode bytes"

definition parse_hex_32 :: "string \<Rightarrow> (store_error, u8 list) result" where
  "parse_hex_32 hex =
     (if length hex = 64 \<and> is_ascii hex
      then collect_results
        (\<lambda>index. case u8_from_str_radix16 (hex_slice hex index) of
           None \<Rightarrow> Err BadHexByte | Some b \<Rightarrow> Ok b) [0..<32]
      else Err ExpectedHex)"

fun token_bytes :: "TokenId \<Rightarrow> u8 list" where
  "token_bytes (TokenId bs) = bs"

definition parse_token :: "string \<Rightarrow> (store_error, TokenId) result" where
  "parse_token hex = (case parse_hex_32 hex of Inl e \<Rightarrow> Err e | Inr bs \<Rightarrow> Ok (TokenId bs))"

definition from_record :: "LeaseRecord \<Rightarrow> PersistedLease" where
  "from_record r =
     \<lparr>pl_token_id = hex_32 (token_bytes (rec_token_id r)),
      pl_retired_token_id = None,
      pl_retired_token_ids = map (\<lambda>id. hex_32 (token_bytes id)) (rec_retired_token_ids r),
      pl_recovery_id = map_option (\<lambda>id. hex_32 (token_bytes id)) (rec_recovery_id r),
      pl_port = rec_port r,
      pl_last_ip = rec_last_ip r,
      pl_expires_at_ms = rec_expires_at_ms r\<rparr>"

definition into_record :: "PersistedLease \<Rightarrow> (store_error, LeaseRecord) result" where
  "into_record p =
     (if \<not> list_all (\<lambda>c. is_ascii_hexdigit c \<and> \<not> is_ascii_uppercase c) (pl_token_id p)
      then Err InvalidFingerprint
      else case parse_token (pl_token_id p) of
          Inl e \<Rightarrow> Err e
        | Inr token_id \<Rightarrow>
            (case collect_results parse_token
                    (pl_retired_token_ids p
                     @ (case pl_retired_token_id p of None \<Rightarrow> [] | Some hex \<Rightarrow> [hex])) of
               Inl e \<Rightarrow> Err e
             | Inr retired \<Rightarrow>
                 (case (case pl_recovery_id p of
                          None \<Rightarrow> Ok None
                        | Some hex \<Rightarrow> (case parse_token hex of Inl e \<Rightarrow> Err e | Inr k \<Rightarrow> Ok (Some k))) of
                    Inl e \<Rightarrow> Err e
                  | Inr recovery \<Rightarrow>
                      Ok \<lparr>rec_token_id = token_id,
                          rec_retired_token_ids = retired,
                          rec_recovery_id = recovery,
                          rec_port = pl_port p,
                          rec_last_ip = pl_last_ip p,
                          rec_expires_at_ms = pl_expires_at_ms p\<rparr>)))"

section \<open>Operations\<close>

definition set_owner_only :: "path \<Rightarrow> (store_error, unit) io" where
  "set_owner_only p = io_map_err StoreIo (fs_set_permissions p OWNER_ONLY)"

definition sync_directory :: "path \<Rightarrow> (store_error, unit) io" where
  "sync_directory p = io_map_err StoreIo (io_then (fs_open p) fs_sync_all)"

definition persisted_form :: "LeaseRecord list \<Rightarrow> PersistedV2" where
  "persisted_form records =
     \<lparr>pv_version = 2, pv_leases = sort_key pl_port (map from_record records)\<rparr>"

definition save ::
  "'json serde_json \<Rightarrow> tempfile \<Rightarrow> LeaseStore \<Rightarrow> LeaseRecord list \<Rightarrow> (store_error, unit) io" where
  "save sj tf store records =
     io_bind (io_result (map_err (\<lambda>_. StoreSerde) (to_vec_pretty sj (persisted_form records))))
       (\<lambda>bytes.
         io_then (io_ensure (fits_state (length bytes)) StateTooLarge)
           (let parent = parent_or_dot (store_path store) in
            io_bind (io_map_err StoreIo (stage_temp tf parent bytes)) (\<lambda>temp.
              io_then (io_map_err StoreIo (persist_temp tf temp (store_path store)))
                (sync_directory parent))))"

text \<open>\<^verbatim>\<open>migrate_legacy\<close>: the loop carries the two \<^verbatim>\<open>HashSet\<close>s and the records built so far.\<close>

fun migrate_loop ::
  "(u8 list \<Rightarrow> u8 list) \<Rightarrow> u64 \<Rightarrow> (string \<times> u16) list \<Rightarrow> u8 list set \<Rightarrow> u16 set \<Rightarrow> LeaseRecord list
    \<Rightarrow> (store_error, LeaseRecord list) result" where
  "migrate_loop sha256 now_ms [] tokens ports records = Ok records"
| "migrate_loop sha256 now_ms ((hex, port) # rest) tokens ports records =
     (if \<not> (PORT_START \<le> port \<and> port \<le> PORT_END) then Err InvalidLegacyPort
      else if port \<in> ports then Err DuplicateLegacyPort
      else case parse_hex_32 hex of
          Inl e \<Rightarrow> Err e
        | Inr token \<Rightarrow>
            if token \<in> tokens then Err DuplicateLegacyToken
            else migrate_loop sha256 now_ms rest (insert token tokens) (insert port ports)
              (records @
                [\<lparr>rec_token_id = TokenId_from_token sha256 token,
                  rec_retired_token_ids = [],
                  rec_recovery_id = None,
                  rec_port = port,
                  rec_last_ip = None,
                  rec_expires_at_ms = saturating_add_u64 now_ms GRACE_MS\<rparr>]))"

definition migrate_legacy ::
  "(u8 list \<Rightarrow> u8 list) \<Rightarrow> LegacyState \<Rightarrow> u64 \<Rightarrow> (store_error, LeaseTable) result" where
  "migrate_legacy sha256 legacy now_ms =
     (if 1000 < length (token_ports legacy) then Err TooManyLegacy
      else case migrate_loop sha256 now_ms (token_ports legacy) {} {} [] of
          Inl e \<Rightarrow> Err e
        | Inr records \<Rightarrow> map_err StoreLease (restore records now_ms))"

definition backup_path :: "string \<Rightarrow> path \<Rightarrow> path" where
  "backup_path name p = with_file_name (name @ ''.legacy-backup'') p"

definition starts_with :: "'a list \<Rightarrow> 'a list \<Rightarrow> bool" where
  "starts_with xs ys = (take (length ys) xs = ys)"

text \<open>The branch of \<^verbatim>\<open>backup_legacy\<close> for a backup that exists (lines 145 to 168).\<close>

definition reuse_backup ::
  "tempfile \<Rightarrow> path \<Rightarrow> path \<Rightarrow> u8 list \<Rightarrow> node \<Rightarrow> (store_error, unit) io" where
  "reuse_backup tf backup parent bytes metadata =
     io_then (io_ensure (is_file metadata) BackupNotRegular)
      (io_bind (io_map_err StoreIo (fs_read backup)) (\<lambda>existing.
        io_then (io_ensure (starts_with bytes existing) BackupDiffers)
         (if length existing = length bytes then
            io_then (set_owner_only backup)
             (io_then (io_map_err StoreIo (io_then (fs_open backup) fs_sync_all))
               (sync_directory parent))
          else
            io_bind (io_map_err StoreIo (stage_temp tf parent bytes)) (\<lambda>replacement.
              io_then (io_map_err StoreIo (persist_temp tf replacement backup))
                (sync_directory parent)))))"

definition create_backup :: "path \<Rightarrow> path \<Rightarrow> u8 list \<Rightarrow> (store_error, unit) io" where
  "create_backup backup parent bytes =
     io_then (io_map_err StoreIo (fs_create_new OWNER_ONLY backup))
      (io_then (io_map_err StoreIo (fs_write_all backup bytes))
        (io_then (io_map_err StoreIo fs_sync_all) (sync_directory parent)))"

definition backup_legacy ::
  "tempfile \<Rightarrow> LeaseStore \<Rightarrow> u8 list \<Rightarrow> (store_error, unit) io" where
  "backup_legacy tf store bytes w =
     (case path_file_name (store_path store) of
        None \<Rightarrow> (Err NoFileName, w)
      | Some name \<Rightarrow>
          (let backup = backup_path name (store_path store);
               parent = parent_or_dot backup
           in case fs_symlink_metadata backup w of
               (Inr metadata, w') \<Rightarrow> reuse_backup tf backup parent bytes metadata w'
             | (Inl NotFound, w') \<Rightarrow> create_backup backup parent bytes w'
             | (Inl e, w') \<Rightarrow> (Err (StoreIo e), w')))"

text \<open>The two formats of a state file that was read (lines 67 to 82).\<close>

definition load_v2 ::
  "'json serde_json \<Rightarrow> LeaseStore \<Rightarrow> 'json \<Rightarrow> u64 \<Rightarrow> (store_error, LeaseStore \<times> LeaseTable) result"
where
  "load_v2 sj store json now_ms =
     (case from_value_v2 sj json of
        Inl _ \<Rightarrow> Err StoreSerde
      | Inr persisted \<Rightarrow>
          if pv_version persisted \<noteq> 2 then Err UnsupportedVersion
          else case collect_results into_record (pv_leases persisted) of
              Inl e \<Rightarrow> Err e
            | Inr records \<Rightarrow>
                (case restore records now_ms of
                   Inl e \<Rightarrow> Err (StoreLease e) | Inr t \<Rightarrow> Ok (store, t)))"

definition load_legacy ::
  "'json serde_json \<Rightarrow> tempfile \<Rightarrow> (u8 list \<Rightarrow> u8 list) \<Rightarrow> LeaseStore \<Rightarrow> 'json \<Rightarrow> u8 list \<Rightarrow> u64
    \<Rightarrow> (store_error, LeaseStore \<times> LeaseTable) io" where
  "load_legacy sj tf sha256 store json bytes now_ms =
     io_bind (io_result (map_err (\<lambda>_. StoreSerde) (from_value_legacy sj json))) (\<lambda>legacy.
      io_bind (io_result (migrate_legacy sha256 legacy now_ms)) (\<lambda>table.
       io_then (backup_legacy tf store bytes)
        (io_then (save sj tf store (snapshot now_ms table)) (io_return (store, table)))))"

definition load_or_create ::
  "'json serde_json \<Rightarrow> tempfile \<Rightarrow> (u8 list \<Rightarrow> u8 list) \<Rightarrow> path \<Rightarrow> u64
    \<Rightarrow> (store_error, LeaseStore \<times> LeaseTable) io" where
  "load_or_create sj tf sha256 path now_ms w =
     (let store = \<lparr>store_path = path\<rparr> in
      case fs_metadata path w of
        (Inl NotFound, w') \<Rightarrow> (Ok (store, LeaseTable_new), w')
      | (Inl e, w') \<Rightarrow> (Err (StoreIo e), w')
      | (Inr metadata, w') \<Rightarrow>
          io_then (io_ensure (fits_state (node_len metadata)) StateFileTooLarge)
           (io_bind (io_map_err StoreIo (fs_read path)) (\<lambda>bytes.
             io_then (io_ensure (fits_state (length bytes)) StateFileTooLarge)
              (io_bind (io_result (map_err (\<lambda>_. StoreSerde) (from_slice sj bytes))) (\<lambda>json.
                if get_version sj json then io_result (load_v2 sj store json now_ms)
                else load_legacy sj tf sha256 store json bytes now_ms)))) w')"

section \<open>Hex codes and stored leases are inverted by their parsers\<close>

lemma parse_hex_32_hex: "length bs = 32 \<Longrightarrow> parse_hex_32 (hex_32 bs) = Inr bs"
proof -
  assume len: "length bs = 32"
  have "collect_results (\<lambda>index. case u8_from_str_radix16 (hex_slice (hex_encode bs) index) of
      None \<Rightarrow> Err BadHexByte | Some b \<Rightarrow> Ok b) [0..<32] = Inr (map ((!) bs) [0..<32])"
    by (rule collect_results_all) (simp add: hex_slice_encode len u8_from_str_radix16_fmt)
  then show "parse_hex_32 (hex_32 bs) = Inr bs"
    using len map_nth [of bs]
    by (simp add: parse_hex_32_def hex_32_def hex_encode_ascii del: upt_rec_numeral)
qed

interpretation hex: codec hex_32 parse_hex_32 "\<lambda>bs. length bs = 32"
  by unfold_locales (rule parse_hex_32_hex)

definition token_ok :: "TokenId \<Rightarrow> bool" where
  "token_ok t \<longleftrightarrow> length (token_bytes t) = 32"

interpretation token_hex: codec "\<lambda>id. hex_32 (token_bytes id)" parse_token token_ok
proof
  fix t assume "token_ok t"
  then show "parse_token (hex_32 (token_bytes t)) = Inr t"
    by (cases t) (simp add: parse_token_def token_ok_def hex.dec_enc)
qed

definition record_tokens_ok :: "LeaseRecord \<Rightarrow> bool" where
  "record_tokens_ok r \<longleftrightarrow> token_ok (rec_token_id r) \<and> list_all token_ok (rec_retired_token_ids r)
     \<and> (case rec_recovery_id r of None \<Rightarrow> True | Some k \<Rightarrow> token_ok k)"

interpretation stored_lease: codec from_record into_record record_tokens_ok
proof
  fix r assume ok: "record_tokens_ok r"
  have "collect_results parse_token (map (\<lambda>id. hex_32 (token_bytes id)) (rec_retired_token_ids r))
      = Inr (rec_retired_token_ids r)"
    by (rule token_hex.collect_dec_enc) (use ok in \<open>auto simp: record_tokens_ok_def list_all_iff\<close>)
  then show "into_record (from_record r) = Inr r"
    using ok token_hex.dec_enc hex_encode_lower
    by (cases "rec_recovery_id r")
      (simp_all add: into_record_def from_record_def record_tokens_ok_def hex_32_def)
qed

end
