(* ===== verification/Wire_Format.thy ===== *)
theory Wire_Format
  imports Lease_Store
begin

text \<open>
  A byte format for the program's records: little-endian words, tagged options and lists. It stands
  in for the serialization crates where a theorem with an arbitrary serializer is applied to a
  concrete one: \<open>wire put get\<close> says that \<open>get\<close> reads back what \<open>put\<close> wrote and leaves the rest of
  the input, and the combinators keep it.
\<close>

type_synonym 'a parser = "u8 list \<Rightarrow> ('a \<times> u8 list) option"

definition wire :: "('a \<Rightarrow> u8 list) \<Rightarrow> 'a parser \<Rightarrow> bool" where
  "wire put get \<longleftrightarrow> (\<forall>x rest. get (put x @ rest) = Some (x, rest))"

lemma wireD: "wire put get \<Longrightarrow> get (put x @ rest) = Some (x, rest)"
  by (simp add: wire_def)

section \<open>Words\<close>

primrec put_le :: "nat \<Rightarrow> 'a::len word \<Rightarrow> u8 list" where
  "put_le 0 w = []"
| "put_le (Suc k) w = ucast w # put_le k (drop_bit 8 w)"

primrec from_le :: "u8 list \<Rightarrow> 'a::len word" where
  "from_le [] = 0"
| "from_le (b # bs) = ucast b OR push_bit 8 (from_le bs)"

definition get_le :: "nat \<Rightarrow> 'a::len word parser" where
  "get_le k bs = (if length bs < k then None else Some (from_le (take k bs), drop k bs))"

lemma length_put_le [simp]: "length (put_le k w) = k"
  by (induction k arbitrary: w) simp_all

lemma from_put_le: "from_le (put_le k w) = take_bit (8 * k) w"
proof (induction k arbitrary: w)
  case (Suc k)
  show ?case
    by (rule bit_word_eqI)
      (auto simp: Suc bit_simps not_less dest: bit_imp_le_length)
qed simp

lemma wire_le: "LENGTH('a::len) = 8 * k \<Longrightarrow> wire (put_le k :: 'a word \<Rightarrow> _) (get_le k)"
  by (auto simp: wire_def get_le_def from_put_le bit_simps intro!: bit_word_eqI dest: bit_imp_le_length)

section \<open>Combinators\<close>

definition put_pair :: "('a \<Rightarrow> u8 list) \<Rightarrow> ('b \<Rightarrow> u8 list) \<Rightarrow> 'a \<times> 'b \<Rightarrow> u8 list" where
  "put_pair f g p = f (fst p) @ g (snd p)"

definition get_pair :: "'a parser \<Rightarrow> 'b parser \<Rightarrow> ('a \<times> 'b) parser" where
  "get_pair f g bs =
     (case f bs of
        None \<Rightarrow> None
      | Some (x, rest) \<Rightarrow> (case g rest of None \<Rightarrow> None | Some (y, rest') \<Rightarrow> Some ((x, y), rest')))"

definition get_map :: "('a \<Rightarrow> 'b) \<Rightarrow> 'a parser \<Rightarrow> 'b parser" where
  "get_map h g bs = map_option (map_prod h id) (g bs)"

definition put_option :: "('a \<Rightarrow> u8 list) \<Rightarrow> 'a option \<Rightarrow> u8 list" where
  "put_option f x = (case x of None \<Rightarrow> [0] | Some y \<Rightarrow> 1 # f y)"

definition get_option :: "'a parser \<Rightarrow> 'a option parser" where
  "get_option g bs =
     (case bs of
        [] \<Rightarrow> None
      | b # rest \<Rightarrow> if b = 0 then Some (None, rest) else get_map Some g rest)"

definition put_list :: "('a \<Rightarrow> u8 list) \<Rightarrow> 'a list \<Rightarrow> u8 list" where
  "put_list f xs = concat (map (\<lambda>x. 1 # f x) xs) @ [0]"

fun get_list_upto :: "nat \<Rightarrow> 'a parser \<Rightarrow> 'a list parser" where
  "get_list_upto 0 g bs = None"
| "get_list_upto (Suc n) g [] = None"
| "get_list_upto (Suc n) g (b # bs) =
     (if b = 0 then Some ([], bs)
      else case g bs of
          None \<Rightarrow> None
        | Some (x, rest) \<Rightarrow>
            (case get_list_upto n g rest of None \<Rightarrow> None | Some (xs, r) \<Rightarrow> Some (x # xs, r)))"

definition get_list :: "'a parser \<Rightarrow> 'a list parser" where
  "get_list g bs = get_list_upto (Suc (length bs)) g bs"

lemma wire_pair: "wire f f' \<Longrightarrow> wire g g' \<Longrightarrow> wire (put_pair f g) (get_pair f' g')"
  by (simp add: wire_def put_pair_def get_pair_def)

lemma wire_map: "wire f g \<Longrightarrow> (\<And>x. h (k x) = x) \<Longrightarrow> wire (\<lambda>x. f (k x)) (get_map h g)"
  by (simp add: wire_def get_map_def)

lemma wire_option: "wire f g \<Longrightarrow> wire (put_option f) (get_option g)"
  by (simp add: wire_def put_option_def get_option_def get_map_def split: option.split)

lemma get_list_upto_put:
  "wire f g \<Longrightarrow> length xs < n \<Longrightarrow> get_list_upto n g (put_list f xs @ rest) = Some (xs, rest)"
proof (induction xs arbitrary: n)
  case Nil
  then show ?case by (cases n) (simp_all add: put_list_def)
next
  case (Cons x xs)
  obtain m where m: "n = Suc m" using Cons.prems(2) by (cases n) auto
  have "put_list f (x # xs) @ rest = 1 # f x @ (put_list f xs @ rest)" by (simp add: put_list_def)
  then show ?case
    using Cons.IH [OF Cons.prems(1), of m] Cons.prems(2) by (simp add: m wireD [OF Cons.prems(1)])
qed

lemma length_put_list: "length xs < length (put_list f xs)"
  by (induction xs) (simp_all add: put_list_def)

lemma wire_list: "wire f g \<Longrightarrow> wire (put_list f) (get_list g)"
  unfolding wire_def [of "put_list f"] get_list_def
proof (intro allI get_list_upto_put)
  fix xs :: "'a list" and rest :: "u8 list"
  show "length xs < Suc (length (put_list f xs @ rest))" using length_put_list [of xs f] by simp
qed

section \<open>Records\<close>

definition put_char :: "char \<Rightarrow> u8 list" where
  "put_char c = [word_of_int (of_char c)]"

definition get_char :: "char parser" where
  "get_char bs = (case bs of [] \<Rightarrow> None | b # rest \<Rightarrow> Some (char_of (uint b), rest))"

lemma wire_char: "wire put_char get_char"
proof -
  have "uint (word_of_int (of_char c) :: u8) = of_char c" for c
    using nat_of_char_less_256 [of c]
    by (simp add: unsigned_of_nat take_bit_nat_eq_self flip: of_nat_of_char [where 'a = int])
  then show ?thesis by (simp add: wire_def put_char_def get_char_def)
qed

abbreviation put_string :: "string \<Rightarrow> u8 list" where
  "put_string \<equiv> put_list put_char"

abbreviation get_string :: "string parser" where
  "get_string \<equiv> get_list get_char"

definition put_ip :: "IpAddr \<Rightarrow> u8 list" where
  "put_ip ip = (case ip of V4 a \<Rightarrow> 0 # put_le 4 a | V6 a \<Rightarrow> 1 # put_le 16 a)"

definition get_ip :: "IpAddr parser" where
  "get_ip bs =
     (case bs of
        [] \<Rightarrow> None
      | b # rest \<Rightarrow> if b = 0 then get_map V4 (get_le 4) rest else get_map V6 (get_le 16) rest)"

lemma wire_ip: "wire put_ip get_ip"
  using wire_le [where 'a = 32 and k = 4] wire_le [where 'a = 128 and k = 16]
  by (simp add: wire_def put_ip_def get_ip_def get_map_def split: IpAddr.split)

definition lease_fields where
  "lease_fields p =
     (pl_token_id p, pl_retired_token_id p, pl_retired_token_ids p, pl_recovery_id p, pl_port p,
      pl_last_ip p, pl_expires_at_ms p)"

definition lease_of_fields :: "_ \<Rightarrow> PersistedLease" where
  "lease_of_fields = (\<lambda>(a, b, c, d, e, f, g).
     \<lparr>pl_token_id = a, pl_retired_token_id = b, pl_retired_token_ids = c, pl_recovery_id = d,
      pl_port = e, pl_last_ip = f, pl_expires_at_ms = g\<rparr>)"

definition put_lease :: "PersistedLease \<Rightarrow> u8 list" where
  "put_lease p =
     put_pair put_string (put_pair (put_option put_string) (put_pair (put_list put_string)
       (put_pair (put_option put_string) (put_pair (put_le 2) (put_pair (put_option put_ip)
         (put_le 8)))))) (lease_fields p)"

definition get_lease :: "PersistedLease parser" where
  "get_lease =
     get_map lease_of_fields
       (get_pair get_string (get_pair (get_option get_string) (get_pair (get_list get_string)
         (get_pair (get_option get_string) (get_pair (get_le 2) (get_pair (get_option get_ip)
           (get_le 8)))))))"

lemma wire_lease: "wire put_lease get_lease"
proof -
  have "wire (\<lambda>p. put_lease p) get_lease"
    unfolding put_lease_def get_lease_def
    by (intro wire_map wire_pair wire_option wire_list wire_char wire_ip wire_le)
      (simp_all add: lease_of_fields_def lease_fields_def)
  then show ?thesis by simp
qed

text \<open>A file is tagged with its format, so the version field is there exactly for the current one.\<close>

type_synonym wire_json = "PersistedV2 + LegacyState"

definition put_state :: "wire_json \<Rightarrow> u8 list" where
  "put_state v =
     (case v of
        Inl s \<Rightarrow> 1 # pv_version s # put_list put_lease (pv_leases s)
      | Inr l \<Rightarrow> 0 # put_list (put_pair put_string (put_le 2)) (token_ports l))"

definition get_state :: "wire_json parser" where
  "get_state bs =
     (case bs of
        [] \<Rightarrow> None
      | b # rest \<Rightarrow>
          if b = 0 then
            get_map (\<lambda>l. Inr \<lparr>token_ports = l\<rparr>) (get_list (get_pair get_string (get_le 2))) rest
          else (case rest of
              [] \<Rightarrow> None
            | v # rest' \<Rightarrow>
                get_map (\<lambda>l. Inl \<lparr>pv_version = v, pv_leases = l\<rparr>) (get_list get_lease) rest'))"

lemma wire_state: "wire put_state get_state"
  using wire_list [OF wire_lease]
    wire_list [OF wire_pair [OF wire_list [OF wire_char] wire_le [where 'a = 16 and k = 2]]]
  by (simp add: wire_def put_state_def get_state_def get_map_def split: sum.split)

definition wire_serde :: "wire_json serde_json" where
  "wire_serde =
     \<lparr>to_vec_pretty = (\<lambda>v. Ok (put_state (Inl v))),
      from_slice = (\<lambda>bs. case get_state bs of Some (v, []) \<Rightarrow> Ok v | _ \<Rightarrow> Err SerdeError),
      get_version = isl,
      from_value_v2 = (\<lambda>v. case v of Inl s \<Rightarrow> Ok s | Inr _ \<Rightarrow> Err SerdeError),
      from_value_legacy = (\<lambda>v. case v of Inl _ \<Rightarrow> Err SerdeError | Inr l \<Rightarrow> Ok l)\<rparr>"

lemma get_put_state: "get_state (put_state v) = Some (v, [])"
  using wireD [OF wire_state, of v "[]"] by simp

interpretation wire_serde: serde_json_spec wire_serde
  by unfold_locales (auto simp: wire_serde_def get_put_state)

end
