(* ===== verification/Store_Properties.thy ===== *)
theory Store_Properties
  imports Wire_Format
begin

text \<open>
  The properties of the state file: what a save leaves behind whichever call fails, that a saved
  table is read back, that the file does not depend on the order of the records, and that a
  migration never loses the older state.
\<close>

section \<open>Records in any order\<close>

lemma records_valid_perm:
  assumes "mset rs = mset rs'" and "records_valid rs"
  shows "records_valid rs'"
proof -
  let ?P = "\<lambda>r r'. entries_compatible (entry_of_record r) (entry_of_record r')"
  have "symp ?P" using symp_entries_compatible unfolding symp_def by blast
  then have "sorted_wrt ?P rs'"
    using sorted_wrt_perm [OF assms(1)] assms(2) by (simp add: records_valid_def)
  then show ?thesis
    using assms mset_eq_setD [OF assms(1)] mset_eq_length [OF assms(1)]
    by (simp add: records_valid_def list_all_iff)
qed

lemma persisted_form_sorted:
  "persisted_form rs = \<lparr>pv_version = 2, pv_leases = map from_record (sort_key rec_port rs)\<rparr>"
  by (simp add: persisted_form_def sort_key_map from_record_def)

lemma records_distinct_ports:
  assumes "records_valid rs"
  shows "distinct (map rec_port rs)"
proof -
  have "sorted_wrt (\<lambda>r r'. rec_port r \<noteq> rec_port r') rs"
    using assms unfolding records_valid_def
    by (auto simp: compatible_of_record rec_apart_def elim: sorted_wrt_mono_rel [rotated])
  then show ?thesis by (induction rs) auto
qed

lemma sort_key_unique:
  assumes "mset rs = mset rs'" and "distinct (map rec_port rs)"
  shows "sort_key rec_port rs = sort_key rec_port rs'"
proof (rule map_sorted_distinct_set_unique [of rec_port])
  have set: "set rs' = set rs" by (rule mset_eq_setD [OF assms(1), symmetric])
  show "inj_on rec_port (set (sort_key rec_port rs) \<union> set (sort_key rec_port rs'))"
    using assms(2) set by (simp add: distinct_map)
  show "set (sort_key rec_port rs) = set (sort_key rec_port rs')" using set by simp
  have "mset (map rec_port (sort_key rec_port rs)) = mset (map rec_port rs)"
    "mset (map rec_port (sort_key rec_port rs')) = mset (map rec_port rs)"
    using assms(1) by simp_all
  then show "distinct (map rec_port (sort_key rec_port rs))"
    "distinct (map rec_port (sort_key rec_port rs'))"
    using assms(2) mset_eq_imp_distinct_iff by blast+
qed simp_all

lemma persisted_form_perm:
  assumes "mset rs = mset rs'" and "distinct (map rec_port rs)"
  shows "persisted_form rs = persisted_form rs'"
  using sort_key_unique [OF assms] by (simp add: persisted_form_sorted)

section \<open>What a save leaves behind\<close>

lemma sync_directory_read_only [simp]: "read_only (sync_directory d)"
  by (simp add: sync_directory_def)

lemma sync_directory_visible: "sync_directory d w = (r, w') \<Longrightarrow> nodes w' = nodes w"
  by (rule read_onlyD [of "sync_directory d"]) (simp_all add: sync_directory_def)

lemma not_temp_visible: "\<not> temp_name p \<Longrightarrow> visible w p = nodes w p"
  by (simp add: visible_def)

lemma save_cases:
  assumes tf: "tempfile_spec tf" and p: "\<not> temp_name (store_path store)"
    and run: "save sj tf store rs w = (r, w')"
  obtains (unchanged) e where "r = Inl e" "visible w' = visible w"
  | (replaced) bytes where "to_vec_pretty sj (persisted_form rs) = Inr bytes"
      "fits_state (length bytes)"
      "visible w' = (visible w)(store_path store \<mapsto> Regular bytes OWNER_ONLY)"
proof (cases "to_vec_pretty sj (persisted_form rs)")
  case (Inl e)
  then show ?thesis
    using run unchanged by (auto simp: save_def io_bind_def io_result_def map_err_def)
next
  case (Inr bytes)
  show ?thesis
  proof (cases "fits_state (length bytes)")
    case True
    have "io_bind (io_map_err StoreIo (stage_temp tf (parent_or_dot (store_path store)) bytes))
        (\<lambda>temp. io_then (io_map_err StoreIo (persist_temp tf temp (store_path store)))
          (sync_directory (parent_or_dot (store_path store)))) w = (r, w')"
      using run Inr True
      by (simp add: save_def io_bind_def io_then_def io_result_def io_ensure_def io_return_def
          map_err_def Let_def)
    then show ?thesis
      by (cases rule: tempfile_spec.replace_file_cases [OF tf p _ sync_directory_read_only])
        (use unchanged replaced Inr True in auto)
  next
    case False
    then show ?thesis
      using run Inr unchanged
      by (auto simp: save_def io_bind_def io_then_def io_result_def io_ensure_def io_fail_def
          map_err_def)
  qed
qed

section \<open>What is read back\<close>

lemma fs_metadata_regular:
  "nodes w p = Some (Regular bs m) \<Longrightarrow> faults w = [] \<Longrightarrow> fs_metadata p w = (Inr (Regular bs m), w)"
  by (simp add: fs_metadata_def)

lemma fs_read_regular:
  "nodes w p = Some (Regular bs m) \<Longrightarrow> faults w = [] \<Longrightarrow> fs_read p w = (Inr bs, w)"
  by (simp add: fs_read_def)

lemma load_saved:
  assumes sj: "serde_json_spec sj" and stored: "nodes w p = Some (Regular bytes m)" "faults w = []"
    and bytes: "to_vec_pretty sj (persisted_form rs) = Inr bytes" "fits_state (length bytes)"
    and rs: "records_valid rs" "list_all record_tokens_ok rs"
  shows "load_or_create sj tf sha256 p now w =
    (Inr (\<lparr>store_path = p\<rparr>, restored_table (sort_key rec_port rs) now), w)"
proof -
  obtain json where json: "from_slice sj bytes = Inr json" "get_version sj json"
    "from_value_v2 sj json = Inr (persisted_form rs)"
    using serde_json_spec.state_roundtrip [OF sj bytes(1)] by blast
  have "collect_results into_record (pv_leases (persisted_form rs)) = Inr (sort_key rec_port rs)"
    unfolding persisted_form_sorted using rs(2)
    by (auto simp: list_all_iff intro!: stored_lease.collect_dec_enc)
  moreover have "restore (sort_key rec_port rs) now = Inr (restored_table (sort_key rec_port rs) now)"
    using records_valid_perm [OF _ rs(1), of "sort_key rec_port rs"] by (simp add: restore_eq_iff)
  ultimately have "load_v2 sj \<lparr>store_path = p\<rparr> json now =
      Inr (\<lparr>store_path = p\<rparr>, restored_table (sort_key rec_port rs) now)"
    using json(3) by (simp add: load_v2_def persisted_form_def)
  then show ?thesis
    using fs_metadata_regular [OF stored] fs_read_regular [OF stored] bytes(2) json(1,2)
    by (simp add: load_or_create_def io_bind_def io_then_def io_ensure_def io_return_def
        io_map_err_def map_err_def io_result_def node_len_def)
qed

section \<open>The world of the instances\<close>

definition state_path :: path where
  "state_path = [''.'', ''gamenet-state.json'']"

definition empty_dir :: World where
  "empty_dir = \<lparr>nodes = (\<lambda>p. if p = [''.''] then Some Directory else None), faults = []\<rparr>"

definition token_a :: TokenId where
  "token_a = TokenId (replicate 32 1)"

definition token_b :: TokenId where
  "token_b = TokenId (replicate 32 2)"

definition records_ab :: "LeaseRecord list" where
  "records_ab =
     [\<lparr>rec_token_id = token_b, rec_retired_token_ids = [], rec_recovery_id = None,
       rec_port = 10001, rec_last_ip = Some (V4 2), rec_expires_at_ms = 900\<rparr>,
      \<lparr>rec_token_id = token_a, rec_retired_token_ids = [], rec_recovery_id = Some token_b,
       rec_port = 10000, rec_last_ip = None, rec_expires_at_ms = 500\<rparr>]"

lemma records_ab_valid:
  "records_valid records_ab" "list_all record_tokens_ok records_ab"
  "case restore records_ab 600 of
     Inl e \<Rightarrow> False | Inr t \<Rightarrow> grace_port t token_b = Some 10001 \<and> grace_port t token_a = None"
proof -
  have "is_ok (restore records_ab 600)" by code_simp
  then show "records_valid records_ab" by (auto simp: is_ok_iff restore_eq_iff)
  show "list_all record_tokens_ok records_ab"
    by (simp add: records_ab_def record_tokens_ok_def token_ok_def token_a_def token_b_def)
  show "case restore records_ab 600 of
     Inl e \<Rightarrow> False | Inr t \<Rightarrow> grace_port t token_b = Some 10001 \<and> grace_port t token_a = None"
    by code_simp
qed

lemma not_temp_state_path: "\<not> temp_name state_path"
  by code_simp

section \<open>Properties\<close>

text \<open>
  Writing a token in hex and parsing it gives the token back, and the parser accepts exactly 64
  ASCII characters each pair of which is a radix-16 number of the standard library; that includes a
  pair made of a plus sign and one digit.
\<close>

theorem hex_32_roundtrip:
  assumes "length bs = 32"
  shows "parse_hex_32 (hex_32 bs) = Inr bs
    \<and> (is_ok (parse_hex_32 s) \<longleftrightarrow> length s = 64 \<and> is_ascii s \<and>
         (\<forall>i \<in> {0..<32}. u8_from_str_radix16 (hex_slice s i) \<noteq> None))
    \<and> parse_hex_32 (concat (replicate 32 ''+f'')) = Inr (replicate 32 15)"
proof -
  let ?f = "\<lambda>i. case u8_from_str_radix16 (hex_slice s i) of None \<Rightarrow> Err BadHexByte | Some b \<Rightarrow> Ok b"
  have "is_ok (collect_results ?f is) \<longleftrightarrow> (\<forall>i \<in> set is. u8_from_str_radix16 (hex_slice s i) \<noteq> None)"
    for "is"
    by (induction "is") (auto split: option.splits sum.splits simp: is_ok_def)
  then have "is_ok (parse_hex_32 s) \<longleftrightarrow> length s = 64 \<and> is_ascii s \<and>
      (\<forall>i \<in> {0..<32}. u8_from_str_radix16 (hex_slice s i) \<noteq> None)"
    by (cases "length s = 64 \<and> is_ascii s")
      (auto simp: parse_hex_32_def set_upt simp del: upt_rec_numeral)
  moreover have "parse_hex_32 (concat (replicate 32 ''+f'')) = Inr (replicate 32 15)"
    by code_simp
  ultimately show ?thesis using hex.dec_enc [OF assms] by blast
qed

theorem hex_32_roundtrip_witness:
  "length (replicate 32 (7 :: u8)) = 32 \<and> parse_hex_32 (hex_32 (replicate 32 7)) = Inr (replicate 32 7)"
  using hex_32_roundtrip [of "replicate 32 7"] by simp

text \<open>
  C12: whichever system calls fail, a save either leaves every file that is not a temporary one as it
  was, or puts the complete new contents, readable by the owner only, in place of the state file and
  changes nothing else; and it reports success only in the second case.
\<close>

theorem save_is_atomic:
  assumes "tempfile_spec tf" and "\<not> temp_name (store_path store)"
  shows "visible (snd (save sj tf store rs w)) = visible w
      \<and> \<not> is_ok (fst (save sj tf store rs w))
    \<or> (\<exists>bytes. to_vec_pretty sj (persisted_form rs) = Inr bytes \<and> length bytes \<le> 1048576
        \<and> visible (snd (save sj tf store rs w)) =
            (visible w)(store_path store \<mapsto> Regular bytes OWNER_ONLY))"
  by (rule save_cases [OF assms prod.collapse [symmetric]]) (auto simp: fits_state_def const_defs)

theorem save_is_atomic_witness:
  "tempfile_spec std_tempfile
    \<and> is_ok (fst (save wire_serde std_tempfile \<lparr>store_path = state_path\<rparr> records_ab empty_dir))
    \<and> (\<exists>bytes. visible (snd (save wire_serde std_tempfile \<lparr>store_path = state_path\<rparr> records_ab
         empty_dir)) = (visible empty_dir)(state_path \<mapsto> Regular bytes OWNER_ONLY))"
proof -
  have "is_ok (fst (save wire_serde std_tempfile \<lparr>store_path = state_path\<rparr> records_ab empty_dir))"
    by code_simp
  moreover have "\<not> temp_name (store_path \<lparr>store_path = state_path\<rparr>)"
    using not_temp_state_path by simp
  note save_is_atomic [OF std_tf.tempfile_spec_axioms this, of wire_serde records_ab empty_dir]
  ultimately show ?thesis
    using std_tf.tempfile_spec_axioms unfolding LeaseStore.select_convs by blast
qed

text \<open>
  C27: after a successful save of valid records, loading gives the table that restoring these records
  gives: the same claim for every identity, whatever order the records were in.
\<close>

theorem save_load_roundtrip:
  assumes "serde_json_spec sj" and "tempfile_spec tf" and "\<not> temp_name p"
    and "records_valid rs" and "list_all record_tokens_ok rs"
    and "save sj tf \<lparr>store_path = p\<rparr> rs w = (Inr (), w')" and "faults w' = []"
  shows "\<exists>t t0. load_or_create sj tf sha256 p now w' = (Inr (\<lparr>store_path = p\<rparr>, t), w')
    \<and> restore rs now = Inr t0
    \<and> (\<forall>k. hm_get (leases t) k = hm_get (leases t0) k) \<and> next_session_id t = next_session_id t0"
proof -
  let ?rs = "sort_key rec_port rs"
  from assms(2) have "\<not> temp_name (store_path \<lparr>store_path = p\<rparr>)" using assms(3) by simp
  from save_cases [OF assms(2) this assms(6)] obtain bytes where
    b: "to_vec_pretty sj (persisted_form rs) = Inr bytes" "fits_state (length bytes)"
    and v: "visible w' = (visible w)(p \<mapsto> Regular bytes OWNER_ONLY)" by auto
  have "nodes w' p = Some (Regular bytes OWNER_ONLY)"
    using v not_temp_visible [OF assms(3), of w'] by simp
  note load = load_saved [OF assms(1) this assms(7) b assms(4,5)]
  have valid: "records_valid ?rs" by (rule records_valid_perm [OF _ assms(4)]) simp
  have "hm_get (leases (restored_table ?rs now)) k = hm_get (leases (restored_table rs now)) k" for k
    by (rule option_eqI) (simp add: restored_get [OF valid] restored_get [OF assms(4)])
  moreover have "restore rs now = Inr (restored_table rs now)"
    using assms(4) by (simp add: restore_eq_iff)
  ultimately show ?thesis using load by (auto simp: restored_table_def)
qed

theorem save_load_roundtrip_witness:
  "serde_json_spec wire_serde \<and> tempfile_spec std_tempfile
    \<and> (\<exists>t. fst (load_or_create wire_serde std_tempfile id state_path 600
         (snd (save wire_serde std_tempfile \<lparr>store_path = state_path\<rparr> records_ab empty_dir)))
         = Inr (\<lparr>store_path = state_path\<rparr>, t)
       \<and> grace_port t token_b = Some 10001 \<and> grace_port t token_a = None)"
proof -
  let ?save = "save wire_serde std_tempfile \<lparr>store_path = state_path\<rparr> records_ab empty_dir"
  have ok: "is_ok (fst ?save)" and faults: "faults (snd ?save) = []" by code_simp+
  then have run: "?save = (Inr (), snd ?save)" by (cases ?save) (auto simp: is_ok_iff)
  obtain t0 where t0: "restore records_ab 600 = Inr t0" "grace_port t0 token_b = Some 10001"
    "grace_port t0 token_a = None"
    using records_ab_valid(3) by (auto split: sum.splits)
  show ?thesis
    using save_load_roundtrip [OF wire_serde.serde_json_spec_axioms std_tf.tempfile_spec_axioms
        not_temp_state_path records_ab_valid(1,2) run faults, of id 600] t0
      wire_serde.serde_json_spec_axioms std_tf.tempfile_spec_axioms
    by (auto simp: grace_port_def)
qed

text \<open>
  C29: the state file is deterministic: saving the same valid records in another order (the order of
  a \<^verbatim>\<open>HashMap\<close> is arbitrary) makes the same calls with the same bytes.
\<close>

theorem save_order_irrelevant:
  assumes "records_valid rs" and "mset rs = mset rs'"
  shows "save sj tf store rs w = save sj tf store rs' w"
  using persisted_form_perm [OF assms(2) records_distinct_ports [OF assms(1)]]
  by (simp add: save_def)

theorem save_order_irrelevant_witness:
  "records_valid records_ab \<and> rev records_ab \<noteq> records_ab
    \<and> save wire_serde std_tempfile \<lparr>store_path = state_path\<rparr> records_ab empty_dir
      = save wire_serde std_tempfile \<lparr>store_path = state_path\<rparr> (rev records_ab) empty_dir"
proof -
  have "rev records_ab \<noteq> records_ab" by (simp add: records_ab_def)
  then show ?thesis
    using save_order_irrelevant [OF records_ab_valid(1), of "rev records_ab"] records_ab_valid(1)
    by simp
qed

section \<open>Migration\<close>

lemma migrate_loop_records:
  assumes "migrate_loop sha256 now tps T P acc = Inr rs"
  shows "\<exists>new. rs = acc @ new \<and> list_all2 (\<lambda>tp r. \<exists>token. parse_hex_32 (fst tp) = Inr token
    \<and> r = \<lparr>rec_token_id = TokenId_from_token sha256 token, rec_retired_token_ids = [],
        rec_recovery_id = None, rec_port = snd tp, rec_last_ip = None,
        rec_expires_at_ms = saturating_add_u64 now GRACE_MS\<rparr>) tps new"
  using assms
proof (induction sha256 now tps T P acc rule: migrate_loop.induct)
  case (1 sha256 now_ms tokens ports records)
  then show ?case by simp
next
  case (2 sha256 now hex port rest T P acc)
  obtain token where token: "parse_hex_32 hex = Inr token" "token \<notin> T"
    and range: "PORT_START \<le> port \<and> port \<le> PORT_END" "port \<notin> P"
    using 2(2) by (auto split: if_splits sum.splits)
  from 2(1) [OF _ range(2) token(1,2)] 2(2) token range show ?case
    by (fastforce simp: list_all2_Cons1)
qed

text \<open>
  A legacy state that is migrated gives each of its tokens its port back, in a grace period of
  five minutes, under the fingerprint of the token; the migrated table satisfies the invariant.
\<close>

theorem migration_keeps_ports:
  assumes "migrate_legacy sha256 legacy now = Inr t" and "(hex, port) \<in> set (token_ports legacy)"
    and "now < saturating_add_u64 now GRACE_MS"
  shows "\<exists>token. parse_hex_32 hex = Inr token
    \<and> hm_get (leases t) (TokenId (sha256 token)) = Some
        \<lparr>lease_port = port, lease_last_ip = None, lease_retired_token_ids = [],
         lease_recovery_id = None, lease_status = Grace (saturating_add_u64 now GRACE_MS)\<rparr>
    \<and> lease_inv t"
proof -
  obtain rs where rs: "migrate_loop sha256 now (token_ports legacy) {} {} [] = Inr rs"
    and t: "restore rs now = Inr t"
    using assms(1) by (auto simp: migrate_legacy_def map_err_def split: if_splits sum.splits)
  have valid: "records_valid rs" and t': "t = restored_table rs now"
    using t by (simp_all add: restore_eq_iff)
  obtain token where token: "parse_hex_32 hex = Inr token"
    and r: "\<lparr>rec_token_id = TokenId_from_token sha256 token, rec_retired_token_ids = [],
        rec_recovery_id = None, rec_port = port, rec_last_ip = None,
        rec_expires_at_ms = saturating_add_u64 now GRACE_MS\<rparr> \<in> set rs"
    using migrate_loop_records [OF rs] assms(2) by (force simp: list_all2_conv_all_nth in_set_conv_nth)
  have "hm_get (leases t) (TokenId (sha256 token)) = Some
      \<lparr>lease_port = port, lease_last_ip = None, lease_retired_token_ids = [],
       lease_recovery_id = None, lease_status = Grace (saturating_add_u64 now GRACE_MS)\<rparr>"
    unfolding t' restored_get [OF valid]
    by (rule bexI [OF _ r])
      (use assms(3) in \<open>simp add: record_live_def lease_of_record_def TokenId_from_token_def not_le\<close>)
  then show ?thesis using token lease_inv_restored [OF valid] t' by blast
qed

theorem migration_keeps_ports_witness:
  "\<exists>t. migrate_legacy id \<lparr>token_ports = [(hex_32 (replicate 32 1), 10005)]\<rparr> 50 = Inr t
    \<and> grace_port t token_a = Some 10005"
proof -
  let ?legacy = "\<lparr>token_ports = [(hex_32 (replicate 32 1), 10005)]\<rparr>"
  have "is_ok (migrate_legacy id ?legacy 50)" by code_simp
  then obtain t where t: "migrate_legacy id ?legacy 50 = Inr t" by (auto simp: is_ok_iff)
  have "50 < saturating_add_u64 50 GRACE_MS" by code_simp
  from migration_keeps_ports [OF t _ this, of "hex_32 (replicate 32 1)" 10005] t show ?thesis
    by (auto simp: hex.dec_enc grace_port_def token_a_def)
qed















end
