(* ===== verification/Server_State.thy ===== *)
theory Server_State
  imports Store_Properties
begin

text \<open>
  The component \<^verbatim>\<open>crates/server/src/state.rs\<close>: the relay's state behind its mutex. Every operation
  works on a staged copy of the lease table, saves its snapshot, and commits the copy only when the
  save succeeded. A handler is a function of the state and the world to its result, the state and
  the world it leaves. \<^verbatim>\<open>TcpListener::bind\<close> is the parameter \<open>bind\<close>, SHA-256 the parameter \<open>sha256\<close>;
  a \<^verbatim>\<open>quinn::Connection\<close> is a value of an arbitrary type, which the state only stores and hands out.
\<close>

section \<open>Data\<close>

record 'c ServerState =
  st_leases :: LeaseTable
  st_store :: LeaseStore
  persistence_healthy :: bool
  active_connections :: "(TokenId, SessionId \<times> 'c) hash_map"

record 'l Registration =
  reg_listener :: 'l
  reg_public_port :: u16
  reg_token_id :: TokenId
  reg_session_id :: SessionId

datatype server_error =
    StorageUnavailable \<comment> \<open>Lease storage is unavailable\<close>
  | NoBindablePort \<comment> \<open>No free TCP port can be bound in the relay's port range\<close>
  | ServerLease lease_error
  | ServerStore store_error
  | ServerIo io_error

text \<open>A handler on \<^verbatim>\<open>&mut ServerState\<close>.\<close>

type_synonym ('c, 'a) handler =
  "'c ServerState \<Rightarrow> World \<Rightarrow> (server_error, 'a) result \<times> 'c ServerState \<times> World"

text \<open>
  \<^verbatim>\<open>now_ms\<close>: the argument is the time since the epoch in milliseconds, \<open>None\<close> for a clock before it.
\<close>

definition now_ms :: "nat option \<Rightarrow> u64" where
  "now_ms since_epoch =
     (let millis = (case since_epoch of None \<Rightarrow> 0 | Some ms \<Rightarrow> ms)
      in if millis < 2 ^ 64 then of_nat millis else - 1)"

section \<open>Operations\<close>

definition load_or_new ::
  "'json serde_json \<Rightarrow> tempfile \<Rightarrow> (u8 list \<Rightarrow> u8 list) \<Rightarrow> path \<Rightarrow> u64
    \<Rightarrow> (store_error, 'c ServerState) io" where
  "load_or_new sj tf sha256 path now =
     io_bind (load_or_create sj tf sha256 path now) (\<lambda>(store, table).
       io_return
        \<lparr>st_leases = table, st_store = store, persistence_healthy = True, active_connections = []\<rparr>)"

text \<open>The loop over the candidate ports (lines 72 to 102).\<close>

fun register_loop ::
  "'json serde_json \<Rightarrow> tempfile \<Rightarrow> (u16 \<Rightarrow> (io_error, 'l) result) \<Rightarrow> TokenId \<Rightarrow> u8 list option
    \<Rightarrow> IpAddr \<Rightarrow> u64 \<Rightarrow> 'c option \<Rightarrow> u16 list \<Rightarrow> ('c, 'l Registration) handler" where
  "register_loop sj tf bind token_id recovery_id peer_ip now connection [] st w =
     (Err NoBindablePort, st, w)"
| "register_loop sj tf bind token_id recovery_id peer_ip now connection (port # ports) st w =
     (case bind port of
        Inl AddrInUse \<Rightarrow>
          register_loop sj tf bind token_id recovery_id peer_ip now connection ports st w
      | Inl e \<Rightarrow> (Err (ServerIo e), st, w)
      | Inr listener \<Rightarrow>
          (case activate_with_recovery token_id (map_option TokenId recovery_id) peer_ip port now
                  (st_leases st) of
             (Inl e, _) \<Rightarrow> (Err (ServerLease e), st, w)
           | (Inr session_id, staged) \<Rightarrow>
               (case save sj tf (st_store st) (snapshot now staged) w of
                  (Inl e, w') \<Rightarrow> (Err (ServerStore e), st\<lparr>persistence_healthy := False\<rparr>, w')
                | (Inr _, w') \<Rightarrow>
                    (Ok \<lparr>reg_listener = listener, reg_public_port = port,
                         reg_token_id = token_id, reg_session_id = session_id\<rparr>,
                     st\<lparr>st_leases := staged,
                        active_connections :=
                          (case connection of
                             Some c \<Rightarrow> hm_insert token_id (session_id, c) (active_connections st)
                           | None \<Rightarrow> active_connections st)\<rparr>, w'))))"

definition register_with_recovery ::
  "'json serde_json \<Rightarrow> tempfile \<Rightarrow> (u8 list \<Rightarrow> u8 list) \<Rightarrow> (u16 \<Rightarrow> (io_error, 'l) result)
    \<Rightarrow> u8 list \<Rightarrow> u8 list option \<Rightarrow> IpAddr \<Rightarrow> u64 \<Rightarrow> 'c option \<Rightarrow> ('c, 'l Registration) handler" where
  "register_with_recovery sj tf sha256 bind token recovery_id peer_ip now connection st w =
     (if \<not> persistence_healthy st then (Err StorageUnavailable, st, w)
      else
        let token_id = TokenId_from_token sha256 token
        in case candidate_ports token_id peer_ip now (st_leases st) of
             (Inl e, t) \<Rightarrow> (Err (ServerLease e), st\<lparr>st_leases := t\<rparr>, w)
           | (Inr candidates, t) \<Rightarrow>
               register_loop sj tf bind token_id recovery_id peer_ip now connection candidates
                 (st\<lparr>st_leases := t\<rparr>) w)"

definition register ::
  "'json serde_json \<Rightarrow> tempfile \<Rightarrow> (u8 list \<Rightarrow> u8 list) \<Rightarrow> (u16 \<Rightarrow> (io_error, 'l) result)
    \<Rightarrow> u8 list \<Rightarrow> IpAddr \<Rightarrow> u64 \<Rightarrow> ('c, 'l Registration) handler" where
  "register sj tf sha256 bind token peer_ip now =
     register_with_recovery sj tf sha256 bind token None peer_ip now None"

text \<open>\<^verbatim>\<open>ServerState::end\<close>: the session ends in memory even if the save fails.\<close>

definition end_registration ::
  "'json serde_json \<Rightarrow> tempfile \<Rightarrow> TokenId \<Rightarrow> SessionId \<Rightarrow> u64 \<Rightarrow> ('c, bool) handler" where
  "end_registration sj tf token_id session_id now st w =
     (case end_session token_id session_id now (st_leases st) of
        (False, _) \<Rightarrow> (Ok False, st, w)
      | (True, t) \<Rightarrow>
          (let connections =
                 (case hm_get (active_connections st) token_id of
                    Some (active, _) \<Rightarrow>
                      if active = session_id then hm_remove token_id (active_connections st)
                      else active_connections st
                  | None \<Rightarrow> active_connections st);
               st' = st\<lparr>st_leases := t, active_connections := connections\<rparr>
           in case save sj tf (st_store st) (snapshot now t) w of
                (Inl e, w') \<Rightarrow> (Err (ServerStore e), st'\<lparr>persistence_healthy := False\<rparr>, w')
              | (Inr _, w') \<Rightarrow> (Ok True, st', w')))"

text \<open>\<^verbatim>\<open>ServerState::rotate\<close>.\<close>

definition rotate_token ::
  "'json serde_json \<Rightarrow> tempfile \<Rightarrow> (u8 list \<Rightarrow> u8 list) \<Rightarrow> u8 list \<Rightarrow> u8 list \<Rightarrow> u64
    \<Rightarrow> ('c, u16 option) handler" where
  "rotate_token sj tf sha256 old new now st w =
     (if \<not> persistence_healthy st then (Err StorageUnavailable, st, w)
      else case rotate_claim (TokenId_from_token sha256 old) (TokenId_from_token sha256 new) now
                  (st_leases st) of
             (Inl e, _) \<Rightarrow> (Err (ServerLease e), st, w)
           | (Inr (Unchanged p), _) \<Rightarrow> (Ok p, st, w)
           | (Inr (Transferred port), staged) \<Rightarrow>
               (case save sj tf (st_store st) (snapshot now staged) w of
                  (Inl e, w') \<Rightarrow> (Err (ServerStore e), st\<lparr>persistence_healthy := False\<rparr>, w')
                | (Inr _, w') \<Rightarrow> (Ok (Some port), st\<lparr>st_leases := staged\<rparr>, w')))"

text \<open>The match on \<^verbatim>\<open>active_connections.remove(&old)\<close> (lines 169 to 178).\<close>

definition take_displaced ::
  "(TokenId \<times> SessionId) option \<Rightarrow> (TokenId, SessionId \<times> 'c) hash_map
    \<Rightarrow> 'c option \<times> (TokenId, SessionId \<times> 'c) hash_map" where
  "take_displaced displaced_host connections =
     (case displaced_host of
        None \<Rightarrow> (None, connections)
      | Some (old, session) \<Rightarrow>
          (case hm_get connections old of
             None \<Rightarrow> (None, connections)
           | Some (active, connection) \<Rightarrow>
               if active = session then (Some connection, hm_remove old connections)
               else (None, hm_insert old (active, connection) (hm_remove old connections))))"

definition recover ::
  "'json serde_json \<Rightarrow> tempfile \<Rightarrow> (u8 list \<Rightarrow> u8 list) \<Rightarrow> u8 list \<Rightarrow> u8 list \<Rightarrow> IpAddr \<Rightarrow> u64
    \<Rightarrow> ('c, u16 \<times> 'c option) handler" where
  "recover sj tf sha256 secret new peer_ip now st w =
     (if \<not> persistence_healthy st then (Err StorageUnavailable, st, w)
      else case recover_claim (TokenId_from_token sha256 secret) (TokenId_from_token sha256 new)
                  peer_ip now (st_leases st) of
             (Inl e, _) \<Rightarrow> (Err (ServerLease e), st, w)
           | (Inr result, staged) \<Rightarrow>
               if \<not> changed result then (Ok (recovered_port result, None), st, w)
               else (case save sj tf (st_store st) (snapshot now staged) w of
                   (Inl e, w') \<Rightarrow> (Err (ServerStore e), st\<lparr>persistence_healthy := False\<rparr>, w')
                 | (Inr _, w') \<Rightarrow>
                     (case take_displaced (displaced result) (active_connections st) of
                        (connection, connections) \<Rightarrow>
                          (Ok (recovered_port result, connection),
                           st\<lparr>st_leases := staged, active_connections := connections\<rparr>, w'))))"

definition refresh_and_save ::
  "'json serde_json \<Rightarrow> tempfile \<Rightarrow> u64 \<Rightarrow> ('c, unit) handler" where
  "refresh_and_save sj tf now st w =
     (let t = reap_expired now (st_leases st) in
      case save sj tf (st_store st) (snapshot now t) w of
        (Inl e, w') \<Rightarrow>
          (Err (ServerStore e), st\<lparr>st_leases := t, persistence_healthy := False\<rparr>, w')
      | (Inr _, w') \<Rightarrow> (Ok (), st\<lparr>st_leases := t, persistence_healthy := True\<rparr>, w'))"

section \<open>The invariant\<close>

text \<open>
  The connections are those of the active sessions: the handlers that register a host hand its
  connection over.
\<close>

definition conns_ok :: "LeaseTable \<Rightarrow> (TokenId, SessionId \<times> 'c) hash_map \<Rightarrow> bool" where
  "conns_ok t m \<longleftrightarrow> (\<forall>k. map_option fst (hm_get m k) = active_session t k)"

definition state_inv :: "'c ServerState \<Rightarrow> bool" where
  "state_inv st \<longleftrightarrow> lease_inv (st_leases st) \<and> conns_ok (st_leases st) (active_connections st)"

lemma active_session_reap [simp]:
  "lease_inv t \<Longrightarrow> active_session (reap_expired now t) k = active_session t k"
  using hm.get_retain [of "leases t"] lease_inv_wf [of t]
  by (auto simp: active_session_def reap_expired_def lease_expired_def
      split: option.splits LeaseStatus.splits)

lemma conns_ok_reap [simp]: "lease_inv t \<Longrightarrow> conns_ok (reap_expired now t) m = conns_ok t m"
  by (simp add: conns_ok_def)

lemma state_inv_reap:
  "state_inv st \<Longrightarrow> state_inv (st\<lparr>st_leases := reap_expired now (st_leases st)\<rparr>)"
  by (simp add: state_inv_def reap_expired_inv)

lemma activate_active_session:
  assumes "lease_inv t" and "activate_with_recovery k r ip p now t = (Inr s, t')"
  shows "active_session t' k' = (if k' = k then Some s else active_session t k')"
  using assms(2)
proof (cases rule: activate_with_recovery_cases)
  case offered
  from offered(2) show ?thesis
  proof (cases rule: enroll_claim_cases)
    case (enrolled n existing)
    have "active_session (reap_expired now t) k' = active_session t k'"
      by (rule active_session_reap [OF assms(1)])
    then show ?thesis
      using enrolled(2) unfolding enrolled(6) by (auto simp: active_session_def hm.get_put)
  qed simp
qed simp

lemma end_session_active_session:
  assumes "end_session k s now t = (True, t')"
  shows "active_session t k = Some s"
    and "active_session t' k' = (if k' = k then None else active_session t k')"
  using assms
  by (auto simp: end_session_def active_session_def hm.get_put split: option.splits if_splits)

lemma rotate_claim_active_session:
  assumes "lease_inv t" and "rotate_claim old new now t = (Inr r, t')"
  shows "active_session t' k = active_session t k"
  using assms(2)
proof (cases rule: rotate_claim_cases)
  case (moved u l x)
  have "active_session t' k = active_session u k"
    unfolding moved(10) using moved(3,6,7)
    by (auto simp: active_session_def hm.get_move split: option.splits)
  then show ?thesis using moved(1) active_session_reap [OF assms(1)] by simp
qed (simp add: assms(1))

lemma recover_claim_active_session:
  assumes "lease_inv t" and "recover_claim r new ip now t = (Inr rec, t')" and "changed rec"
  obtains old l where "hm_get (leases t) old = Some l" "lease_recovery_id l = Some r"
    "lease_port l = recovered_port rec" "displaced rec = map_option (Pair old) (active_session t old)"
    "\<And>k. active_session t' k = (if k = old then None else active_session t k)"
  using assms(2)
proof (cases rule: recover_claim_cases)
  case (moved u old l)
  have ol: "hm_get (leases t) old = Some l" and ul: "hm_get (leases u) old = Some l"
    using moved(1,2) lease_inv_get [OF assms(1)] lease_inv_get [OF reap_expired_inv [OF assms(1)]]
    by (auto simp: reap_expired_filter)
  have "active_session t' k = (if k = old then None else active_session u k)" for k
    unfolding moved(9) using moved(4,5) ul by (auto simp: active_session_def hm.get_move)
  then have "active_session t' k = (if k = old then None else active_session t k)" for k
    using moved(1) active_session_reap [OF assms(1)] by simp
  moreover have "displaced rec = map_option (Pair old) (active_session t old)"
    using moved(8) ol by (auto simp: active_session_def split: LeaseStatus.splits)
  ultimately show ?thesis using that [OF ol moved(3)] moved(8) by auto
qed (use assms(3) in simp_all)

section \<open>How each handler can end\<close>

lemma register_loop_cases:
  assumes "register_loop sj tf bind k r ip now c ports st w = (res, st', w')"
  obtains (refused) e where "res = Inl e" "st' = st" "w' = w" "\<And>x. e \<noteq> ServerStore x"
  | (save_failed) e s p staged where
      "activate_with_recovery k (map_option TokenId r) ip p now (st_leases st) = (Inr s, staged)"
      "save sj tf (st_store st) (snapshot now staged) w = (Inl e, w')"
      "res = Inl (ServerStore e)" "st' = st\<lparr>persistence_healthy := False\<rparr>"
  | (registered) taken p rest listener s staged u where
      "ports = taken @ p # rest" "\<forall>q \<in> set taken. bind q = Inl AddrInUse" "bind p = Inr listener"
      "activate_with_recovery k (map_option TokenId r) ip p now (st_leases st) = (Inr s, staged)"
      "save sj tf (st_store st) (snapshot now staged) w = (Inr u, w')"
      "res = Inr \<lparr>reg_listener = listener, reg_public_port = p, reg_token_id = k, reg_session_id = s\<rparr>"
      "st' = st\<lparr>st_leases := staged,
         active_connections :=
           (case c of Some c \<Rightarrow> hm_insert k (s, c) (active_connections st)
            | None \<Rightarrow> active_connections st)\<rparr>"
  using assms
proof (induction ports arbitrary: thesis)
  case Nil
  have "res = Inl NoBindablePort" "st' = st" "w' = w" using Nil.prems(4) by simp_all
  then show ?case by (rule Nil.prems(1)) simp
next
  case (Cons p ports)
  show ?case
  proof (cases "bind p")
    case (Inl e)
    show ?thesis
    proof (cases "e = AddrInUse")
      case True
      then have run: "register_loop sj tf bind k r ip now c ports st w = (res, st', w')"
        using Cons.prems(4) Inl by simp
      show ?thesis
      proof (rule Cons.IH [OF _ _ _ run], goal_cases)
        case (1 e)
        then show ?case by (rule Cons.prems(1))
      next
        case (2 e s p staged)
        then show ?case by (rule Cons.prems(2))
      next
        case (3 taken p' rest listener s staged u)
        have "p # ports = (p # taken) @ p' # rest" "\<forall>q \<in> set (p # taken). bind q = Inl AddrInUse"
          using 3(1,2) Inl True by simp_all
        then show ?case using 3(3-7) by (rule Cons.prems(3))
      qed
    next
      case False
      then have "res = Inl (ServerIo e)" "st' = st" "w' = w"
        using Cons.prems(4) Inl by (auto split: io_error.splits)
      then show ?thesis using Cons.prems(1) by blast
    qed
  next
    case (Inr listener)
    obtain res1 staged where
      a: "activate_with_recovery k (map_option TokenId r) ip p now (st_leases st) = (res1, staged)"
      by fastforce
    obtain res2 w2 where sv: "save sj tf (st_store st) (snapshot now staged) w = (res2, w2)"
      by fastforce
    show ?thesis
    proof (cases res1)
      case (Inl e)
      then have "res = Inl (ServerLease e)" "st' = st" "w' = w"
        using Cons.prems(4) Inr a by auto
      then show ?thesis using Cons.prems(1) by blast
    next
      case (Inr s)
      show ?thesis
      proof (cases res2)
        case (Inl e)
        then show ?thesis
          using Cons.prems(2) [OF a [unfolded Inr]] Cons.prems(4) a sv Inr \<open>bind p = Inr listener\<close>
          by auto
      next
        case (Inr u)
        then show ?thesis
          using Cons.prems(3) [of "[]" p ports listener s staged u] Cons.prems(4) a sv
            \<open>res1 = Inr s\<close> \<open>bind p = Inr listener\<close> by simp
      qed
    qed
  qed
qed

lemma register_cases:
  assumes "register_with_recovery sj tf sha256 bind token r ip now c st w = (res, st', w')"
  obtains (unavailable) "\<not> persistence_healthy st" "res = Inl StorageUnavailable" "st' = st" "w' = w"
  | (refused) e where "persistence_healthy st" "res = Inl e"
      "st' = st\<lparr>st_leases := reap_expired now (st_leases st)\<rparr>" "w' = w" "\<And>x. e \<noteq> ServerStore x"
  | (save_failed) e s p staged where "persistence_healthy st"
      "activate_with_recovery (TokenId_from_token sha256 token) (map_option TokenId r) ip p now
         (reap_expired now (st_leases st)) = (Inr s, staged)"
      "save sj tf (st_store st) (snapshot now staged) w = (Inl e, w')" "res = Inl (ServerStore e)"
      "st' = st\<lparr>st_leases := reap_expired now (st_leases st), persistence_healthy := False\<rparr>"
  | (registered) taken p rest listener s staged u where "persistence_healthy st"
      "fst (candidate_ports (TokenId_from_token sha256 token) ip now (st_leases st))
         = Inr (taken @ p # rest)"
      "\<forall>q \<in> set taken. bind q = Inl AddrInUse" "bind p = Inr listener"
      "activate_with_recovery (TokenId_from_token sha256 token) (map_option TokenId r) ip p now
         (reap_expired now (st_leases st)) = (Inr s, staged)"
      "save sj tf (st_store st) (snapshot now staged) w = (Inr u, w')"
      "res = Inr \<lparr>reg_listener = listener, reg_public_port = p,
         reg_token_id = TokenId_from_token sha256 token, reg_session_id = s\<rparr>"
      "st' = st\<lparr>st_leases := staged,
         active_connections :=
           (case c of
              Some c \<Rightarrow> hm_insert (TokenId_from_token sha256 token) (s, c) (active_connections st)
            | None \<Rightarrow> active_connections st)\<rparr>"
proof (cases "persistence_healthy st")
  case False
  then have "res = Inl StorageUnavailable" "st' = st" "w' = w"
    using assms by (simp_all add: register_with_recovery_def)
  then show ?thesis using False unavailable by blast
next
  case True
  let ?k = "TokenId_from_token sha256 token" and ?t = "reap_expired now (st_leases st)"
  obtain cand where c0: "candidate_ports ?k ip now (st_leases st) = (cand, ?t)"
    by (metis prod.collapse snd_candidate_ports)
  show ?thesis
  proof (cases cand)
    case (Inl e)
    then have "res = Inl (ServerLease e)" "st' = st\<lparr>st_leases := ?t\<rparr>" "w' = w"
      using assms True c0 by (simp_all add: register_with_recovery_def Let_def)
    then show ?thesis by (rule refused [OF True]) simp
  next
    case (Inr ports)
    have run: "register_loop sj tf bind ?k r ip now c ports (st\<lparr>st_leases := ?t\<rparr>) w = (res, st', w')"
      using assms True c0 Inr by (simp add: register_with_recovery_def Let_def)
    show ?thesis
    proof (rule register_loop_cases [OF run], goal_cases)
      case (1 e)
      show ?case by (rule refused [OF True 1])
    next
      case (2 e s p staged)
      from True 2(1) [simplified] 2(2) [simplified] 2(3) show ?case
        by (rule save_failed) (use 2(4) in simp)
    next
      case (3 taken p rest listener s staged u)
      have "fst (candidate_ports ?k ip now (st_leases st)) = Inr (taken @ p # rest)"
        using c0 Inr 3(1) by simp
      from True this 3(2,3) 3(4,5) [simplified] 3(6) show ?case
        by (rule registered) (use 3(7) in \<open>simp split: option.split\<close>)
    qed
  qed
qed

lemma end_registration_cases:
  assumes "end_registration sj tf k s now st w = (res, st', w')"
  obtains (stale) "end_session k s now (st_leases st) = (False, st_leases st)"
      "res = Inr False" "st' = st" "w' = w"
  | (ended) t r where "end_session k s now (st_leases st) = (True, t)"
      "save sj tf (st_store st) (snapshot now t) w = (r, w')"
      "st' = st\<lparr>st_leases := t, active_connections :=
         (case hm_get (active_connections st) k of
            Some (active, _) \<Rightarrow>
              if active = s then hm_remove k (active_connections st) else active_connections st
          | None \<Rightarrow> active_connections st),
         persistence_healthy := (persistence_healthy st \<and> is_ok r)\<rparr>"
      "res = (case r of Inl e \<Rightarrow> Inl (ServerStore e) | Inr _ \<Rightarrow> Inr True)"
proof (cases "end_session k s now (st_leases st)")
  case (Pair b t)
  show ?thesis
  proof (cases b)
    case True
    obtain r w1 where sv: "save sj tf (st_store st) (snapshot now t) w = (r, w1)" by fastforce
    show ?thesis
      by (rule ended [of t r])
        (use assms Pair True sv in
          \<open>auto simp: end_registration_def Let_def split: sum.splits prod.splits\<close>)
  next
    case False
    then have "t = st_leases st"
      using Pair by (auto simp: end_session_def split: option.splits if_splits)
    then show ?thesis
      by (intro stale) (use assms Pair False in \<open>simp_all add: end_registration_def\<close>)
  qed
qed

lemma rotate_cases:
  assumes "rotate_token sj tf sha256 old new now st w = (res, st', w')"
  obtains (unavailable) "\<not> persistence_healthy st" "res = Inl StorageUnavailable" "st' = st" "w' = w"
  | (refused) e where "persistence_healthy st" "res = Inl (ServerLease e)" "st' = st" "w' = w"
  | (unchanged) p t where "persistence_healthy st" "res = Inr p" "st' = st" "w' = w"
      "rotate_claim (TokenId_from_token sha256 old) (TokenId_from_token sha256 new) now (st_leases st)
        = (Inr (Unchanged p), t)"
  | (moved) p t r where "persistence_healthy st"
      "rotate_claim (TokenId_from_token sha256 old) (TokenId_from_token sha256 new) now (st_leases st)
        = (Inr (Transferred p), t)"
      "save sj tf (st_store st) (snapshot now t) w = (r, w')"
      "res = (case r of Inl e \<Rightarrow> Inl (ServerStore e) | Inr _ \<Rightarrow> Inr (Some p))"
      "st' = (case r of Inl _ \<Rightarrow> st\<lparr>persistence_healthy := False\<rparr> | Inr _ \<Rightarrow> st\<lparr>st_leases := t\<rparr>)"
proof -
  obtain rr t where c: "rotate_claim (TokenId_from_token sha256 old) (TokenId_from_token sha256 new)
      now (st_leases st) = (rr, t)" by fastforce
  obtain r w1 where sv: "save sj tf (st_store st) (snapshot now t) w = (r, w1)" by fastforce
  consider (no) "\<not> persistence_healthy st" | (err) e where "persistence_healthy st" "rr = Inl e"
    | (same) p where "persistence_healthy st" "rr = Inr (Unchanged p)"
    | (new) p where "persistence_healthy st" "rr = Inr (Transferred p)"
    by (metis RotationResult.exhaust sum.exhaust)
  then show ?thesis
  proof cases
    case no
    show ?thesis by (rule unavailable) (use assms no in \<open>simp_all add: rotate_token_def\<close>)
  next
    case err
    show ?thesis by (rule refused [of e]) (use assms err c in \<open>simp_all add: rotate_token_def\<close>)
  next
    case same
    show ?thesis by (rule unchanged [of p t]) (use assms same c in \<open>simp_all add: rotate_token_def\<close>)
  next
    case new
    show ?thesis
      by (rule moved [of p t r])
        (use assms new c sv in \<open>simp_all add: rotate_token_def split: sum.splits\<close>)
  qed
qed

lemma recover_cases:
  assumes "recover sj tf sha256 secret new ip now st w = (res, st', w')"
  obtains (unavailable) "\<not> persistence_healthy st" "res = Inl StorageUnavailable" "st' = st" "w' = w"
  | (refused) e where "persistence_healthy st" "res = Inl (ServerLease e)" "st' = st" "w' = w"
  | (unchanged) rec t where "persistence_healthy st" "res = Inr (recovered_port rec, None)"
      "st' = st" "w' = w" "\<not> changed rec"
      "recover_claim (TokenId_from_token sha256 secret) (TokenId_from_token sha256 new) ip now
        (st_leases st) = (Inr rec, t)"
  | (moved) rec t r where "persistence_healthy st" "changed rec"
      "recover_claim (TokenId_from_token sha256 secret) (TokenId_from_token sha256 new) ip now
        (st_leases st) = (Inr rec, t)"
      "save sj tf (st_store st) (snapshot now t) w = (r, w')"
      "res = (case r of Inl e \<Rightarrow> Inl (ServerStore e) | Inr _ \<Rightarrow>
         Inr (recovered_port rec, fst (take_displaced (displaced rec) (active_connections st))))"
      "st' = (case r of Inl _ \<Rightarrow> st\<lparr>persistence_healthy := False\<rparr> | Inr _ \<Rightarrow>
         st\<lparr>st_leases := t,
            active_connections := snd (take_displaced (displaced rec) (active_connections st))\<rparr>)"
proof -
  obtain rr t where c: "recover_claim (TokenId_from_token sha256 secret)
      (TokenId_from_token sha256 new) ip now (st_leases st) = (rr, t)" by fastforce
  obtain r w1 where sv: "save sj tf (st_store st) (snapshot now t) w = (r, w1)" by fastforce
  consider (no) "\<not> persistence_healthy st" | (err) e where "persistence_healthy st" "rr = Inl e"
    | (same) rec where "persistence_healthy st" "rr = Inr rec" "\<not> changed rec"
    | (new) rec where "persistence_healthy st" "rr = Inr rec" "changed rec"
    by (metis sum.exhaust)
  then show ?thesis
  proof cases
    case no
    show ?thesis by (rule unavailable) (use assms no in \<open>simp_all add: recover_def\<close>)
  next
    case err
    show ?thesis by (rule refused [of e]) (use assms err c in \<open>simp_all add: recover_def\<close>)
  next
    case same
    show ?thesis by (rule unchanged [of rec t]) (use assms same c in \<open>simp_all add: recover_def\<close>)
  next
    case new
    show ?thesis
      by (rule moved [of rec t r])
        (use assms new c sv in \<open>simp_all add: recover_def case_prod_unfold split: sum.splits\<close>)
  qed
qed

lemma refresh_cases:
  assumes "refresh_and_save sj tf now st w = (res, st', w')"
  obtains r where
    "save sj tf (st_store st) (snapshot now (reap_expired now (st_leases st))) w = (r, w')"
    "st' = st\<lparr>st_leases := reap_expired now (st_leases st), persistence_healthy := is_ok r\<rparr>"
    "res = (case r of Inl e \<Rightarrow> Inl (ServerStore e) | Inr _ \<Rightarrow> Inr ())"
proof -
  obtain r w1 where sv: "save sj tf (st_store st) (snapshot now (reap_expired now (st_leases st))) w
      = (r, w1)" by fastforce
  show ?thesis
    by (rule that [of r])
      (use assms sv in \<open>simp_all add: refresh_and_save_def Let_def split: sum.splits\<close>)
qed

end
