(* ===== verification/Server_Invariant.thy ===== *)
theory Server_Invariant
  imports Server_State
begin

text \<open>
  The invariants of the relay's state over all runs: the lease table's invariant, the connections
  are those of the active sessions, all identities are 32 bytes, and, while persistence is healthy,
  every claim in memory is in the state file.
\<close>

section \<open>Identities of 32 bytes\<close>

definition entry_tokens_ok :: "TokenId \<times> Lease \<Rightarrow> bool" where
  "entry_tokens_ok e \<longleftrightarrow> token_ok (fst e) \<and> list_all token_ok (lease_retired_token_ids (snd e))
     \<and> (case lease_recovery_id (snd e) of None \<Rightarrow> True | Some k \<Rightarrow> token_ok k)"

definition tokens_inv :: "LeaseTable \<Rightarrow> bool" where
  "tokens_inv t \<longleftrightarrow> list_all entry_tokens_ok (leases t)"

lemma tokens_inv_entry: "tokens_inv t \<Longrightarrow> e \<in> set (leases t) \<Longrightarrow> entry_tokens_ok e"
  by (simp add: tokens_inv_def list_all_iff)

lemma tokens_inv_reap: "tokens_inv t \<Longrightarrow> tokens_inv (reap_expired now t)"
  by (simp add: tokens_inv_def list_all_iff reap_expired_filter)

lemma tokens_inv_put:
  "tokens_inv t \<Longrightarrow> entry_tokens_ok (k, l)
    \<Longrightarrow> tokens_inv (t\<lparr>leases := hm_insert k l (leases t), next_session_id := n\<rparr>)"
  by (auto simp: tokens_inv_def list_all_iff set_hm_insert)

lemma tokens_inv_move:
  "tokens_inv t \<Longrightarrow> entry_tokens_ok (k, l)
    \<Longrightarrow> tokens_inv (t\<lparr>leases := hm_insert k l (hm_remove old (leases t))\<rparr>)"
  by (auto simp: tokens_inv_def list_all_iff set_hm_insert set_hm_remove)

lemma activate_tokens:
  assumes "tokens_inv t" and "token_ok k" and "case r of None \<Rightarrow> True | Some x \<Rightarrow> token_ok x"
    and run: "activate_with_recovery k r ip p now t = (res, t')"
  shows "tokens_inv t'"
  using run
proof (cases rule: activate_with_recovery_cases)
  case (not_offered e)
  then show ?thesis using assms(1) by (simp add: tokens_inv_reap)
next
  case offered
  have u: "tokens_inv (reap_expired now t)" by (rule tokens_inv_reap [OF assms(1)])
  from offered(2) show ?thesis
  proof (cases rule: enroll_claim_cases)
    case (failed e)
    then show ?thesis using u by simp
  next
    case (enrolled n existing)
    have "entry_tokens_ok (k, l)" if "existing = Some l" for l
      using tokens_inv_entry [OF u hm_get_in_set] that enrolled(3) by simp
    then show ?thesis
      unfolding enrolled(6) using u assms(2,3)
      by (intro tokens_inv_put) (auto simp: entry_tokens_ok_def split: option.splits)
  qed
qed

lemma end_session_tokens:
  assumes "tokens_inv t" and "end_session k s now t = (b, t')"
  shows "tokens_inv t'"
proof (cases "hm_get (leases t) k")
  case (Some l)
  have e: "entry_tokens_ok (k, l)" by (rule tokens_inv_entry [OF assms(1) hm_get_in_set [OF Some]])
  have "tokens_inv (t\<lparr>leases := hm_insert k (l\<lparr>lease_status := x\<rparr>) (leases t),
      next_session_id := next_session_id t\<rparr>)" for x
    by (rule tokens_inv_put [OF assms(1)]) (use e in \<open>simp add: entry_tokens_ok_def\<close>)
  then show ?thesis using assms Some by (auto simp: end_session_def split: if_splits)
qed (use assms in \<open>simp add: end_session_def\<close>)

lemma rotate_tokens:
  assumes "tokens_inv t" and "token_ok old" and "token_ok new"
    and run: "rotate_claim old new now t = (res, t')"
  shows "tokens_inv t'"
  using run
proof (cases rule: rotate_claim_cases)
  case (moved u l x)
  have u: "tokens_inv u" using assms(1) moved(1) by (simp add: tokens_inv_reap)
  have "entry_tokens_ok (old, l)" by (rule tokens_inv_entry [OF u hm_get_in_set [OF moved(6)]])
  then show ?thesis
    unfolding moved(10) using u assms(2,3)
    by (intro tokens_inv_move) (simp_all add: entry_tokens_ok_def)
qed (simp add: assms(1) tokens_inv_reap)

lemma recover_tokens:
  assumes "tokens_inv t" and "token_ok new" and run: "recover_claim r new ip now t = (res, t')"
  shows "tokens_inv t'"
  using run
proof (cases rule: recover_claim_cases)
  case (moved u old l)
  have u: "tokens_inv u" using assms(1) moved(1) by (simp add: tokens_inv_reap)
  have "entry_tokens_ok (old, l)" by (rule tokens_inv_entry [OF u moved(2)])
  then show ?thesis
    unfolding moved(9) using u assms(2) set_push_retired [of "lease_retired_token_ids l" old]
    by (intro tokens_inv_move) (auto simp: entry_tokens_ok_def list_all_iff)
qed (simp_all add: assms(1) tokens_inv_reap)

lemma snapshot_tokens: "tokens_inv t \<Longrightarrow> list_all record_tokens_ok (snapshot now t)"
  by (auto simp: tokens_inv_def list_all_iff snapshot_def lease_record_def entry_tokens_ok_def
      record_tokens_ok_def)

lemma parse_token_ok: "parse_token hex = Inr k \<Longrightarrow> token_ok k"
proof -
  have "length bs = 32" if "parse_hex_32 hex = Inr bs" for bs
    using that list_all2_lengthD
    by (fastforce simp: parse_hex_32_def collect_results_Inr_iff split: if_splits
        simp del: upt_rec_numeral)
  then show "parse_token hex = Inr k \<Longrightarrow> token_ok k"
    by (auto simp: parse_token_def token_ok_def split: sum.splits)
qed

lemma into_record_tokens: "into_record p = Inr r \<Longrightarrow> record_tokens_ok r"
proof -
  have all: "list_all token_ok ks" if "collect_results parse_token hs = Inr ks" for hs ks
    using that parse_token_ok
    by (auto simp: collect_results_Inr_iff list_all_iff list_all2_conv_all_nth in_set_conv_nth) fastforce
  show "into_record p = Inr r \<Longrightarrow> record_tokens_ok r"
    by (auto simp: into_record_def record_tokens_ok_def all parse_token_ok
        split: if_splits sum.splits option.splits)
qed

lemma restored_tokens:
  "list_all record_tokens_ok rs \<Longrightarrow> tokens_inv (restored_table rs now)"
  by (auto simp: tokens_inv_def list_all_iff restored_table_def entry_of_record_def lease_of_record_def
      entry_tokens_ok_def record_tokens_ok_def)

section \<open>The claims in the state file\<close>

definition disk_records :: "'json serde_json \<Rightarrow> World \<Rightarrow> path \<Rightarrow> LeaseRecord list option" where
  "disk_records sj w p =
     (case lookup_followed w p of
        Inr (_, Regular bytes _) \<Rightarrow>
          (case from_slice sj bytes of
             Inr json \<Rightarrow>
               (case from_value_v2 sj json of
                  Inr v \<Rightarrow>
                    (case collect_results into_record (pv_leases v) of
                       Inr rs \<Rightarrow> Some rs | Inl _ \<Rightarrow> None)
                | Inl _ \<Rightarrow> None)
           | Inl _ \<Rightarrow> None)
      | _ \<Rightarrow> None)"

text \<open>A claim in memory and its record in the file: everything but the time of expiry.\<close>

definition claim_recorded :: "TokenId \<times> Lease \<Rightarrow> LeaseRecord \<Rightarrow> bool" where
  "claim_recorded e r \<longleftrightarrow> rec_token_id r = fst e \<and> rec_port r = lease_port (snd e)
     \<and> rec_retired_token_ids r = lease_retired_token_ids (snd e)
     \<and> rec_recovery_id r = lease_recovery_id (snd e) \<and> rec_last_ip r = lease_last_ip (snd e)"

definition durable :: "'json serde_json \<Rightarrow> path \<Rightarrow> LeaseTable \<Rightarrow> World \<Rightarrow> bool" where
  "durable sj p t w \<longleftrightarrow> (\<forall>e \<in> set (leases t).
     \<exists>rs. disk_records sj w p = Some rs \<and> (\<exists>r \<in> set rs. claim_recorded e r))"

lemma durable_subset: "durable sj p t w \<Longrightarrow> set (leases t') \<subseteq> set (leases t) \<Longrightarrow> durable sj p t' w"
  by (auto simp: durable_def)

lemma lookup_nodes: "nodes w' = nodes w \<Longrightarrow> lookup_followed w' p = lookup_followed w p"
  unfolding lookup_followed_def by (simp only:)

lemma disk_records_nodes:
  assumes "nodes w' = nodes w"
  shows "disk_records sj w' p = disk_records sj w p"
  unfolding disk_records_def lookup_nodes [OF assms] ..

lemma durable_nodes:
  assumes "durable sj p t w" and "nodes w' = nodes w"
  shows "durable sj p t w'"
  using assms(1) unfolding durable_def disk_records_nodes [OF assms(2)] .

lemma save_disk_records:
  assumes sj: "serde_json_spec sj" and tf: "tempfile_spec tf" and p: "\<not> temp_name (store_path store)"
    and ok: "list_all record_tokens_ok rs" and run: "save sj tf store rs w = (Inr u, w')"
  shows "disk_records sj w' (store_path store) = Some (sort_key rec_port rs)"
proof -
  obtain bytes where b: "to_vec_pretty sj (persisted_form rs) = Inr bytes"
    and v: "visible w' = (visible w)(store_path store \<mapsto> Regular bytes OWNER_ONLY)"
    by (rule save_cases [OF tf p run]) auto
  have "nodes w' (store_path store) = Some (Regular bytes OWNER_ONLY)"
    using v not_temp_visible [OF p, of w'] by simp
  moreover obtain json where "from_slice sj bytes = Inr json"
    "from_value_v2 sj json = Inr (persisted_form rs)"
    using serde_json_spec.state_roundtrip [OF sj b] by blast
  moreover have "collect_results into_record (pv_leases (persisted_form rs)) = Inr (sort_key rec_port rs)"
    unfolding persisted_form_sorted using ok
    by (auto simp: list_all_iff intro!: stored_lease.collect_dec_enc)
  ultimately show ?thesis by (simp add: disk_records_def)
qed

lemma save_durable:
  assumes "serde_json_spec sj" and "tempfile_spec tf" and "\<not> temp_name (store_path store)"
    and "tokens_inv t" and "save sj tf store (snapshot now t) w = (Inr u, w')"
  shows "durable sj (store_path store) t w'"
  using save_disk_records [OF assms(1-3) snapshot_tokens [OF assms(4)] assms(5)]
  by (auto simp: durable_def snapshot_def claim_recorded_def lease_record_def)

section \<open>What a start finds\<close>

definition sha_ok :: "(u8 list \<Rightarrow> u8 list) \<Rightarrow> bool" where
  "sha_ok sha256 \<longleftrightarrow> (\<forall>x. length (sha256 x) = 32)"

lemma token_id_ok: "sha_ok sha256 \<Longrightarrow> token_ok (TokenId_from_token sha256 x)"
  by (simp add: sha_ok_def token_ok_def TokenId_from_token_def)

definition loaded_ok :: "'json serde_json \<Rightarrow> path \<Rightarrow> LeaseTable \<Rightarrow> World \<Rightarrow> bool" where
  "loaded_ok sj p t w \<longleftrightarrow> lease_inv t \<and> (\<forall>k. active_session t k = None) \<and> tokens_inv t \<and> durable sj p t w"

lemma loaded_ok_new: "loaded_ok sj p LeaseTable_new w"
  using lease_inv_new
  by (simp add: loaded_ok_def tokens_inv_def durable_def LeaseTable_new_def active_session_def hm_get_def)

lemma restored_table_ok:
  assumes "restore rs now = Inr t" and "list_all record_tokens_ok rs"
  shows "lease_inv t" and "active_session t k = None" and "tokens_inv t"
  using assms by (simp_all add: restore_eq_iff lease_inv_restored restored_active_session restored_tokens)

lemma migrated_ok:
  assumes "migrate_legacy sha256 legacy now = Inr t" and "sha_ok sha256"
  shows "lease_inv t" and "active_session t k = None" and "tokens_inv t"
proof -
  obtain rs where rs: "migrate_loop sha256 now (token_ports legacy) {} {} [] = Inr rs"
    and t: "restore rs now = Inr t"
    using assms(1) by (auto simp: migrate_legacy_def map_err_def split: if_splits sum.splits)
  have "record_tokens_ok r" if "r \<in> set rs" for r
    using migrate_loop_records [OF rs] that token_id_ok [OF assms(2)]
    by (auto simp: list_all2_conv_all_nth in_set_conv_nth record_tokens_ok_def)
  then have "list_all record_tokens_ok rs" by (simp add: list_all_iff)
  from restored_table_ok [OF t this]
  show "lease_inv t" and "active_session t k = None" and "tokens_inv t" by blast+
qed

lemma load_legacy_ok:
  assumes "serde_json_spec sj" and "tempfile_spec tf" and "\<not> temp_name (store_path store)"
    and "sha_ok sha256" and "load_legacy sj tf sha256 store json bytes now w = (Inr (store', t), w')"
  shows "store' = store" and "loaded_ok sj (store_path store) t w'"
proof -
  obtain legacy w1 u where m: "migrate_legacy sha256 legacy now = Inr t" and "store' = store"
    and sv: "save sj tf store (snapshot now t) w1 = (Inr u, w')"
    using assms(5) by (auto simp: load_legacy_def io_iffs)
  note ok = migrated_ok [OF m assms(4)]
  show "store' = store" by fact
  show "loaded_ok sj (store_path store) t w'"
    using ok save_durable [OF assms(1-3) ok(3) sv] by (simp add: loaded_ok_def)
qed

lemma load_v2_ok:
  assumes "load_v2 sj store json now = Inr (store', t)"
    and read_file: "nodes w' = nodes w" "fs_read p w0 = (Inr bytes, w)" "nodes w = nodes w0"
      "from_slice sj bytes = Inr json"
  shows "store' = store" and "loaded_ok sj p t w'"
proof -
  obtain v rs where v: "from_value_v2 sj json = Inr v"
    and rs: "collect_results into_record (pv_leases v) = Inr rs"
    and t: "restore rs now = Inr t" and st: "store' = store"
    using assms(1) by (auto simp: load_v2_def split: sum.splits if_splits)
  have "list_all record_tokens_ok rs"
    using rs into_record_tokens
    by (auto simp: collect_results_Inr_iff list_all_iff list_all2_conv_all_nth in_set_conv_nth) blast
  note ok = restored_table_ok [OF t this]
  obtain q m where "lookup_followed w0 p = Inr (q, Regular bytes m)"
    using read_file(2) by (auto simp: fs_read_def sys_call_def split: list.splits fault.splits
        sum.splits prod.splits node.splits)
  then have "lookup_followed w' p = Inr (q, Regular bytes m)"
    using lookup_nodes [of w' w0 p] read_file(1,3) by simp
  then have disk: "disk_records sj w' p = Some rs"
    using read_file(4) v rs by (simp add: disk_records_def)
  have "\<exists>r \<in> set rs. claim_recorded e r" if "e \<in> set (leases t)" for e
    using that t by (auto simp: restore_eq_iff restored_table_def entry_of_record_def
        lease_of_record_def claim_recorded_def)
  then have "durable sj p t w'" using disk by (auto simp: durable_def)
  then show "store' = store" and "loaded_ok sj p t w'"
    using st ok by (simp_all add: loaded_ok_def)
qed

lemma load_or_create_ok:
  assumes sj: "serde_json_spec sj" and tf: "tempfile_spec tf" and p: "\<not> temp_name p"
    and sha: "sha_ok sha256" and run: "load_or_create sj tf sha256 p now w = (Inr (store, t), w')"
  shows "store_path store = p" and "loaded_ok sj p t w'"
proof -
  let ?s = "\<lparr>store_path = p\<rparr>"
  obtain r1 w1 where md: "fs_metadata p w = (r1, w1)" by fastforce
  have n1: "nodes w1 = nodes w" by (rule read_onlyD [OF read_only_primitives(1) md])
  have "store_path store = p \<and> loaded_ok sj p t w'"
  proof (cases r1)
    case (Inl e)
    then have "store = ?s" "t = LeaseTable_new"
      using run md by (auto simp: load_or_create_def Let_def split: io_error.splits)
    then show ?thesis by (simp add: loaded_ok_new)
  next
    case (Inr n)
    obtain bytes w2 json where rd: "fs_read p w1 = (Inr bytes, w2)"
      and js: "from_slice sj bytes = Inr json"
      and rest: "(if get_version sj json then io_result (load_v2 sj ?s json now)
        else load_legacy sj tf sha256 ?s json bytes now) w2 = (Inr (store, t), w')"
      using run md Inr
      by (auto simp: load_or_create_def Let_def io_iffs eq_commute [of "Inr _" "map_err _ _"] map_err_Inr_iff split: if_splits)
    have n2: "nodes w2 = nodes w1" by (rule read_onlyD [OF read_only_primitives(3) rd])
    show ?thesis
    proof (cases "get_version sj json")
      case True
      then have "load_v2 sj ?s json now = Inr (store, t)" "w' = w2"
        using rest by (simp_all add: io_result_def)
      then show ?thesis using load_v2_ok [OF _ _ rd n2 js, of ?s now store t w'] by simp
    next
      case False
      then have "load_legacy sj tf sha256 ?s json bytes now w2 = (Inr (store, t), w')"
        using rest by simp
      from load_legacy_ok [OF sj tf _ sha this] p show ?thesis by simp
    qed
  qed
  then show "store_path store = p" and "loaded_ok sj p t w'" by blast+
qed

section \<open>The machine\<close>

definition server_inv :: "'json serde_json \<Rightarrow> path \<Rightarrow> 'c ServerState \<times> World \<Rightarrow> bool" where
  "server_inv sj p s \<longleftrightarrow> state_inv (fst s) \<and> tokens_inv (st_leases (fst s))
     \<and> store_path (st_store (fst s)) = p
     \<and> (persistence_healthy (fst s) \<longrightarrow> durable sj p (st_leases (fst s)) (snd s))"

text \<open>
  The relay starts from any file system. Its handlers run one at a time, under the mutex of the
  state, in any order and with any arguments; from time to time other system calls start to fail.
\<close>

definition server_start ::
  "'json serde_json \<Rightarrow> tempfile \<Rightarrow> (u8 list \<Rightarrow> u8 list) \<Rightarrow> path \<Rightarrow> 'c ServerState \<times> World \<Rightarrow> bool"
where
  "server_start sj tf sha256 p s \<longleftrightarrow>
     (\<exists>now w. load_or_new sj tf sha256 p now w = (Inr (fst s), snd s))"

inductive server_step ::
  "'json serde_json \<Rightarrow> tempfile \<Rightarrow> (u8 list \<Rightarrow> u8 list) \<Rightarrow> 'c ServerState \<times> World
    \<Rightarrow> 'c ServerState \<times> World \<Rightarrow> bool"
  for sj :: "'json serde_json" and tf :: tempfile and sha256 :: "u8 list \<Rightarrow> u8 list" where
  server_registers:
    "register_with_recovery sj tf sha256 bind token r ip now (Some c) st w
       = (res :: (server_error, u16 Registration) result, st', w')
     \<Longrightarrow> (case r of None \<Rightarrow> True | Some x \<Rightarrow> length x = 32)
     \<Longrightarrow> server_step sj tf sha256 (st, w) (st', w')"
| server_ends: "end_registration sj tf k sid now st w = (rb, st', w')
     \<Longrightarrow> server_step sj tf sha256 (st, w) (st', w')"
| server_rotates: "rotate_token sj tf sha256 old new now st w = (rp, st', w')
     \<Longrightarrow> server_step sj tf sha256 (st, w) (st', w')"
| server_recovers: "recover sj tf sha256 secret new ip now st w = (rc, st', w')
     \<Longrightarrow> server_step sj tf sha256 (st, w) (st', w')"
| server_refreshes: "refresh_and_save sj tf now st w = (ru, st', w')
     \<Longrightarrow> server_step sj tf sha256 (st, w) (st', w')"
| server_faults: "server_step sj tf sha256 (st, w) (st, w\<lparr>faults := fs\<rparr>)"

section \<open>Every handler keeps the invariant\<close>

lemma server_invD:
  assumes "server_inv sj p (st, w)"
  shows "lease_inv (st_leases st)" and "conns_ok (st_leases st) (active_connections st)"
    and "tokens_inv (st_leases st)" and "store_path (st_store st) = p"
    and "persistence_healthy st \<Longrightarrow> durable sj p (st_leases st) w"
  using assms by (auto simp: server_inv_def state_inv_def)

lemma durable_reap: "durable sj p t w \<Longrightarrow> durable sj p (reap_expired now t) w"
  by (erule durable_subset) (simp add: reap_expired_filter)

lemma conns_ok_insert:
  assumes "conns_ok t m" and "\<And>k'. active_session t' k' = (if k' = k then Some s else active_session t k')"
  shows "conns_ok t' (hm_insert k (s, c) m)"
  using assms by (simp add: conns_ok_def hm.get_put)

lemma conns_ok_remove:
  assumes "conns_ok t m" and "\<And>k'. active_session t' k' = (if k' = k then None else active_session t k')"
  shows "conns_ok t' (hm_remove k m)"
  using assms by (simp add: conns_ok_def hm.get_remove)

lemma register_inv:
  assumes spec: "serde_json_spec sj" "tempfile_spec tf" "\<not> temp_name p" "sha_ok sha256"
    and inv: "server_inv sj p (st, w)"
    and run: "register_with_recovery sj tf sha256 bind token r ip now (Some c) st w = (res, st', w')"
    and r: "case r of None \<Rightarrow> True | Some x \<Rightarrow> length x = 32"
  shows "server_inv sj p (st', w')"
proof -
  note d = server_invD [OF inv]
  let ?k = "TokenId_from_token sha256 token" and ?u = "reap_expired now (st_leases st)"
  have u: "lease_inv ?u" "conns_ok ?u (active_connections st)" "tokens_inv ?u"
    using d by (simp_all add: reap_expired_inv tokens_inv_reap)
  have rid: "case map_option TokenId r of None \<Rightarrow> True | Some x \<Rightarrow> token_ok x"
    using r by (cases r) (simp_all add: token_ok_def)
  show ?thesis
    using run
  proof (cases rule: register_cases)
    case unavailable
    then show ?thesis using inv by simp
  next
    case (refused e)
    then show ?thesis using u d durable_reap by (simp add: server_inv_def state_inv_def)
  next
    case (save_failed e s q staged)
    then show ?thesis using u d by (simp add: server_inv_def state_inv_def)
  next
    case (registered taken q rest listener s staged x)
    have t: "lease_inv staged" "tokens_inv staged"
      using activate_with_recovery_inv [OF u(1) registered(5)]
        activate_tokens [OF u(3) token_id_ok [OF spec(4)] rid registered(5)] by blast+
    have c: "conns_ok staged (hm_insert ?k (s, c) (active_connections st))"
      by (rule conns_ok_insert [OF u(2) activate_active_session [OF u(1) registered(5)]])
    have "durable sj p staged w'"
      using save_durable [OF spec(1,2) _ t(2) registered(6)] d(4) spec(3) by simp
    then show ?thesis using t c d(4) registered(8) by (simp add: server_inv_def state_inv_def)
  qed
qed

lemma end_registration_inv:
  assumes spec: "serde_json_spec sj" "tempfile_spec tf" "\<not> temp_name p"
    and inv: "server_inv sj p (st, w)" and run: "end_registration sj tf k s now st w = (res, st', w')"
  shows "server_inv sj p (st', w')"
  using run
proof (cases rule: end_registration_cases)
  case stale
  then show ?thesis using inv by simp
next
  case (ended t r)
  note d = server_invD [OF inv]
  have t: "lease_inv t" "tokens_inv t"
    using end_session_inv [OF d(1) ended(1)] end_session_tokens [OF d(3) ended(1)] by blast+
  have "map_option fst (hm_get (active_connections st) k) = Some s"
    using d(2) end_session_active_session(1) [OF ended(1)] by (simp add: conns_ok_def)
  then have conns: "active_connections st' = hm_remove k (active_connections st)"
    using ended(3) by (auto split: option.splits)
  have c: "conns_ok t (hm_remove k (active_connections st))"
    by (rule conns_ok_remove [OF d(2) end_session_active_session(2) [OF ended(1)]])
  have "durable sj p t w'" if "is_ok r"
    using that save_durable [OF spec(1,2) _ t(2), of "st_store st" now w _ w'] ended(2) d(4) spec(3)
    by (auto simp: is_ok_iff)
  then show ?thesis
    using t c conns d(4) ended(3) by (simp add: server_inv_def state_inv_def)
qed

lemma rotate_inv:
  assumes spec: "serde_json_spec sj" "tempfile_spec tf" "\<not> temp_name p" "sha_ok sha256"
    and inv: "server_inv sj p (st, w)" and run: "rotate_token sj tf sha256 old new now st w = (res, st', w')"
  shows "server_inv sj p (st', w')"
  using run
proof (cases rule: rotate_cases)
  case (moved q t r)
  note d = server_invD [OF inv]
  have t: "lease_inv t" "tokens_inv t"
    using rotate_claim_inv [OF d(1) moved(2)]
      rotate_tokens [OF d(3) token_id_ok [OF spec(4)] token_id_ok [OF spec(4)] moved(2)] by blast+
  have c: "conns_ok t (active_connections st)"
    using d(2) rotate_claim_active_session [OF d(1) moved(2)] by (simp add: conns_ok_def)
  show ?thesis
  proof (cases r)
    case (Inl e)
    then show ?thesis using d moved(5) by (simp add: server_inv_def state_inv_def)
  next
    case (Inr x)
    have "durable sj p t w'"
      using save_durable [OF spec(1,2) _ t(2) moved(3) [unfolded Inr]] d(4) spec(3) by simp
    then show ?thesis using t c d(4) moved(5) Inr by (simp add: server_inv_def state_inv_def)
  qed
qed (use inv in simp_all)

text \<open>The entry found for a displaced host is always its session: the last branch is dead.\<close>

lemma take_displaced_conns:
  assumes "conns_ok t m" and "displaced_host = map_option (Pair old) (active_session t old)"
  shows "take_displaced displaced_host m = (map_option snd (hm_get m old), hm_remove old m)"
proof -
  have old: "map_option fst (hm_get m old) = active_session t old"
    using assms(1) by (simp add: conns_ok_def)
  show ?thesis
  proof (cases "hm_get m old")
    case None
    then have "displaced_host = None" using old assms(2) by simp
    then show ?thesis using None by (simp add: take_displaced_def hm_remove_absent)
  next
    case (Some e)
    then have "displaced_host = Some (old, fst e)" using old assms(2) by simp
    then show ?thesis using Some by (simp add: take_displaced_def case_prod_unfold)
  qed
qed

lemma recover_inv:
  assumes spec: "serde_json_spec sj" "tempfile_spec tf" "\<not> temp_name p" "sha_ok sha256"
    and inv: "server_inv sj p (st, w)"
    and run: "recover sj tf sha256 secret new ip now st w = (res, st', w')"
  shows "server_inv sj p (st', w')"
  using run
proof (cases rule: recover_cases)
  case (moved rec t r)
  note d = server_invD [OF inv]
  have t: "lease_inv t" "tokens_inv t"
    using recover_claim_inv [OF d(1) moved(3)]
      recover_tokens [OF d(3) token_id_ok [OF spec(4)] moved(3)] by blast+
  obtain old l where old: "displaced rec = map_option (Pair old) (active_session (st_leases st) old)"
    "\<And>k. active_session t k = (if k = old then None else active_session (st_leases st) k)"
    using recover_claim_active_session [OF d(1) moved(3,2)] by metis
  have c: "conns_ok t (snd (take_displaced (displaced rec) (active_connections st)))"
    using take_displaced_conns [OF d(2) old(1)] conns_ok_remove [OF d(2) old(2)] by simp
  show ?thesis
  proof (cases r)
    case (Inl e)
    then show ?thesis using d moved(6) by (simp add: server_inv_def state_inv_def)
  next
    case (Inr x)
    have "durable sj p t w'"
      using save_durable [OF spec(1,2) _ t(2) moved(4) [unfolded Inr]] d(4) spec(3) by simp
    then show ?thesis using t c d(4) moved(6) Inr by (simp add: server_inv_def state_inv_def)
  qed
qed (use inv in simp_all)

lemma refresh_inv:
  assumes spec: "serde_json_spec sj" "tempfile_spec tf" "\<not> temp_name p"
    and inv: "server_inv sj p (st, w)" and run: "refresh_and_save sj tf now st w = (res, st', w')"
  shows "server_inv sj p (st', w')"
  using run
proof (cases rule: refresh_cases)
  case (1 r)
  note d = server_invD [OF inv]
  let ?u = "reap_expired now (st_leases st)"
  have u: "lease_inv ?u" "conns_ok ?u (active_connections st)" "tokens_inv ?u"
    using d by (simp_all add: reap_expired_inv tokens_inv_reap)
  have "durable sj p ?u w'" if "is_ok r"
    using that save_durable [OF spec(1,2) _ u(3), of "st_store st" now w _ w'] 1(1) d(4) spec(3)
    by (auto simp: is_ok_iff)
  then show ?thesis using u d(4) 1(2) by (simp add: server_inv_def state_inv_def)
qed

lemma server_step_inv:
  assumes spec: "serde_json_spec sj" "tempfile_spec tf" "\<not> temp_name p" "sha_ok sha256"
    and "server_step sj tf sha256 s s'" and inv: "server_inv sj p s"
  shows "server_inv sj p s'"
  using assms(5)
proof (cases rule: server_step.cases)
  case (server_registers bind token r ip now c st w res st' w')
  then show ?thesis using register_inv [OF spec _ server_registers(3,4)] inv by simp
next
  case (server_ends k sid now st w rb st' w')
  then show ?thesis using end_registration_inv [OF spec(1-3)] inv by blast
next
  case (server_rotates old new now st w rp st' w')
  then show ?thesis using rotate_inv [OF spec] inv by blast
next
  case (server_recovers secret new ip now st w rc st' w')
  then show ?thesis using recover_inv [OF spec] inv by blast
next
  case (server_refreshes now st w ru st' w')
  then show ?thesis using refresh_inv [OF spec(1-3)] inv by blast
next
  case (server_faults st w fs)
  then show ?thesis using inv durable_nodes [of sj p _ w "w\<lparr>faults := fs\<rparr>"] by (auto simp: server_inv_def)
qed

lemma server_start_inv:
  assumes spec: "serde_json_spec sj" "tempfile_spec tf" "\<not> temp_name p" "sha_ok sha256"
    and "server_start sj tf sha256 p s"
  shows "server_inv sj p s"
proof -
  obtain now w store t where l: "load_or_create sj tf sha256 p now w = (Inr (store, t), snd s)"
    and st: "fst s = \<lparr>st_leases = t, st_store = store, persistence_healthy = True,
      active_connections = []\<rparr>"
    using assms(5) by (auto simp: server_start_def load_or_new_def io_iffs)
  note ok = load_or_create_ok [OF spec l]
  then show ?thesis
    using st by (simp add: server_inv_def state_inv_def loaded_ok_def conns_ok_def hm_get_def)
qed

text \<open>The contract of the parameters, and the relay as a system with this invariant.\<close>

definition server_env :: "'json serde_json \<Rightarrow> tempfile \<Rightarrow> (u8 list \<Rightarrow> u8 list) \<Rightarrow> path \<Rightarrow> bool" where
  "server_env sj tf sha256 p \<longleftrightarrow> serde_json_spec sj \<and> tempfile_spec tf \<and> sha_ok sha256 \<and> \<not> temp_name p"

abbreviation server_reachable where
  "server_reachable sj tf sha256 p \<equiv>
     reachable_by (server_start sj tf sha256 p) (server_step sj tf sha256)"

lemma server_invariant_system:
  assumes "server_env sj tf sha256 p"
  shows "invariant_system (server_start sj tf sha256 p) (server_step sj tf sha256) (server_inv sj p)"
proof
  fix s assume "server_start sj tf sha256 p s"
  then show "server_inv sj p s"
    using assms server_start_inv unfolding server_env_def by blast
next
  fix s s' assume "server_step sj tf sha256 s s'" "server_inv sj p s"
  then show "server_inv sj p s'"
    using assms server_step_inv unfolding server_env_def by blast
qed

lemmas server_reachable_inv = invariant_system.invar_reachable [OF server_invariant_system]

end
