(* ===== verification/Lease_Properties.thy ===== *)
theory Lease_Properties
  imports Lease_System
begin

text \<open>
  The properties of the lease table, each with an instance on a concrete run. First the facts they
  share: what a lookup gives after expired claims are gone, how many ports are free, and the small
  tables of the instances.
\<close>

section \<open>Shared facts\<close>

lemma get_reap [table_simps]:
  assumes "lease_inv t"
  shows "hm_get (leases (reap_expired now t)) k =
    (case hm_get (leases t) k of
       None \<Rightarrow> None | Some l \<Rightarrow> if lease_expired now l then None else Some l)"
  using hm.get_retain [OF lease_inv_wf [OF assms]] by (auto simp: reap_expired_def split: option.split)

lemma reap_Active:
  "lease_inv t \<Longrightarrow> hm_get (leases t) k = Some l \<Longrightarrow> lease_status l = Active s
    \<Longrightarrow> hm_get (leases (reap_expired now t)) k = Some l"
  by (simp add: get_reap lease_expired_def)

lemma length_free_ports:
  assumes "lease_inv t"
  shows "length (free_ports t) + length (leases t) = 1000"
proof -
  let ?used = "\<lambda>p. p \<in> set (map lease_port (hm_values (leases t)))"
  have ports: "map lease_port (hm_values (leases t)) = map (lease_port \<circ> snd) (leases t)"
    by (simp add: hm_values_def)
  have dist: "distinct (map (lease_port \<circ> snd) (leases t))"
    using assms by (simp add: lease_inv_def compatible_distinct_ports)
  have "set (filter ?used port_range) = set (map (lease_port \<circ> snd) (leases t))"
    unfolding ports using lease_inv_entry [OF assms] by (auto simp: in_port_range entry_ok_def)
  then have "length (filter ?used port_range) = length (leases t)"
    using distinct_card [OF dist] distinct_card [OF distinct_filter [OF distinct_port_range]]
    by (metis length_map)
  then show ?thesis
    using sum_length_filter_compl [of ?used port_range] length_port_range
    by (simp add: free_ports_def Let_def)
qed

lemma sorted_port_range: "sorted_wrt (<) port_range"
proof -
  have "sorted_wrt (\<lambda>m n. (of_nat m :: u16) < of_nat n) [10000 ..< 11000]"
  proof (rule sorted_wrt_mono_rel [OF _ sorted_wrt_upt])
    fix m n :: nat
    assume "n \<in> set [10000 ..< 11000]" and "m < n"
    then have "m < 11000" "n < 11000" "m < n" unfolding set_upt by simp_all
    then show "(of_nat m :: u16) < of_nat n" by (simp add: word_less_nat_alt unat_of_nat)
  qed
  then show ?thesis unfolding port_range_eq sorted_wrt_map .
qed

lemma in_free_ports_owner:
  assumes "lease_inv t"
  shows "p \<in> set (free_ports t) \<longleftrightarrow> p \<in> set port_range \<and> owner_of t p = None"
proof -
  have "owner_of t p = None \<longleftrightarrow> p \<notin> lease_port ` snd ` set (leases t)"
    using owner_of_iff [OF assms, of p] by (cases "owner_of t p") (force simp: image_iff)+
  then show ?thesis by (simp add: in_free_ports in_port_range hm_values_def image_image)
qed

text \<open>The identities, networks and tables of the instances.\<close>

definition host_a :: TokenId where "host_a = TokenId [1]"
definition host_b :: TokenId where "host_b = TokenId [2]"
definition key_a :: TokenId where "key_a = TokenId [9]"

definition table_a :: LeaseTable where
  "table_a = snd (activate_with_recovery host_a (Some key_a) (V4 1) 10000 100 LeaseTable_new)"

definition table_ab :: LeaseTable where
  "table_ab = snd (activate_with_recovery host_b None (V4 2) 10001 100 table_a)"

definition table_a_grace :: LeaseTable where
  "table_a_grace = snd (end_session host_a (SessionId 1) 200 table_a)"

lemma lease_reachable_new: "lease_reachable LeaseTable_new"
  by (rule reachable_by.reach_start) simp

lemma lease_reachable_op: "lease_reachable t \<Longrightarrow> lease_op_step t t' \<Longrightarrow> lease_reachable t'"
  by (blast intro: reachable_by.reach_step step_op)

lemma lease_reachable_examples:
  "lease_reachable table_a" "lease_reachable table_ab" "lease_reachable table_a_grace"
proof -
  show a: "lease_reachable table_a"
    unfolding table_a_def by (rule lease_reachable_op [OF lease_reachable_new]) (metis prod.collapse step_activate)
  show "lease_reachable table_ab"
    unfolding table_ab_def by (rule lease_reachable_op [OF a]) (metis prod.collapse step_activate)
  show "lease_reachable table_a_grace"
    unfolding table_a_grace_def by (rule lease_reachable_op [OF a]) (metis prod.collapse step_end)
qed

lemma reachable_inv: "lease_reachable t \<Longrightarrow> lease_inv t"
  using table.invar_reachable by blast

lemma owner_not_retired:
  assumes inv: "lease_inv t" and g: "hm_get (leases t) k = Some l"
  shows "\<not> is_retired k t"
proof -
  have "k \<notin> set (lease_retired_token_ids (snd e))" if "e \<in> set (leases t)" for e
    using lease_inv_pair [OF inv hm_get_in_set [OF g] that] lease_inv_entry [OF inv that]
    by (cases "e = (k, l)") (auto simp: entries_compatible_def entry_ok_def)
  then show ?thesis by (auto simp: is_retired_iff)
qed

text \<open>An unexpired claim in its grace period is offered to its owner, and only to its owner.\<close>

lemma grace_claim_offered:
  assumes "lease_inv t" and "hm_get (leases t) k = Some l" and "lease_status l = Grace x"
    and "now < x" and "lease_source l = Some (host_source_from ip)"
  shows "fst (candidate_ports k ip now t) = Inr [lease_port l]"
proof -
  have g: "hm_get (leases (reap_expired now t)) k = Some l"
    using assms(2-4) by (simp add: get_reap [OF assms(1)] lease_expired_def)
  have "\<not> is_retired k (reap_expired now t)"
    by (rule owner_not_retired [OF reap_expired_inv [OF assms(1)] g])
  then show ?thesis
    using g assms(3,5) by (simp add: candidate_ports_def Let_def check_ip_quota_def)
qed

lemma offered_owner:
  assumes "lease_inv t" and "fst (candidate_ports k ip now t) = Inr ports" and "p \<in> set ports"
  shows "p \<in> set port_range"
    and "owner_of (reap_expired now t) p = None \<or> owner_of (reap_expired now t) p = Some k"
proof -
  let ?t = "reap_expired now t"
  have inv: "lease_inv ?t" by (rule reap_expired_inv [OF assms(1)])
  have off: "port_offered k ip p ?t"
    using candidate_ports_offered(2) [of k ip now t ports ?t p] assms(2,3) snd_candidate_ports
    by (metis prod.collapse)
  show "p \<in> set port_range" and "owner_of ?t p = None \<or> owner_of ?t p = Some k"
  proof (atomize (full), cases "hm_get (leases ?t) k")
    case None
    then show "p \<in> set port_range \<and> (owner_of ?t p = None \<or> owner_of ?t p = Some k)"
      using off in_free_ports_owner [OF inv] by (simp add: port_offered_def)
  next
    case (Some l)
    then show "p \<in> set port_range \<and> (owner_of ?t p = None \<or> owner_of ?t p = Some k)"
      using off owner_of_get [OF inv] lease_inv_entry [OF inv hm_get_in_set [OF Some]]
      by (simp add: port_offered_def in_port_range entry_ok_def)
  qed
qed

section \<open>Ownership\<close>

text \<open>
  C1: in every reachable lease table, two different identities with a claim have different ports,
  never share an enrolled recovery key and never share a session; every claimed port lies in the
  public range 10000 to 10999.
\<close>

theorem reachable_claims_exclusive:
  assumes "lease_reachable t" and "hm_get (leases t) k = Some l" and "hm_get (leases t) k' = Some l'"
    and "k \<noteq> k'"
  shows "lease_port l \<noteq> lease_port l' \<and> PORT_START \<le> lease_port l \<and> lease_port l \<le> PORT_END
    \<and> (lease_recovery_id l = None \<or> lease_recovery_id l \<noteq> lease_recovery_id l')
    \<and> (active_session t k = None \<or> active_session t k \<noteq> active_session t k')"
proof -
  have inv: "lease_inv t" by (rule reachable_inv [OF assms(1)])
  have "entries_compatible (k, l) (k', l')"
    using lease_inv_other [OF inv hm_get_in_set [OF assms(2)] hm_get_in_set [OF assms(3)]] assms(4)
    by simp
  then show ?thesis
    using lease_inv_entry [OF inv hm_get_in_set [OF assms(2)]] assms(2,3)
    by (auto simp: entries_compatible_def entry_ok_def active_session_def split: LeaseStatus.splits)
qed

theorem reachable_claims_exclusive_witness:
  "lease_reachable table_ab \<and> hm_get (leases table_ab) host_a \<noteq> None
    \<and> hm_get (leases table_ab) host_b \<noteq> None
    \<and> (case (hm_get (leases table_ab) host_a, hm_get (leases table_ab) host_b) of
         (Some l, Some l') \<Rightarrow> lease_port l \<noteq> lease_port l' | _ \<Rightarrow> False)"
proof -
  have "hm_get (leases table_ab) host_a \<noteq> None" "hm_get (leases table_ab) host_b \<noteq> None"
    by code_simp+
  then obtain l l' where l: "hm_get (leases table_ab) host_a = Some l"
    "hm_get (leases table_ab) host_b = Some l'" by blast
  have "host_a \<noteq> host_b" by code_simp
  from reachable_claims_exclusive [OF lease_reachable_examples(2) l this] show ?thesis
    using lease_reachable_examples(2) l by simp
qed

text \<open>
  C14: in every reachable lease table, at most 1000 claims exist, no network holds more than two of
  them, every claim remembers at most eight retired identities, all different, and an identity
  that owns a claim is not a retired identity of any claim.
\<close>

theorem reachable_table_bounds:
  assumes "lease_reachable t"
  shows "length (leases t) \<le> 1000 \<and> source_count source t \<le> 2
    \<and> (hm_get (leases t) k = Some l \<longrightarrow> length (lease_retired_token_ids l) \<le> 8
        \<and> distinct (lease_retired_token_ids l) \<and> \<not> is_retired k t)"
proof -
  have inv: "lease_inv t" by (rule reachable_inv [OF assms])
  have "quota_inv t" using table.invar_reachable [OF assms] by blast
  then have "source_count source t \<le> 2" by (simp add: quota_inv_def const_defs)
  moreover have "\<not> is_retired k t \<and> entry_ok (next_session_id t) (k, l)"
    if g: "hm_get (leases t) k = Some l"
    using owner_not_retired [OF inv g] lease_inv_entry [OF inv hm_get_in_set [OF g]] by blast
  ultimately show ?thesis
    using leases_bounded [OF inv] by (auto simp: entry_ok_def const_defs)
qed

theorem reachable_table_bounds_witness:
  "lease_reachable table_ab \<and> source_count (SourceV4 1) table_ab \<le> 2 \<and> \<not> is_retired host_a table_ab"
proof -
  have "hm_get (leases table_ab) host_a \<noteq> None" by code_simp
  then show ?thesis
    using reachable_table_bounds [OF lease_reachable_examples(2), of "SourceV4 1" host_a]
      lease_reachable_examples(2) by blast
qed

text \<open>
  C11: the table implements the registry of port owners: every step of the table, with any arguments
  and whatever its result, is a sequence of registry steps on the owners (release, grant of an
  unowned port to an identity without a port, handover to an identity without a port), and the
  owners of every reachable table are reachable in the registry.
\<close>

theorem lease_table_refines_registry:
  assumes "lease_reachable t"
  shows "reachable_by (\<lambda>R. R = Map.empty) registry_step (owner_of t)
    \<and> (lease_step t t' \<longrightarrow> registry_step\<^sup>*\<^sup>* (owner_of t) (owner_of t'))"
  using table_registry.sim_reachable [OF assms] table_registry.sim_step
    table.invar_reachable [OF assms] by blast

theorem lease_table_refines_registry_witness:
  "lease_reachable table_a \<and> lease_step table_a table_ab
    \<and> registry_step\<^sup>*\<^sup>* (owner_of table_a) (owner_of table_ab)"
proof -
  have "lease_step table_a table_ab"
    unfolding table_ab_def by (metis step_op step_activate prod.collapse)
  then show ?thesis
    using lease_table_refines_registry [OF lease_reachable_examples(1), of table_ab]
      lease_reachable_examples(1) by blast
qed

text \<open>
  Exactly who owns what after an operation that succeeds. An activation gives the port to the
  identity, which owned it already or owned no port while nobody owned that one; a rotation and a
  recovery pass one port on, from the identity that owned it, respectively from the one that
  enrolled the recovery key; ending a session changes no owner; expiry takes away exactly the
  claims whose grace period is over.
\<close>

theorem operations_on_owners:
  assumes "lease_reachable t" and "R = owner_of (reap_expired now t)"
  shows "(R p = Some k \<longleftrightarrow> (\<exists>l. hm_get (leases t) k = Some l \<and> lease_port l = p \<and> \<not> lease_expired now l))
    \<and> (activate_with_recovery k r ip p now t = (Inr s, t') \<longrightarrow> owner_of t' = R(p \<mapsto> k)
        \<and> (R p = Some k \<or> R p = None \<and> k \<notin> ran R \<and> p \<in> set port_range))
    \<and> (rotate_claim old new now t = (Inr (Transferred p), t') \<longrightarrow> owner_of t' = R(p \<mapsto> new)
        \<and> R p = Some old \<and> new \<notin> ran R)
    \<and> (recover_claim key new ip now t = (Inr rec, t') \<and> changed rec \<longrightarrow>
        owner_of t' = R(recovered_port rec \<mapsto> new) \<and> new \<notin> ran R
        \<and> (\<exists>old l. R (recovered_port rec) = Some old \<and> hm_get (leases t) old = Some l
             \<and> lease_recovery_id l = Some key))
    \<and> owner_of (snd (end_session k sid now t)) = owner_of t"
proof -
  have inv: "lease_inv t" by (rule reachable_inv [OF assms(1)])
  have "R p = Some k \<longleftrightarrow>
      (\<exists>l. hm_get (leases t) k = Some l \<and> lease_port l = p \<and> \<not> lease_expired now l)"
    unfolding assms(2) owner_of_get [OF reap_expired_inv [OF inv]]
    by (auto simp: get_reap [OF inv] split: option.splits if_splits)
  moreover have "owner_of t' = R(p \<mapsto> k) \<and> (R p = Some k \<or> R p = None \<and> k \<notin> ran R \<and> p \<in> set port_range)"
    if "activate_with_recovery k r ip p now t = (Inr s, t')"
    using activate_owner [OF inv that] assms(2) by blast
  moreover have "owner_of t' = R(p \<mapsto> new) \<and> R p = Some old \<and> new \<notin> ran R"
    if "rotate_claim old new now t = (Inr (Transferred p), t')"
    using rotate_claim_owner [OF inv that] assms(2) by blast
  moreover have "owner_of t' = R(recovered_port rec \<mapsto> new) \<and> new \<notin> ran R
      \<and> (\<exists>old l. R (recovered_port rec) = Some old \<and> hm_get (leases t) old = Some l
           \<and> lease_recovery_id l = Some key)"
    if rec: "recover_claim key new ip now t = (Inr rec, t') \<and> changed rec"
  proof -
    obtain old l where "R (recovered_port rec) = Some old" "lease_recovery_id l = Some key"
      "hm_get (leases (reap_expired now t)) old = Some l"
      using recover_claim_owner(2) [OF inv] rec assms(2) by blast
    moreover have "hm_get (leases t) old = Some l"
      using calculation(3) by (simp add: get_reap [OF inv] split: option.splits if_splits)
    ultimately show ?thesis
      using recover_claim_owner(1,3) [OF inv] rec assms(2) by blast
  qed
  moreover have "owner_of (snd (end_session k sid now t)) = owner_of t"
    using end_session_owner [OF inv] by (metis prod.collapse)
  ultimately show ?thesis by blast
qed

theorem operations_on_owners_witness:
  "lease_reachable table_a_grace
    \<and> owner_of (snd (rotate_claim host_a host_b 300 table_a_grace)) 10000 = Some host_b"
proof -
  have "rotate_claim host_a host_b 300 table_a_grace =
      (Inr (Transferred 10000), snd (rotate_claim host_a host_b 300 table_a_grace))"
    by code_simp
  then show ?thesis
    using operations_on_owners [OF lease_reachable_examples(3) refl, where p = 10000 and now = 300
        and t' = "snd (rotate_claim host_a host_b 300 table_a_grace)" and old = host_a
        and new = host_b]
      lease_reachable_examples(3) by simp
qed

text \<open>
  C24: the ports offered to an identity are in ascending order, at least one, and each lies in the
  public range and is owned by nobody or by that identity. An identity without a claim that is not
  retired, from a network below its quota, is offered every port nobody owns, as long as there are
  fewer than 1000 claims.
\<close>

theorem candidate_ports_sound_complete:
  assumes "lease_reachable t"
  shows "(fst (candidate_ports k ip now t) = Inr ports \<longrightarrow> ports \<noteq> [] \<and> sorted_wrt (<) ports
        \<and> (\<forall>p \<in> set ports. p \<in> set port_range \<and>
             owner_of (reap_expired now t) p \<in> {None, Some k}))
    \<and> (\<not> is_retired k (reap_expired now t) \<and> hm_get (leases (reap_expired now t)) k = None
        \<and> source_count (host_source_from ip) (reap_expired now t) < 2
        \<and> length (leases (reap_expired now t)) < 1000 \<longrightarrow>
       fst (candidate_ports k ip now t) =
         Inr (filter (\<lambda>p. owner_of (reap_expired now t) p = None) port_range))"
proof -
  let ?t = "reap_expired now t"
  have inv: "lease_inv t" and inv': "lease_inv ?t"
    using reachable_inv [OF assms] reap_expired_inv by blast+
  have free: "free_ports ?t = filter (\<lambda>p. owner_of ?t p = None) port_range"
  proof -
    have "free_ports ?t = filter (\<lambda>p. p \<in> set (free_ports ?t)) port_range"
      by (auto simp: free_ports_def Let_def intro: filter_cong)
    also have "\<dots> = filter (\<lambda>p. owner_of ?t p = None) port_range"
      using in_free_ports_owner [OF inv'] by (auto intro: filter_cong)
    finally show ?thesis .
  qed
  have "ports \<noteq> [] \<and> sorted_wrt (<) ports" if "fst (candidate_ports k ip now t) = Inr ports"
    using that sorted_wrt_filter [OF sorted_port_range, of "\<lambda>p. owner_of ?t p = None"]
    by (auto simp: candidate_ports_def Let_def free
        split: if_splits option.splits LeaseStatus.splits sum.splits)
  moreover have "free_ports ?t \<noteq> []" if "length (leases ?t) < 1000"
    using length_free_ports [OF inv'] that by auto
  then have "fst (candidate_ports k ip now t) = Inr (free_ports ?t)"
    if "\<not> is_retired k ?t" "hm_get (leases ?t) k = None" "length (leases ?t) < 1000"
      "source_count (host_source_from ip) ?t < 2"
    using that by (simp add: candidate_ports_def Let_def check_ip_quota_def const_defs)
  ultimately show ?thesis
    using offered_owner [OF inv, of k ip now ports] free by auto
qed

theorem candidate_ports_sound_complete_witness:
  "lease_reachable table_a \<and> hm_get (leases (reap_expired 300 table_a)) host_b = None
    \<and> fst (candidate_ports host_b (V4 2) 300 table_a) =
        Inr (filter (\<lambda>p. owner_of (reap_expired 300 table_a) p = None) port_range)"
proof -
  have "\<not> is_retired host_b (reap_expired 300 table_a)"
    "hm_get (leases (reap_expired 300 table_a)) host_b = None"
    "source_count (host_source_from (V4 2)) (reap_expired 300 table_a) < 2"
    "length (leases (reap_expired 300 table_a)) < 1000"
    by code_simp+
  then show ?thesis
    using candidate_ports_sound_complete [OF lease_reachable_examples(1), of host_b "V4 2" 300 "[]"]
      lease_reachable_examples(1) by blast
qed

section \<open>The reconnect window\<close>

lemma end_session_ends:
  assumes "hm_get (leases t) k = Some l" and "lease_status l = Active s"
  shows "end_session k s now t = (True, t\<lparr>leases := hm_insert k
    (l\<lparr>lease_status := Grace (saturating_add_u64 now GRACE_MS)\<rparr>) (leases t)\<rparr>)"
  using assms by (simp add: end_session_def)

lemma saturating_grace:
  "unat now + 300000 < 18446744073709551616 \<Longrightarrow> saturating_add_u64 now GRACE_MS = now + 300000"
  using add_overflow_iff [of now GRACE_MS] by (simp add: saturating_add_u64_def const_defs)

text \<open>
  C23: when the session of a claim ends, the port stays reserved for exactly five minutes. Before
  then, the owner coming back from the same network is offered exactly this port, and no other
  identity is offered it; from then on the port has no owner.
\<close>

theorem reconnect_window:
  assumes "lease_reachable t" and "hm_get (leases t) k = Some l" and "lease_status l = Active s"
    and "unat now + 300000 < 18446744073709551616" and "end_session k s now t = (ended, t')"
  shows "ended
    \<and> (later < now + 300000 \<longrightarrow> owner_of (reap_expired later t') (lease_port l) = Some k
        \<and> (lease_source l = Some (host_source_from ip) \<longrightarrow>
            fst (candidate_ports k ip later t') = Inr [lease_port l])
        \<and> (k' \<noteq> k \<and> fst (candidate_ports k' ip' later t') = Inr ports \<longrightarrow> lease_port l \<notin> set ports))
    \<and> (now + 300000 \<le> later \<longrightarrow> owner_of (reap_expired later t') (lease_port l) = None)"
proof -
  let ?l = "l\<lparr>lease_status := Grace (now + 300000)\<rparr>"
  have inv: "lease_inv t" by (rule reachable_inv [OF assms(1)])
  have inv': "lease_inv t'" by (rule end_session_inv [OF inv assms(5)])
  have ended: "ended" and g: "hm_get (leases t') k = Some ?l"
    using assms(5) end_session_ends [OF assms(2,3), of now] saturating_grace [OF assms(4)]
    by (auto simp: hm.get_put)
  have own: "owner_of (reap_expired later t') (lease_port l) = Some k" if "later < now + 300000"
    using that g by (simp add: owner_of_get [OF reap_expired_inv [OF inv']] get_reap [OF inv']
        lease_expired_def)
  have "fst (candidate_ports k ip later t') = Inr [lease_port l]"
    if "later < now + 300000" "lease_source l = Some (host_source_from ip)"
    using grace_claim_offered [OF inv' g, of "now + 300000" later ip] that
    by (simp add: lease_source_def)
  moreover have "lease_port l \<notin> set ports"
    if "later < now + 300000" "k' \<noteq> k" "fst (candidate_ports k' ip' later t') = Inr ports"
    using offered_owner(2) [OF inv' that(3), of "lease_port l"] own that(1,2) by auto
  moreover have "owner_of (reap_expired later t') (lease_port l) \<noteq> Some j"
    if "now + 300000 \<le> later" for j
  proof
    assume "owner_of (reap_expired later t') (lease_port l) = Some j"
    then obtain m where m: "hm_get (leases t') j = Some m" "lease_port m = lease_port l"
      "\<not> lease_expired later m"
      by (auto simp: owner_of_get [OF reap_expired_inv [OF inv']] get_reap [OF inv']
          split: option.splits if_splits)
    then have "j = k"
      using owner_of_get [OF inv', of "lease_port l" j] owner_of_get [OF inv', of "lease_port l" k] g
      by auto
    then show False using m g that by (auto simp: lease_expired_def)
  qed
  ultimately show ?thesis using ended own by (metis option.exhaust)
qed

theorem reconnect_window_witness:
  "hm_get (leases table_a) host_a \<noteq> None \<and> fst (end_session host_a (SessionId 1) 200 table_a)
    \<and> fst (candidate_ports host_a (V4 1) 300199 (snd (end_session host_a (SessionId 1) 200 table_a)))
      = Inr [10000]
    \<and> owner_of (reap_expired 300200 (snd (end_session host_a (SessionId 1) 200 table_a))) 10000 = None"
proof -
  let ?l = "\<lparr>lease_port = 10000, lease_last_ip = Some (V4 1), lease_retired_token_ids = [],
    lease_recovery_id = Some key_a, lease_status = Active (SessionId 1)\<rparr>"
  have g: "hm_get (leases table_a) host_a = Some ?l" by code_simp
  show ?thesis
    using reconnect_window [OF lease_reachable_examples(1) g, of "SessionId 1" 200, OF _ _ prod.collapse [symmetric],
        of 300199 "V4 1"]
      reconnect_window [OF lease_reachable_examples(1) g, of "SessionId 1" 200, OF _ _ prod.collapse [symmetric],
        of 300200] g
    by (simp add: lease_source_def)
qed

text \<open>
  A session number identifies one activation: an activation gives a number greater than that of
  every earlier activation since the relay started, and ending a session that is not the current
  one of its identity changes nothing, so a late cleanup cannot end its successor's session.
\<close>

theorem session_numbers_fresh:
  assumes "activate_with_recovery k r ip p now t = (Inr (SessionId n), t1)"
    and "lease_op_step\<^sup>*\<^sup>* t1 t2"
    and "activate_with_recovery k' r' ip' p' now' t2 = (Inr (SessionId m), t3)"
  shows "n < m \<and> end_session k' (SessionId n) later t3 = (False, t3)"
proof -
  have "n \<le> next_session_id t2"
    using activate_session_number(2) [OF assms(1)] lease_op_steps_next_session [OF assms(2)] by simp
  moreover have "unat m = Suc (unat (next_session_id t2))"
    by (rule activate_session_number(1) [OF assms(3)])
  ultimately have less: "n < m"
    by (simp add: word_less_nat_alt word_le_nat_alt)
  have "\<exists>l. hm_get (leases t3) k' = Some l \<and> lease_status l = Active (SessionId m)"
    using assms(3)
    by (cases rule: activate_with_recovery_cases) (auto elim!: enroll_claim_cases simp: hm.get_put)
  then show ?thesis using less by (auto simp: end_session_def)
qed

theorem session_numbers_fresh_witness:
  "fst (activate_with_recovery host_a (Some key_a) (V4 1) 10000 100 LeaseTable_new) = Inr (SessionId 1)
    \<and> fst (activate_with_recovery host_a None (V4 1) 10000 300 table_a_grace) = Inr (SessionId 2)
    \<and> (1 :: u64) < 2
    \<and> fst (end_session host_a (SessionId 1) 400
        (snd (activate_with_recovery host_a None (V4 1) 10000 300 table_a_grace))) = False"
proof -
  have a: "activate_with_recovery host_a (Some key_a) (V4 1) 10000 100 LeaseTable_new =
      (Inr (SessionId 1), table_a)" by code_simp
  have b: "activate_with_recovery host_a None (V4 1) 10000 300 table_a_grace = (Inr (SessionId 2),
      snd (activate_with_recovery host_a None (V4 1) 10000 300 table_a_grace))" by code_simp
  have "lease_op_step\<^sup>*\<^sup>* table_a table_a_grace"
    unfolding table_a_grace_def by (metis r_into_rtranclp step_end prod.collapse)
  from session_numbers_fresh [OF a this b, of 400] show ?thesis
    using a b by (metis fst_conv)
qed

section \<open>Rotation and recovery\<close>

text \<open>What both keep: the claim of an identity and those it retires, as long as it lives.\<close>

lemma retired_rejected:
  assumes "lease_inv t" and "hm_get (leases t) new = Some l" and "\<not> lease_expired now l"
    and "old \<in> set (lease_retired_token_ids l)"
  shows "fst (candidate_ports old ip now t) = Inl ClaimRotated"
    and "rotate_claim old new now t = (Inr (Unchanged (Some (lease_port l))), reap_expired now t)"
    and "rotate_claim old other now t \<noteq> (Inr (Transferred p), t')"
proof -
  have g: "hm_get (leases (reap_expired now t)) new = Some l"
    using assms(2,3) by (simp add: get_reap [OF assms(1)])
  have ret: "is_retired old (reap_expired now t)"
    using hm_get_in_set [OF g] assms(4) by (force simp: is_retired_iff)
  then show "fst (candidate_ports old ip now t) = Inl ClaimRotated"
    by (simp add: candidate_ports_def Let_def)
  have "old \<noteq> new"
    using owner_not_retired [OF reap_expired_inv [OF assms(1)] g] ret by blast
  then show "rotate_claim old new now t = (Inr (Unchanged (Some (lease_port l))), reap_expired now t)"
    using g assms(4) by (simp add: rotate_claim_def Let_def)
  show "rotate_claim old other now t \<noteq> (Inr (Transferred p), t')"
    using ret by (auto simp: rotate_claim_def Let_def split: option.splits if_splits)
qed

lemma recover_again:
  assumes inv: "lease_inv t" and "hm_get (leases t) new = Some l" and "lease_recovery_id l = Some key"
    and "\<not> lease_expired now l"
  shows "recover_claim key new ip now t =
    (Inr \<lparr>recovered_port = lease_port l, displaced = None, changed = False\<rparr>, reap_expired now t)"
proof -
  have inv': "lease_inv (reap_expired now t)" by (rule reap_expired_inv [OF inv])
  have g: "(new, l) \<in> set (leases (reap_expired now t))"
    by (rule hm_get_in_set) (use assms(2,4) in \<open>simp add: get_reap [OF inv]\<close>)
  have "find (\<lambda>(_, lease). lease_recovery_id lease = Some key) (leases (reap_expired now t))
      = Some (new, l)"
  proof (rule find_eq_of_unique [OF g])
    fix e assume e: "e \<in> set (leases (reap_expired now t))"
      "case e of (_, m) \<Rightarrow> lease_recovery_id m = Some key"
    then have "\<not> entries_compatible e (new, l)"
      using assms(3) by (simp add: entries_compatible_def case_prod_unfold)
    then show "e = (new, l)" using lease_inv_pair [OF inv' e(1) g] by blast
  qed (simp add: assms(3))
  then show ?thesis by (simp add: recover_claim_def Let_def)
qed

text \<open>
  C22: a successful rotation moves the port, the recovery key and the remaining grace period to the
  new identity and leaves every other claim alone. While the claim lives, the old identity is
  turned away, the same request repeated (an acknowledgement was lost) answers with the same port
  and changes nothing but expired claims, and no second rotation away from the old identity
  succeeds.
\<close>

theorem rotation_transfers_claim:
  assumes "lease_reachable t" and "rotate_claim old new now t = (Inr (Transferred p), t')"
  shows "\<exists>l x. hm_get (leases t) old = Some l \<and> lease_port l = p \<and> lease_status l = Grace x \<and> now < x
    \<and> hm_get (leases t') new = Some (l\<lparr>lease_retired_token_ids := [old]\<rparr>)
    \<and> hm_get (leases t') old = None
    \<and> (k \<noteq> old \<and> k \<noteq> new \<longrightarrow> hm_get (leases t') k = hm_get (leases (reap_expired now t)) k)
    \<and> (later < x \<longrightarrow> fst (candidate_ports old ip later t') = Inl ClaimRotated
        \<and> rotate_claim old new later t' = (Inr (Unchanged (Some p)), reap_expired later t')
        \<and> rotate_claim old other later t' \<noteq> (Inr (Transferred q), t''))"
proof -
  have inv: "lease_inv t" by (rule reachable_inv [OF assms(1)])
  have inv': "lease_inv t'" by (rule rotate_claim_inv [OF inv assms(2)])
  from assms(2) show ?thesis
  proof (cases rule: rotate_claim_cases)
    case (moved u l x)
    let ?l = "l\<lparr>lease_retired_token_ids := [old]\<rparr>"
    have l: "hm_get (leases t) old = Some l" "now < x"
      using moved(6,7) by (auto simp: moved(1) get_reap [OF inv] lease_expired_def
          split: option.splits if_splits)
    have "hm_get (leases t') new = Some ?l" "hm_get (leases t') old = None"
      "k \<noteq> old \<and> k \<noteq> new \<longrightarrow> hm_get (leases t') k = hm_get (leases u) k"
      unfolding moved(10) using moved(2) lease_retire_eq [OF moved(7)] by (simp_all add: hm.get_move)
    moreover have "later < x \<longrightarrow> \<not> lease_expired later ?l"
      using moved(7) by (auto simp: lease_expired_def)
    ultimately show ?thesis
      using l moved(1,7,9) retired_rejected [OF inv', of new ?l later old] by auto
  qed blast
qed

theorem rotation_transfers_claim_witness:
  "lease_reachable table_a_grace
    \<and> fst (rotate_claim host_a host_b 300 table_a_grace) = Inr (Transferred 10000)
    \<and> fst (rotate_claim host_a host_b 400 (snd (rotate_claim host_a host_b 300 table_a_grace)))
      = Inr (Unchanged (Some 10000))"
proof -
  have run: "rotate_claim host_a host_b 300 table_a_grace =
      (Inr (Transferred 10000), snd (rotate_claim host_a host_b 300 table_a_grace))" by code_simp
  have "map_option lease_status (hm_get (leases table_a_grace) host_a) = Some (Grace 300200)"
    by code_simp
  then have "fst (rotate_claim host_a host_b 400 (snd (rotate_claim host_a host_b 300 table_a_grace)))
      = Inr (Unchanged (Some 10000))"
    using rotation_transfers_claim [OF lease_reachable_examples(3) run, of host_a 400 "V4 1" host_b 0
        table_a] by auto
  then show ?thesis using lease_reachable_examples(3) run by (metis fst_conv)
qed

text \<open>
  A successful recovery that changes the table hands the claim that enrolled the recovery key to
  the new identity: same port and key, a fresh grace period, the previous owner retired and every
  other claim untouched. It reports exactly the session that was active on the claim, and that
  session's late cleanup then changes nothing. During the grace period the previous owner is turned
  away, the new one is offered the port, and the same recovery repeated gives the same port, displaces nobody
  and changes nothing but expired claims.
\<close>

theorem recovery_hands_over_claim:
  assumes "lease_reachable t" and "recover_claim key new ip now t = (Inr rec, t')" and "changed rec"
    and "unat now + 300000 < 18446744073709551616"
  shows "\<exists>old l. hm_get (leases t) old = Some l \<and> lease_recovery_id l = Some key \<and> old \<noteq> new
    \<and> recovered_port rec = lease_port l
    \<and> displaced rec = map_option (Pair old) (active_session t old)
    \<and> hm_get (leases t') old = None \<and> grace_port t' new = Some (lease_port l)
    \<and> (k \<noteq> old \<and> k \<noteq> new \<longrightarrow> hm_get (leases t') k = hm_get (leases (reap_expired now t)) k)
    \<and> end_session old s later t' = (False, t')
    \<and> (later < now + 300000 \<longrightarrow>
         fst (candidate_ports old ip' later t') = Inl ClaimRotated
         \<and> fst (candidate_ports new ip later t') = Inr [lease_port l]
         \<and> recover_claim key new ip' later t' =
           (Inr \<lparr>recovered_port = lease_port l, displaced = None, changed = False\<rparr>, reap_expired later t'))"
proof -
  have inv: "lease_inv t" by (rule reachable_inv [OF assms(1)])
  have inv': "lease_inv t'" by (rule recover_claim_inv [OF inv assms(2)])
  from assms(2) show ?thesis
  proof (cases rule: recover_claim_cases)
    case (repeated l)
    then show ?thesis using assms(3) by simp
  next
    case (moved u old l)
    let ?l = "\<lparr>lease_port = lease_port l, lease_last_ip = Some ip,
      lease_retired_token_ids = push_retired (lease_retired_token_ids l) old,
      lease_recovery_id = Some key, lease_status = Grace (now + 300000)\<rparr>"
    have u: "lease_inv u" using inv moved(1) by (simp add: reap_expired_inv)
    have ol: "hm_get (leases t) old = Some l"
      using moved(2) by (auto simp: moved(1) reap_expired_filter lease_inv_get [OF inv])
    have g: "hm_get (leases t') new = Some ?l" "hm_get (leases t') old = None"
      "k \<noteq> old \<and> k \<noteq> new \<longrightarrow> hm_get (leases t') k = hm_get (leases u) k"
      unfolding moved(9) using moved(3,4) saturating_grace [OF assms(4)]
      by (simp_all add: hm.get_move)
    have live: "later < now + 300000 \<Longrightarrow> \<not> lease_expired later ?l"
      by (auto simp: lease_expired_def)
    have "old \<in> set (lease_retired_token_ids ?l)"
      using last_push_retired [of "lease_retired_token_ids l" old] by (metis Lease.select_convs(3) in_set_conv_decomp)
    then have rej: "later < now + 300000 \<Longrightarrow> fst (candidate_ports old ip' later t') = Inl ClaimRotated"
      using retired_rejected(1) [OF inv' g(1) live] by blast
    have offer: "later < now + 300000 \<Longrightarrow> fst (candidate_ports new ip later t') = Inr [lease_port l]"
      using grace_claim_offered [OF inv' g(1), of "now + 300000" later ip]
      by (simp add: lease_source_def)
    have again: "recover_claim key new ip' later t' =
        (Inr \<lparr>recovered_port = lease_port l, displaced = None, changed = False\<rparr>, reap_expired later t')"
      if "later < now + 300000"
      using recover_again [OF inv' g(1) _ live [OF that]] by simp
    have "displaced rec = map_option (Pair old) (active_session t old)"
      using moved(8) ol by (auto simp: active_session_def split: LeaseStatus.splits)
    then show ?thesis
      using moved(1,3,4,8) ol g rej offer again
      by (intro exI [of _ old] exI [of _ l]) (simp add: grace_port_def end_session_def)
  qed simp
qed

theorem recovery_hands_over_claim_witness:
  "lease_reachable table_a
    \<and> fst (recover_claim key_a host_b (V4 2) 300 table_a) =
       Inr \<lparr>recovered_port = 10000, displaced = Some (host_a, SessionId 1), changed = True\<rparr>
    \<and> fst (candidate_ports host_b (V4 2) 400 (snd (recover_claim key_a host_b (V4 2) 300 table_a)))
      = Inr [10000]"
proof -
  have run: "recover_claim key_a host_b (V4 2) 300 table_a =
      (Inr \<lparr>recovered_port = 10000, displaced = Some (host_a, SessionId 1), changed = True\<rparr>,
       snd (recover_claim key_a host_b (V4 2) 300 table_a))" by code_simp
  from recovery_hands_over_claim [OF lease_reachable_examples(1) run, of host_a "SessionId 1" 400 "V4 1"]
  have "fst (candidate_ports host_b (V4 2) 400 (snd (recover_claim key_a host_b (V4 2) 300 table_a)))
      = Inr [10000]" by auto
  then show ?thesis using lease_reachable_examples(1) run by (metis fst_conv)
qed

text \<open>
  An unexpired claim keeps its enrolled recovery key. Its owner can only be activated without a
  key or with the same key, and the key stays; no other identity can enroll that key; a recovery
  with any other key leaves the claim as it is; and a rotation passes the key on.
\<close>

theorem recovery_key_protected:
  assumes "lease_reachable t" and "hm_get (leases t) k = Some l" and "lease_recovery_id l = Some key"
    and "\<not> lease_expired now l"
  shows "(activate_with_recovery k r ip p now t = (Inr s, t') \<longrightarrow> r \<in> {None, Some key}
        \<and> (\<exists>l'. hm_get (leases t') k = Some l' \<and> lease_recovery_id l' = Some key))
    \<and> (k' \<noteq> k \<longrightarrow> \<not> is_ok (fst (activate_with_recovery k' (Some key) ip p now t)))
    \<and> (key' \<noteq> key \<longrightarrow> hm_get (leases (snd (recover_claim key' new ip now t))) k = Some l)
    \<and> (rotate_claim k new now t = (Inr (Transferred p), t') \<longrightarrow>
        (\<exists>l'. hm_get (leases t') new = Some l' \<and> lease_recovery_id l' = Some key))"
proof -
  have inv: "lease_inv t" by (rule reachable_inv [OF assms(1)])
  let ?t = "reap_expired now t"
  have inv': "lease_inv ?t" by (rule reap_expired_inv [OF inv])
  have g: "hm_get (leases ?t) k = Some l" using assms(2,4) by (simp add: get_reap [OF inv])
  have "r \<in> {None, Some key} \<and> (\<exists>l'. hm_get (leases t') k = Some l' \<and> lease_recovery_id l' = Some key)"
    if "activate_with_recovery k r ip p now t = (Inr s, t')"
    using that g assms(3)
    by (cases rule: activate_with_recovery_cases) (auto elim!: enroll_claim_cases simp: hm.get_put)
  moreover have "\<not> is_ok res" if "activate_with_recovery k' (Some key) ip p now t = (res, u)" "k' \<noteq> k"
    for res u
    using that g assms(3)
    by (cases rule: activate_with_recovery_cases)
      (auto elim!: enroll_claim_cases dest!: hm_get_in_set)
  moreover have "hm_get (leases u) k = Some l"
    if "recover_claim key' new ip now t = (res, u)" "key' \<noteq> key" for res u
    using that(1)
  proof (cases rule: recover_claim_cases)
    case (moved v old m)
    have "hm_get (leases v) old = Some m" using moved(1,2) lease_inv_get [OF inv'] by simp
    then have "old \<noteq> k" "new \<noteq> k" using moved(1,3,5) g assms(3) that(2) by auto
    then show ?thesis using g moved(1,9) by (simp add: hm.get_move)
  qed (use g in simp_all)
  moreover have "\<exists>l'. hm_get (leases t') new = Some l' \<and> lease_recovery_id l' = Some key"
    if "rotate_claim k new now t = (Inr (Transferred p), t')"
    using that g assms(3) by (cases rule: rotate_claim_cases) (auto simp: hm.get_move)
  ultimately show ?thesis by (metis prod.collapse)
qed

theorem recovery_key_protected_witness:
  "lease_reachable table_a_grace \<and> hm_get (leases table_a_grace) host_a \<noteq> None
    \<and> \<not> is_ok (fst (activate_with_recovery host_b (Some key_a) (V4 2) 10001 300 table_a_grace))"
proof -
  let ?l = "\<lparr>lease_port = 10000, lease_last_ip = Some (V4 1), lease_retired_token_ids = [],
    lease_recovery_id = Some key_a, lease_status = Grace 300200\<rparr>"
  have g: "hm_get (leases table_a_grace) host_a = Some ?l" by code_simp
  have "host_b \<noteq> host_a" by code_simp
  then show ?thesis
    using recovery_key_protected [OF lease_reachable_examples(3) g, of key_a 300 None "V4 2" 10001
        "SessionId 0" table_a host_b key_a host_b]
      lease_reachable_examples(3) g by (simp add: lease_expired_def)
qed

section \<open>Saving and restoring\<close>

text \<open>
  C25: restoring succeeds exactly on a valid list of records: at most 1000, ports in range and
  pairwise different, identities, recovery keys and retired identities pairwise different, at most
  eight retired identities each, no owner retired. The restored table satisfies the invariant, no session is
  active, and it holds exactly the records that have not expired.
\<close>

theorem restore_accepts_valid_records:
  "(is_ok (restore rs now) \<longleftrightarrow> records_valid rs)
    \<and> (restore rs now = Inr t \<longrightarrow> lease_inv t \<and> next_session_id t = 0
        \<and> (hm_get (leases t) k = Some l \<longleftrightarrow>
             (\<exists>r \<in> set rs. rec_token_id r = k \<and> now < rec_expires_at_ms r \<and> l = lease_of_record r))
        \<and> active_session t k = None)"
proof -
  have get: "hm_get (leases (restored_table rs now)) k = Some m \<longleftrightarrow>
      (\<exists>r \<in> set rs. rec_token_id r = k \<and> now < rec_expires_at_ms r \<and> m = lease_of_record r)"
    if "records_valid rs" for m
    unfolding restored_get [OF that] record_live_def not_le by blast
  moreover have "active_session (restored_table rs now) k = None" if "records_valid rs"
    by (rule restored_active_session [OF that])
  moreover have "next_session_id (restored_table rs now) = 0" by (simp add: restored_table_def)
  ultimately show ?thesis by (auto simp: is_ok_iff restore_eq_iff lease_inv_restored)
qed

theorem restore_accepts_valid_records_witness:
  "restore [\<lparr>rec_token_id = host_a, rec_retired_token_ids = [host_b], rec_recovery_id = None,
      rec_port = 10999, rec_last_ip = None, rec_expires_at_ms = 500\<rparr>] 499 =
    Inr (restored_table [\<lparr>rec_token_id = host_a, rec_retired_token_ids = [host_b],
      rec_recovery_id = None, rec_port = 10999, rec_last_ip = None, rec_expires_at_ms = 500\<rparr>] 499)
   \<and> active_session (restored_table [\<lparr>rec_token_id = host_a, rec_retired_token_ids = [host_b],
      rec_recovery_id = None, rec_port = 10999, rec_last_ip = None, rec_expires_at_ms = 500\<rparr>] 499)
      host_a = None" (is "restore ?rs _ = Inr ?t \<and> _")
proof -
  have "restore ?rs 499 = Inr ?t" by code_simp
  then show ?thesis using restore_accepts_valid_records [of ?rs 499 ?t host_a] by blast
qed

text \<open>
  C26: a snapshot of a reachable table can always be restored, at any later or earlier time, and
  gives back every claim that has not expired with its port, key, address and retired identities;
  a claim that was active gets a grace period of five minutes from the snapshot.
\<close>

theorem snapshot_restore_roundtrip:
  assumes "lease_reachable t"
  shows "\<exists>t'. restore (snapshot now t) now' = Inr t' \<and> hm_get (leases t') k =
    (case hm_get (leases t) k of
       None \<Rightarrow> None
     | Some l \<Rightarrow>
         let expiry = (case lease_status l of
               Active _ \<Rightarrow> saturating_add_u64 now GRACE_MS | Grace x \<Rightarrow> x)
         in if expiry \<le> now' then None else Some (l\<lparr>lease_status := Grace expiry\<rparr>))"
proof -
  have inv: "lease_inv t" by (rule reachable_inv [OF assms])
  show ?thesis
    using restored_snapshot_get [OF inv, of now now' k]
    by (simp add: restore_snapshot [OF inv] lease_expiry_def Let_def split: option.split)
qed

theorem snapshot_restore_roundtrip_witness:
  "lease_reachable table_a \<and> hm_get (leases table_a) host_a \<noteq> None
    \<and> (\<exists>t'. restore (snapshot 500 table_a) 300000 = Inr t' \<and> grace_port t' host_a = Some 10000)"
proof -
  let ?l = "\<lparr>lease_port = 10000, lease_last_ip = Some (V4 1), lease_retired_token_ids = [],
    lease_recovery_id = Some key_a, lease_status = Active (SessionId 1)\<rparr>"
  have g: "hm_get (leases table_a) host_a = Some ?l" by code_simp
  have s: "saturating_add_u64 500 GRACE_MS = 300500" by code_simp
  show ?thesis
    using snapshot_restore_roundtrip [OF lease_reachable_examples(1), of 500 300000 host_a]
      lease_reachable_examples(1) g by (auto simp: s grace_port_def)
qed

end
