(* ===== verification/Server_Properties.thy ===== *)
theory Server_Properties
  imports Server_Invariant Lease_Properties
begin

text \<open>
  The properties of the relay's state: what is durable, what a failed save may leave, when new
  claims are refused, which port and which connection a handler hands out, and what a restart
  finds.
\<close>

section \<open>The run of the instances\<close>

definition sha_demo :: "u8 list \<Rightarrow> u8 list" where
  "sha_demo x = take 32 (x @ replicate 32 0)"

definition relay_a0 :: "nat ServerState" where
  "relay_a0 = \<lparr>st_leases = LeaseTable_new, st_store = \<lparr>store_path = state_path\<rparr>,
     persistence_healthy = True, active_connections = []\<rparr>"

definition host_id :: "u8 list \<Rightarrow> TokenId" where
  "host_id token = TokenId_from_token sha_demo token"

definition table_a1 :: LeaseTable where
  "table_a1 = snd (activate_with_recovery (host_id [1]) (Some (host_id [9])) (V4 1) 10000 100 LeaseTable_new)"

definition world_a1 :: World where
  "world_a1 = snd (save wire_serde std_tempfile \<lparr>store_path = state_path\<rparr> (snapshot 100 table_a1) empty_dir)"

definition relay_conn :: "nat \<Rightarrow> nat ServerState" where
  "relay_conn c = \<lparr>st_leases = table_a1, st_store = \<lparr>store_path = state_path\<rparr>,
     persistence_healthy = True, active_connections = [(host_id [1], SessionId 1, c)]\<rparr>"

definition relay_a1 :: "nat ServerState" where
  "relay_a1 = relay_conn 7"

lemma demo_env: "server_env wire_serde std_tempfile sha_demo state_path"
  using wire_serde.serde_json_spec_axioms std_tf.tempfile_spec_axioms not_temp_state_path
  by (auto simp: server_env_def sha_ok_def sha_demo_def min_def)

lemma free_ports_new: "free_ports LeaseTable_new = 10000 # map of_nat [10001 ..< 11000]"
proof -
  have "[10000 ..< 11000] = 10000 # [10001 ..< 11000::nat]"
    by (subst upt_conv_Cons) simp_all
  then show ?thesis
    unfolding free_ports_def port_range_eq
    by (simp add: LeaseTable_new_def hm_values_def del: upt_rec_numeral)
qed

lemma save_a1: "is_ok (fst (save wire_serde std_tempfile \<lparr>store_path = state_path\<rparr>
    (snapshot 100 table_a1) empty_dir))"
  by code_simp

lemma register_conn:
  "register_with_recovery wire_serde std_tempfile sha_demo Inr [1] (Some (sha_demo [9])) (V4 1) 100 (Some c) relay_a0 empty_dir
    = (Inr \<lparr>reg_listener = 10000, reg_public_port = 10000, reg_token_id = host_id [1],
         reg_session_id = SessionId 1\<rparr>, relay_conn c, world_a1)"
proof -
  have act: "activate_with_recovery (host_id [1]) (Some (host_id [9])) (V4 1) 10000 100 LeaseTable_new
      = (Inr (SessionId 1), table_a1)" by code_simp
  have "reap_expired 100 LeaseTable_new = LeaseTable_new" by code_simp
  then have "candidate_ports (host_id [1]) (V4 1) 100 LeaseTable_new
      = (Inr (free_ports LeaseTable_new), LeaseTable_new)"
    using free_ports_new
    by (simp add: candidate_ports_def Let_def check_ip_quota_def MAX_TUNNELS_PER_IP_def
        LeaseTable_new_def is_retired_def hm_get_def source_count_def hm_values_def del: upt_rec_numeral)
  moreover have "save wire_serde std_tempfile \<lparr>store_path = state_path\<rparr> (snapshot 100 table_a1) empty_dir
      = (Inr (), world_a1)"
    using save_a1 by (auto simp: world_a1_def is_ok_iff intro: prod_eqI)
  ultimately show ?thesis
    using act
    by (simp add: TokenId_from_token_def [symmetric] register_with_recovery_def relay_a0_def relay_conn_def host_id_def [symmetric]
        free_ports_new hm_insert_def hm_remove_def Let_def del: upt_rec_numeral)
qed

lemmas register_a1 = register_conn [of 7, folded relay_a1_def]

lemma relay_a0_reachable:
  "server_reachable wire_serde std_tempfile sha_demo state_path (relay_a0, empty_dir)"
proof (rule reachable_by.reach_start)
  have "load_or_new wire_serde std_tempfile sha_demo state_path 50 empty_dir = (Inr relay_a0, empty_dir)"
    by (simp add: load_or_new_def load_or_create_def fs_metadata_def lookup_followed_def empty_dir_def
        state_path_def io_bind_def io_return_def relay_a0_def numeral_eq_Suc)
  then show "server_start wire_serde std_tempfile sha_demo state_path (relay_a0, empty_dir)"
    by (auto simp: server_start_def)
qed

lemma relay_a1_reachable:
  "server_reachable wire_serde std_tempfile sha_demo state_path (relay_a1, world_a1)"
  using relay_a0_reachable server_registers [OF register_a1]
  by (rule reachable_by.reach_step) (simp add: sha_demo_def)

section \<open>What a restart finds\<close>

lemma restored_sorted_get:
  assumes "records_valid rs"
  shows "hm_get (leases (restored_table (sort_key rec_port rs) now)) k
    = hm_get (leases (restored_table rs now)) k"
proof (rule option_eqI)
  have "records_valid (sort_key rec_port rs)" by (rule records_valid_perm [OF _ assms]) simp
  then show "hm_get (leases (restored_table (sort_key rec_port rs) now)) k = Some l
      \<longleftrightarrow> hm_get (leases (restored_table rs now)) k = Some l" for l
    by (simp add: restored_get assms)
qed

text \<open>After a save that succeeded, a restart gives the claims of the snapshot that live.\<close>

lemma reload_saved:
  assumes sj: "serde_json_spec sj" and tf: "tempfile_spec tf" and p: "\<not> temp_name p"
    and t: "lease_inv t" "tokens_inv t"
    and run: "save sj tf store (snapshot now t) w = (Inr u, w')" and store: "store_path store = p"
  shows "\<exists>st. fst (load_or_new sj tf sha256 p now' (w'\<lparr>faults := []\<rparr>)) = Inr (st :: 'c ServerState)
    \<and> (\<forall>k. hm_get (leases (st_leases st)) k
          = hm_get (leases (restored_table (snapshot now t) now')) k)"
proof -
  have p': "\<not> temp_name (store_path store)" using p store by simp
  obtain bytes where b: "to_vec_pretty sj (persisted_form (snapshot now t)) = Inr bytes"
    "fits_state (length bytes)"
    and v: "visible w' = (visible w)(store_path store \<mapsto> Regular bytes OWNER_ONLY)"
    by (rule save_cases [OF tf p' run]) auto
  have "nodes (w'\<lparr>faults := []\<rparr>) p = Some (Regular bytes OWNER_ONLY)"
    using v not_temp_visible [OF p, of w'] store by simp
  note load = load_saved [OF sj this _ b snapshot_valid [OF t(1)] snapshot_tokens [OF t(2)],
      of tf sha256 now']
  show ?thesis
    using load restored_sorted_get [OF snapshot_valid [OF t(1)]]
    by (auto simp: load_or_new_def io_bind_def io_return_def)
qed

lemma restored_grace_port:
  assumes "lease_inv t" and "hm_get (leases t) k = Some l"
  shows "hm_get (leases (restored_table (snapshot now t) now')) k =
    (if lease_expiry now l \<le> now' then None else Some (l\<lparr>lease_status := Grace (lease_expiry now l)\<rparr>))"
  using restored_snapshot_get [OF assms(1), of now now' k] assms(2) by simp

section \<open>Properties\<close>



text \<open>
  C18: in every run of the relay, the connections it keeps are exactly those of the identities with
  an active session, each with the session's number.
\<close>

theorem connections_are_active_sessions:
  assumes "server_env sj tf sha256 p" and "server_reachable sj tf sha256 p (st, w)"
  shows "active_session (st_leases st) k = Some s \<longleftrightarrow> (\<exists>c. hm_get (active_connections st) k = Some (s, c))"
  using server_invD(2) [OF server_reachable_inv [OF assms]]
  by (auto simp: conns_ok_def dest!: spec [of _ k] split: option.splits)

theorem connections_are_active_sessions_witness:
  "hm_get (active_connections relay_a1) (host_id [1]) = Some (SessionId 1, 7)
    \<and> active_session (st_leases relay_a1) (host_id [1]) = Some (SessionId 1)"
proof -
  have "hm_get (active_connections relay_a1) (host_id [1]) = Some (SessionId 1, 7)"
    by (simp add: relay_a1_def relay_conn_def hm_get_def)
  then show ?thesis
    using connections_are_active_sessions [OF demo_env relay_a1_reachable, of "host_id [1]" "SessionId 1"]
    by blast
qed

text \<open>
  C20: a registration that succeeds listens on the first of the offered ports that can be bound: all
  ports before it were in use. It gives the identity that port, a new session and its connection,
  touches no other claim but expired ones, and a relay that restarts from the state file within five
  minutes still reserves the port for the identity.
\<close>

theorem registration_binds_first_free_port:
  assumes "server_env sj tf sha256 p" and "server_reachable sj tf sha256 p (st, w)"
    and "register_with_recovery sj tf sha256 bind token r ip now (Some c) st w = (Inr reg, st', w')"
    and "case r of None \<Rightarrow> True | Some x \<Rightarrow> length x = 32"
  shows "\<exists>taken rest. fst (candidate_ports (reg_token_id reg) ip now (st_leases st))
        = Inr (taken @ reg_public_port reg # rest)
      \<and> (\<forall>q \<in> set taken. bind q = Inl AddrInUse) \<and> bind (reg_public_port reg) = Inr (reg_listener reg)
      \<and> owner_of (st_leases st') =
          (owner_of (reap_expired now (st_leases st)))(reg_public_port reg \<mapsto> reg_token_id reg)
      \<and> active_session (st_leases st') (reg_token_id reg) = Some (reg_session_id reg)
      \<and> hm_get (active_connections st') (reg_token_id reg) = Some (reg_session_id reg, c)
      \<and> (now' < saturating_add_u64 now GRACE_MS \<longrightarrow>
          (\<exists>st2. fst (load_or_new sj tf sha256 p now' (w'\<lparr>faults := []\<rparr>)) = Inr (st2 :: 'c ServerState)
             \<and> grace_port (st_leases st2) (reg_token_id reg) = Some (reg_public_port reg)))"
proof -
  note d = server_invD [OF server_reachable_inv [OF assms(1,2)]]
  have env: "serde_json_spec sj" "tempfile_spec tf" "sha_ok sha256" "\<not> temp_name p"
    using assms(1) by (simp_all add: server_env_def)
  from assms(3) show ?thesis
  proof (cases rule: register_cases)
    case (registered taken q rest listener s staged u)
    let ?k = "TokenId_from_token sha256 token" and ?u = "reap_expired now (st_leases st)"
    have inv_u: "lease_inv ?u" "tokens_inv ?u" using d by (simp_all add: reap_expired_inv tokens_inv_reap)
    have "reap_expired now ?u = ?u" by (auto simp: reap_expired_filter)
    then have own: "owner_of staged = (owner_of ?u)(q \<mapsto> ?k)"
      using activate_owner(1) [OF inv_u(1) registered(5)] by simp
    have act: "active_session staged ?k = Some s"
      using activate_active_session [OF inv_u(1) registered(5), of ?k] by simp
    have rid: "case map_option TokenId r of None \<Rightarrow> True | Some x \<Rightarrow> token_ok x"
      using assms(4) by (cases r) (simp_all add: token_ok_def)
    have staged: "lease_inv staged" "tokens_inv staged"
      using activate_with_recovery_inv [OF inv_u(1) registered(5)]
        activate_tokens [OF inv_u(2) token_id_ok [OF env(3)] rid registered(5)] by blast+
    obtain l where l: "hm_get (leases staged) ?k = Some l" "lease_port l = q" "lease_status l = Active s"
      using own act owner_of_get [OF staged(1), of q ?k]
      by (auto simp: active_session_def split: LeaseStatus.splits)
    have "\<exists>st2 :: 'c ServerState. fst (load_or_new sj tf sha256 p now' (w'\<lparr>faults := []\<rparr>)) = Inr st2
        \<and> grace_port (st_leases st2) ?k = Some q" if "now' < saturating_add_u64 now GRACE_MS"
    proof -
      obtain st2 :: "'c ServerState" where st2:
        "fst (load_or_new sj tf sha256 p now' (w'\<lparr>faults := []\<rparr>)) = Inr st2"
        "hm_get (leases (st_leases st2)) ?k
           = hm_get (leases (restored_table (snapshot now staged) now')) ?k"
        using reload_saved [OF env(1,2,4) staged registered(6) d(4), where now' = now'] by blast
      then show ?thesis
        using restored_grace_port [OF staged(1) l(1), of now now'] that l(2,3)
        by (simp add: lease_expiry_def grace_port_def)
    qed
    then show ?thesis
      using registered own act by (auto simp: hm.get_put)
  qed simp_all
qed

theorem registration_binds_first_free_port_witness:
  "fst (register_with_recovery wire_serde std_tempfile sha_demo Inr [1] (Some (sha_demo [9])) (V4 1) 100 (Some 7)
      relay_a0 empty_dir)
    = Inr \<lparr>reg_listener = 10000, reg_public_port = 10000, reg_token_id = host_id [1],
        reg_session_id = SessionId 1\<rparr>
   \<and> (\<exists>st2. fst (load_or_new wire_serde std_tempfile sha_demo state_path 300099
          (world_a1\<lparr>faults := []\<rparr>)) = Inr (st2 :: nat ServerState)
        \<and> grace_port (st_leases st2) (host_id [1]) = Some 10000)"
proof -
  have "(300099 :: u64) < saturating_add_u64 100 GRACE_MS" by code_simp
  then show ?thesis
    using registration_binds_first_free_port [OF demo_env relay_a0_reachable register_a1, of 300099]
      register_a1 by (auto simp: sha_demo_def)
qed





text \<open>
  C21: while persistence is unhealthy, registrations, rotations and recoveries are refused without
  any effect, and the next refresh that can save makes the relay accept them again.
\<close>

theorem unhealthy_relay_refuses:
  assumes "\<not> persistence_healthy st"
  shows "register_with_recovery sj tf sha256 bind token r ip now c st w = (Inl StorageUnavailable, st, w)
    \<and> rotate_token sj tf sha256 old new now st w = (Inl StorageUnavailable, st, w)
    \<and> recover sj tf sha256 secret new ip now st w = (Inl StorageUnavailable, st, w)
    \<and> (fst (refresh_and_save sj tf now st w) = Inr () \<longleftrightarrow>
         persistence_healthy (fst (snd (refresh_and_save sj tf now st w))))"
  using assms
  by (auto simp: register_with_recovery_def rotate_token_def recover_def refresh_and_save_def Let_def
      split: prod.splits sum.splits)

theorem unhealthy_relay_refuses_witness:
  "fst (rotate_token wire_serde std_tempfile sha_demo [1] [2] 300 (relay_a0\<lparr>persistence_healthy := False\<rparr>) empty_dir)
    = Inl StorageUnavailable"
proof -
  have "\<not> persistence_healthy (relay_a0\<lparr>persistence_healthy := False\<rparr>)" by simp
  then show ?thesis
    by (subst unhealthy_relay_refuses [THEN conjunct2, THEN conjunct1]) simp_all
qed

text \<open>
  A recovery that succeeds answers with the port of the claim that enrolled the key. If the new
  identity already owns it, nothing changes. Otherwise the claim passes to the new identity, and the
  relay hands out exactly the connection of the identity it passes from, to be closed, and forgets
  it; every other connection stays.
\<close>

theorem recovery_displaces_one_connection:
  assumes "server_env sj tf sha256 p" and "server_reachable sj tf sha256 p (st, w)"
    and "recover sj tf sha256 secret new ip now st w = (Inr (port, connection), st', w')"
    and "new_id = TokenId_from_token sha256 new"
  shows "\<exists>old l. hm_get (leases (reap_expired now (st_leases st))) old = Some l
    \<and> lease_recovery_id l = Some (TokenId_from_token sha256 secret) \<and> lease_port l = port
    \<and> (old = new_id \<and> connection = None \<and> st' = st \<and> w' = w
      \<or> old \<noteq> new_id \<and> connection = map_option snd (hm_get (active_connections st) old)
        \<and> owner_of (st_leases st') = (owner_of (reap_expired now (st_leases st)))(port \<mapsto> new_id)
        \<and> (\<forall>k. hm_get (active_connections st') k =
             (if k = old then None else hm_get (active_connections st) k)))"
proof -
  note d = server_invD [OF server_reachable_inv [OF assms(1,2)]]
  let ?key = "TokenId_from_token sha256 secret" and ?u = "reap_expired now (st_leases st)"
  from assms(3) show ?thesis
  proof (cases rule: recover_cases)
    case (unchanged rec t)
    from unchanged(6) show ?thesis
    proof (cases rule: recover_claim_cases)
      case (repeated l)
      have "hm_get (leases ?u) new_id = Some l"
        using repeated(1,2) lease_inv_get [OF reap_expired_inv [OF d(1)]] assms(4) by simp
      then show ?thesis using repeated(3,4) unchanged(2-4) assms(4) by auto
    qed (use unchanged(5) in auto)
  next
    case (moved rec t r)
    have r: "\<exists>x. r = Inr x" using moved(5) by (cases r) auto
    obtain old l where old: "owner_of ?u (recovered_port rec) = Some old" "old \<noteq> new_id"
      "hm_get (leases ?u) old = Some l" "lease_recovery_id l = Some ?key"
      using recover_claim_owner(2) [OF d(1) moved(3,2)] assms(4) by blast
    obtain old' l' where old': "hm_get (leases (st_leases st)) old' = Some l'"
      "lease_recovery_id l' = Some ?key"
      "displaced rec = map_option (Pair old') (active_session (st_leases st) old')"
      by (rule recover_claim_active_session [OF d(1) moved(3,2)]) blast
    have l0: "hm_get (leases (st_leases st)) old = Some l"
      using old(3) by (simp add: get_reap [OF d(1)] split: option.splits if_splits)
    have "old' = old"
      using lease_inv_other [OF d(1) hm_get_in_set [OF l0] hm_get_in_set [OF old'(1)]] old(4) old'(2)
      by (cases "old' = old") (simp_all add: entries_compatible_def)
    then have disp: "displaced rec = map_option (Pair old) (active_session (st_leases st) old)"
      using old'(3) by simp
    note take = take_displaced_conns [OF d(2) disp]
    have port: "lease_port l = recovered_port rec"
      using old(1,3) owner_of_get [OF reap_expired_inv [OF d(1)], of now "recovered_port rec" old] by simp
    show ?thesis
      using r moved(5,6) take old(2-4) port recover_claim_owner(1) [OF d(1) moved(3,2)] assms(4)
      by (intro exI [of _ old] exI [of _ l]) (auto simp: hm.get_remove)
  qed simp_all
qed

theorem recovery_displaces_one_connection_witness:
  "server_reachable wire_serde std_tempfile sha_demo state_path (relay_a1, world_a1)
    \<and> fst (recover wire_serde std_tempfile sha_demo [9] [2] (V4 2) 300 relay_a1 world_a1)
      = Inr (10000, Some 7)
    \<and> (\<exists>old. hm_get (active_connections relay_a1) old = Some (SessionId 1, 7)
        \<and> hm_get (active_connections (fst (snd (recover wire_serde std_tempfile sha_demo [9] [2] (V4 2) 300
              relay_a1 world_a1)))) old = None)"
proof -
  let ?run = "recover wire_serde std_tempfile sha_demo [9] [2] (V4 2) 300 relay_a1 world_a1"
  have ok: "fst ?run = Inr (10000, Some 7)" by code_simp
  then have run: "?run = (Inr (10000, Some 7), fst (snd ?run), snd (snd ?run))"
    by (metis prod.collapse)
  from recovery_displaces_one_connection [OF demo_env relay_a1_reachable run refl] obtain old where
    old: "Some 7 = map_option snd (hm_get (active_connections relay_a1) old)"
    "\<forall>k. hm_get (active_connections (fst (snd ?run))) k =
       (if k = old then None else hm_get (active_connections relay_a1) k)"
    by auto
  then have "hm_get (active_connections (fst (snd ?run))) old = None" by simp
  moreover have "hm_get (active_connections relay_a1) old = Some (SessionId 1, 7)"
    using old(1) by (auto simp: relay_a1_def relay_conn_def hm_get_def split: if_splits)
  ultimately show ?thesis using relay_a1_reachable ok by blast
qed

end
