(* ===== verification/Identity.thy ===== *)
theory Identity
  imports File_System
begin

text \<open>
  The component \<^verbatim>\<open>crates/core/src/identity.rs\<close> (the Unix build): the files in which the client keeps
  its tunnel identity and its recovery secret, 32 bytes each. A new identity waits in a second file,
  next to the first, until the relay has accepted it; \<open>finish_rotation\<close> and \<open>finish_recovery\<close> rename
  it into place. \<^verbatim>\<open>getrandom\<close> is the parameter \<open>rand\<close>, what it puts in the buffer or \<open>None\<close>;
  \<^verbatim>\<open>ring\<close>'s SHA-256 and \<^verbatim>\<open>tempfile\<close> are parameters too.
\<close>

section \<open>Data\<close>

type_synonym TunnelToken = "u8 list"

datatype identity_error =
    NotRegularFile \<comment> \<open>Identity path is not a regular file\<close>
  | IdentityCorrupt \<comment> \<open>Identity file corrupt: expected 32 bytes\<close>
  | IdentityChanged \<comment> \<open>Identity changed during rotation, or during recovery\<close>
  | PendingChanged \<comment> \<open>Pending identity changed during rotation, or during recovery\<close>
  | PendingEqualsCurrent \<comment> \<open>Pending identity equals current identity\<close>
  | IdentityNoFileName \<comment> \<open>Identity path has no file name\<close>
  | NoRandomness \<comment> \<open>Failed to generate token\<close>
  | RecoveryCodeLength \<comment> \<open>Recovery code must be 64 hex characters\<close>
  | RecoveryCodeDigit \<comment> \<open>Recovery code contains a non-hex character\<close>
  | IdIo io_error

record PendingRecovery =
  pr_path :: path
  pr_pending_path :: path
  pr_old_token :: "TunnelToken option"
  pr_new_token :: TunnelToken

record PendingRotation =
  pt_path :: path
  pt_pending_path :: path
  pt_old_token :: TunnelToken
  pt_new_token :: TunnelToken

section \<open>Paths and recovery codes\<close>

text \<open>The argument is \<^verbatim>\<open>std::env::var\<close>, each value read as a path.\<close>

definition identity_path :: "(string \<Rightarrow> path option) \<Rightarrow> path" where
  "identity_path env =
     (case env ''HOME'' of
        Some p \<Rightarrow> p
      | None \<Rightarrow> (case env ''USERPROFILE'' of Some p \<Rightarrow> p | None \<Rightarrow> [''.'']))
     @ [''.config'', ''gamenet'', ''identity.bin'']"

definition recovery_path :: "(string \<Rightarrow> path option) \<Rightarrow> path" where
  "recovery_path env = with_file_name ''recovery.bin'' (identity_path env)"

definition pending_path :: "path \<Rightarrow> (identity_error, path) result" where
  "pending_path path =
     (case path_file_name path of
        None \<Rightarrow> Err IdentityNoFileName
      | Some filename \<Rightarrow> Ok (with_file_name (filename @ ''.pending'') path))"

definition format_recovery_code :: "TunnelToken \<Rightarrow> string" where
  "format_recovery_code secret = hex_encode secret"

definition recovery_fingerprint :: "(u8 list \<Rightarrow> u8 list) \<Rightarrow> TunnelToken \<Rightarrow> u8 list" where
  "recovery_fingerprint sha256 secret = sha256 secret"

definition parse_recovery_code :: "string \<Rightarrow> (identity_error, TunnelToken) result" where
  "parse_recovery_code text =
     (let code = trim text
      in if length code = 64 \<and> is_ascii code
         then collect_results
           (\<lambda>index. case u8_from_str_radix16 (hex_slice code index) of
              None \<Rightarrow> Err RecoveryCodeDigit | Some b \<Rightarrow> Ok b) [0..<32]
         else Err RecoveryCodeLength)"

section \<open>Reading and creating one file\<close>

definition set_owner_only_id :: "path \<Rightarrow> (identity_error, unit) io" where
  "set_owner_only_id p = io_map_err IdIo (fs_set_permissions p OWNER_ONLY)"

definition read_existing :: "path \<Rightarrow> (identity_error, TunnelToken) io" where
  "read_existing path =
     io_bind (io_map_err IdIo (fs_symlink_metadata path)) (\<lambda>metadata.
       io_then (io_ensure (is_file metadata) NotRegularFile)
        (io_then (set_owner_only_id path)
          (io_bind (io_map_err IdIo (fs_read path)) (\<lambda>bytes.
            if length bytes = 32 then io_return bytes else io_fail IdentityCorrupt))))"

text \<open>The directory entry is flushed after a file got its name.\<close>

definition sync_parent :: "path \<Rightarrow> (identity_error, unit) io" where
  "sync_parent path = io_map_err IdIo (io_then (fs_open (parent_or_dot path)) fs_sync_all)"

definition create_new_private ::
  "tempfile \<Rightarrow> path \<Rightarrow> TunnelToken \<Rightarrow> (identity_error, bool) io" where
  "create_new_private tf path token =
     (let parent = parent_or_dot path in
      io_then (io_map_err IdIo (fs_create_dir_all parent))
       (io_bind (io_map_err IdIo (stage_temp tf parent token)) (\<lambda>temporary w.
         case tf_persist_noclobber tf temporary path w of
           (Inr _, w') \<Rightarrow> io_then (sync_parent path) (io_return True) w'
         | (Inl AlreadyExists, w') \<Rightarrow> (Ok False, tf_drop tf temporary w')
         | (Inl e, w') \<Rightarrow> (Err (IdIo e), tf_drop tf temporary w'))))"

text \<open>
  \<^verbatim>\<open>match fs::symlink_metadata(path)\<close> with a branch for a node that exists and one for none; any
  other error is returned.
\<close>

definition match_node ::
  "path \<Rightarrow> (identity_error, 'a) io \<Rightarrow> (identity_error, 'a) io \<Rightarrow> (identity_error, 'a) io" where
  "match_node path found missing w =
     (case fs_symlink_metadata path w of
        (Inr _, w') \<Rightarrow> found w'
      | (Inl NotFound, w') \<Rightarrow> missing w'
      | (Inl e, w') \<Rightarrow> (Err (IdIo e), w'))"

text \<open>A fresh token is drawn and stored, unless another process was faster.\<close>

definition create_or_read ::
  "tempfile \<Rightarrow> u8 list option \<Rightarrow> path \<Rightarrow> (identity_error, TunnelToken) io" where
  "create_or_read tf rand path =
     (case rand of
        None \<Rightarrow> io_fail NoRandomness
      | Some token \<Rightarrow>
          io_bind (create_new_private tf path token) (\<lambda>created.
            if created then io_return token else read_existing path))"

definition load_or_create_at ::
  "tempfile \<Rightarrow> u8 list option \<Rightarrow> path \<Rightarrow> (identity_error, TunnelToken) io" where
  "load_or_create_at tf rand path =
     match_node path (read_existing path) (create_or_read tf rand path)"

definition load_or_create_identity ::
  "tempfile \<Rightarrow> u8 list option \<Rightarrow> (string \<Rightarrow> path option) \<Rightarrow> (identity_error, TunnelToken) io" where
  "load_or_create_identity tf rand env = load_or_create_at tf rand (identity_path env)"

definition load_or_create_recovery_at ::
  "tempfile \<Rightarrow> u8 list option \<Rightarrow> path \<Rightarrow> (identity_error, TunnelToken) io" where
  "load_or_create_recovery_at tf rand path = load_or_create_at tf rand path"

definition load_or_create_recovery ::
  "tempfile \<Rightarrow> u8 list option \<Rightarrow> (string \<Rightarrow> path option) \<Rightarrow> (identity_error, TunnelToken) io" where
  "load_or_create_recovery tf rand env = load_or_create_recovery_at tf rand (recovery_path env)"

definition read_recovery_at :: "path \<Rightarrow> (identity_error, TunnelToken) io" where
  "read_recovery_at path = read_existing path"

definition read_recovery :: "(string \<Rightarrow> path option) \<Rightarrow> (identity_error, TunnelToken) io" where
  "read_recovery env = read_recovery_at (recovery_path env)"

definition store_recovery_at :: "tempfile \<Rightarrow> path \<Rightarrow> TunnelToken \<Rightarrow> (identity_error, unit) io" where
  "store_recovery_at tf path secret =
     io_bind (create_new_private tf path secret) (\<lambda>created.
       if created then io_return ()
       else io_bind (read_existing path) (\<lambda>existing.
         if existing = secret then io_return ()
         else io_bind (io_map_err IdIo (stage_temp tf (parent_or_dot path) secret)) (\<lambda>temporary.
           io_then (io_map_err IdIo (persist_temp tf temporary path)) (sync_parent path))))"

definition store_recovery ::
  "tempfile \<Rightarrow> (string \<Rightarrow> path option) \<Rightarrow> TunnelToken \<Rightarrow> (identity_error, unit) io" where
  "store_recovery tf env secret = store_recovery_at tf (recovery_path env) secret"

section \<open>Rotation and recovery\<close>

definition prepare_rotation_at ::
  "tempfile \<Rightarrow> u8 list option \<Rightarrow> path \<Rightarrow> (identity_error, PendingRotation) io" where
  "prepare_rotation_at tf rand path =
     io_bind (read_existing path) (\<lambda>old_token.
      io_bind (io_result (pending_path path)) (\<lambda>pending.
       io_bind (match_node pending (read_existing pending) (create_or_read tf rand pending))
        (\<lambda>new_token.
         io_then (io_ensure (old_token \<noteq> new_token) PendingEqualsCurrent)
          (io_return \<lparr>pt_path = path, pt_pending_path = pending,
             pt_old_token = old_token, pt_new_token = new_token\<rparr>))))"

definition prepare_rotation ::
  "tempfile \<Rightarrow> u8 list option \<Rightarrow> (string \<Rightarrow> path option) \<Rightarrow> (identity_error, PendingRotation) io" where
  "prepare_rotation tf rand env = prepare_rotation_at tf rand (identity_path env)"

text \<open>The rename that makes the pending identity the current one, and the flush of its directory.\<close>

definition promote_pending :: "path \<Rightarrow> path \<Rightarrow> (identity_error, unit) io" where
  "promote_pending pending path =
     io_then (io_map_err IdIo (fs_rename pending path)) (sync_parent path)"

definition finish_rotation :: "PendingRotation \<Rightarrow> (identity_error, unit) io" where
  "finish_rotation self =
     io_bind (read_existing (pt_path self)) (\<lambda>current.
      io_then (io_ensure (current = pt_old_token self) IdentityChanged)
       (io_bind (read_existing (pt_pending_path self)) (\<lambda>pending.
         io_then (io_ensure (pending = pt_new_token self) PendingChanged)
          (promote_pending (pt_pending_path self) (pt_path self)))))"

text \<open>The current identity, if there is a file for it (lines 107 to 111 and 132 to 136).\<close>

definition current_identity :: "path \<Rightarrow> (identity_error, TunnelToken option) io" where
  "current_identity path =
     match_node path (io_bind (read_existing path) (\<lambda>token. io_return (Some token)))
       (io_return None)"

definition prepare_recovery_at ::
  "tempfile \<Rightarrow> u8 list option \<Rightarrow> path \<Rightarrow> (identity_error, PendingRecovery) io" where
  "prepare_recovery_at tf rand path =
     io_bind (current_identity path) (\<lambda>old_token.
      io_bind (io_result (pending_path path)) (\<lambda>pending.
       io_bind (load_or_create_at tf rand pending) (\<lambda>new_token.
         io_then (io_ensure (Some new_token \<noteq> old_token) PendingEqualsCurrent)
          (io_return \<lparr>pr_path = path, pr_pending_path = pending,
             pr_old_token = old_token, pr_new_token = new_token\<rparr>))))"

definition prepare_recovery ::
  "tempfile \<Rightarrow> u8 list option \<Rightarrow> (string \<Rightarrow> path option) \<Rightarrow> (identity_error, PendingRecovery) io" where
  "prepare_recovery tf rand env = prepare_recovery_at tf rand (identity_path env)"

definition finish_recovery :: "PendingRecovery \<Rightarrow> (identity_error, unit) io" where
  "finish_recovery self =
     io_bind (current_identity (pr_path self)) (\<lambda>current.
      io_then (io_ensure (current = pr_old_token self) IdentityChanged)
       (io_bind (read_existing (pr_pending_path self)) (\<lambda>pending.
         io_then (io_ensure (pending = pr_new_token self) PendingChanged)
          (promote_pending (pr_pending_path self) (pr_path self)))))"

end
