(* ===== verification/Identity_Effects.thy ===== *)
theory Identity_Effects
  imports Identity
begin

text \<open>
  What one call of the identity component can do to the files, for every pattern of failing system
  calls: the lemmas the properties of the identity files rest on.
\<close>

section \<open>What one call does to the files\<close>

text \<open>
  The contents of the regular files other programs look at; directories and permissions are left
  out.
\<close>

definition files :: "World \<Rightarrow> path \<Rightarrow> u8 list option" where
  "files w p = (case visible w p of Some (Regular bs _) \<Rightarrow> Some bs | _ \<Rightarrow> None)"

text \<open>A file the owner alone can read.\<close>

definition private_file :: "World \<Rightarrow> path \<Rightarrow> u8 list \<Rightarrow> bool" where
  "private_file w p bs \<longleftrightarrow> nodes w p = Some (Regular bs OWNER_ONLY)"

lemma files_cong: "visible w' = visible w \<Longrightarrow> files w' = files w"
  by (simp add: files_def fun_eq_iff)

lemma files_nodes: "nodes w' = nodes w \<Longrightarrow> files w' = files w"
  by (rule files_cong [OF visible_eq])

lemma files_read_only: "read_only m \<Longrightarrow> m w = (r, w') \<Longrightarrow> files w' = files w"
  by (rule files_nodes [OF read_onlyD])

lemma files_Some: "\<not> temp_name p \<Longrightarrow> files w p = Some bs \<longleftrightarrow> (\<exists>m. nodes w p = Some (Regular bs m))"
  by (auto simp: files_def visible_def split: option.splits node.splits)

lemma private_file_files: "private_file w p bs \<Longrightarrow> \<not> temp_name p \<Longrightarrow> files w p = Some bs"
  by (auto simp: private_file_def files_Some)

lemma files_upd: "\<not> temp_name p \<Longrightarrow> visible w' = (visible w)(p \<mapsto> Regular bs m) \<Longrightarrow> files w' = (files w)(p \<mapsto> bs)"
  by (auto simp: files_def)

lemma files_upd_nodes:
  assumes "nodes w' = (nodes w)(p \<mapsto> Regular bs m)" and "\<not> temp_name p"
  shows "files w' = (files w)(p \<mapsto> bs)"
proof (rule files_upd [OF assms(2)])
  show "visible w' = (visible w)(p \<mapsto> Regular bs m)"
    using assms by (auto simp: visible_def)
qed

lemma files_same_bytes:
  assumes "nodes w' = (nodes w)(p \<mapsto> Regular bs m)" and "nodes w p = Some (Regular bs m0)"
  shows "files w' = files w"
  using assms by (auto simp: files_def visible_def)

lemma files_chmod:
  assumes "fs_set_permissions p mode w = (r, w')" and "nodes w p = Some (Regular bs m)"
  shows "files w' = files w"
  using fs_set_permissions_regular [OF assms] files_same_bytes [OF _ assms(2)] files_nodes by blast

lemma fs_read_Inr_regular:
  assumes "fs_read p w = (Inr bs, w')" and "nodes w p = Some (Regular bs0 m)"
  shows "bs = bs0 \<and> nodes w' = nodes w"
  using assms by (auto simp: fs_read_def sys_call_def split: list.splits fault.splits)

lemma fs_symlink_metadata_cases:
  assumes "fs_symlink_metadata p w = (r, w')"
  obtains (node) n where "r = Inr n" "nodes w p = Some n" "nodes w' = nodes w"
  | (missing) "r = Inl NotFound" "nodes w p = None" "nodes w' = nodes w"
  | (fault) e where "r = Inl e" "nodes w' = nodes w" "faults w \<noteq> []"
proof -
  have "(\<exists>n. r = Inr n \<and> nodes w p = Some n) \<or> r = Inl NotFound \<and> nodes w p = None
      \<or> (\<exists>e. r = Inl e \<and> faults w \<noteq> [])"
    using assms by (auto simp: fs_symlink_metadata_def sys_call_def
        split: list.splits fault.splits option.splits)
  moreover have "nodes w' = nodes w" by (rule read_onlyD [OF read_only_primitives(2) assms])
  ultimately show ?thesis using node missing fault by metis
qed

lemma read_existing_run:
  "read_existing p w =
     (case fs_symlink_metadata p w of
        (Inl e, w1) \<Rightarrow> (Inl (IdIo e), w1)
      | (Inr n, w1) \<Rightarrow>
          if \<not> is_file n then (Inl NotRegularFile, w1)
          else case fs_set_permissions p OWNER_ONLY w1 of
              (Inl e, w2) \<Rightarrow> (Inl (IdIo e), w2)
            | (Inr u, w2) \<Rightarrow>
                (case fs_read p w2 of
                   (Inl e, w3) \<Rightarrow> (Inl (IdIo e), w3)
                 | (Inr b, w3) \<Rightarrow>
                     if length b = 32 then (Inr b, w3) else (Inl IdentityCorrupt, w3)))"
  by (simp add: read_existing_def set_owner_only_id_def io_bind_def io_then_def io_ensure_def
      io_return_def io_fail_def io_map_err_def map_err_def split: prod.split sum.split)

lemma read_existing_cases:
  assumes run: "read_existing p w = (r, w')"
  obtains (token) t where "r = Inr t" "length t = 32" "\<exists>m. nodes w p = Some (Regular t m)"
      "nodes w' = (nodes w)(p \<mapsto> Regular t OWNER_ONLY)"
  | (refused) e where "r = Inl e" "files w' = files w"
      "(\<exists>n. nodes w p = Some n \<and> is_file n) \<or> nodes w' = nodes w"
proof (cases "fs_symlink_metadata p w")
  case (Pair r1 w1)
  from Pair show ?thesis
  proof (cases rule: fs_symlink_metadata_cases)
    case (node n)
    note f1 = files_nodes [OF node(3)]
    show ?thesis
    proof (cases n)
      case (Regular bs m)
      have n1: "nodes w1 p = Some (Regular bs m)" using node(2,3) Regular by simp
      have found: "\<exists>n. nodes w p = Some n \<and> is_file n"
        using node(2) Regular by (simp add: is_file_def)
      have keep: "files v = files w1 \<Longrightarrow> r = Inl e \<Longrightarrow> w' = v \<Longrightarrow> thesis" for v e
        using refused [of e] found f1 by simp
      obtain r2 w2 where c: "fs_set_permissions p OWNER_ONLY w1 = (r2, w2)" by fastforce
      note f2 = files_chmod [OF c n1]
      have run2: "(r, w') = (case r2 of Inl e \<Rightarrow> (Inl (IdIo e), w2) | Inr u \<Rightarrow>
          (case fs_read p w2 of (Inl e, w3) \<Rightarrow> (Inl (IdIo e), w3)
           | (Inr b, w3) \<Rightarrow> if length b = 32 then (Inr b, w3) else (Inl IdentityCorrupt, w3)))"
        using run by (simp add: read_existing_run Pair node(1) Regular is_file_def c)
      show ?thesis
      proof (cases r2)
        case (Inl e)
        show ?thesis by (rule keep [OF f2]) (use run2 Inl in simp_all)
      next
        case (Inr u)
        obtain r3 w3 where rd: "fs_read p w2 = (r3, w3)" by fastforce
        have n2: "nodes w2 = (nodes w)(p \<mapsto> Regular bs OWNER_ONLY)"
          using fs_set_permissions_regular [OF c n1] Inr node(3) by auto
        have f3: "nodes w3 = nodes w2" by (rule read_onlyD [OF read_only_primitives(3) rd])
        have n3: "nodes w3 = (nodes w)(p \<mapsto> Regular bs OWNER_ONLY)" by (rule trans [OF f3 n2])
        have f: "files w3 = files w1" by (rule trans [OF files_nodes [OF f3] f2])
        show ?thesis
        proof (cases r3)
          case (Inl e)
          show ?thesis by (rule keep [OF f]) (use run2 Inr Inl rd in simp_all)
        next
          case b: (Inr b)
          have "b = bs" using fs_read_Inr_regular [OF rd [unfolded b], of bs] n2 by simp
          show ?thesis
          proof (cases "length b = 32")
            case True
            show ?thesis
              by (rule token [of b])
                (use run2 Inr b rd True n3 node(2) Regular \<open>b = bs\<close> in simp_all)
          next
            case False
            show ?thesis by (rule keep [OF f]) (use run2 Inr b rd False in simp_all)
          qed
        qed
      qed
    qed (rule refused [of NotRegularFile]; use run f1 node in
        \<open>simp add: read_existing_run Pair is_file_def\<close>)+
  next
    case missing
    show ?thesis by (rule refused [of "IdIo NotFound"]; use run files_nodes [OF missing(3)] missing in
        \<open>simp add: read_existing_run Pair\<close>)
  next
    case (fault e)
    show ?thesis by (rule refused [of "IdIo e"]; use run files_nodes [OF fault(2)] fault in
        \<open>simp add: read_existing_run Pair\<close>)
  qed
qed

lemma files_make_dirs: "files (make_dirs ps w) = files w"
  by (auto simp: files_def visible_def make_dirs_def fun_eq_iff split: option.splits)

lemma create_dir_all_files:
  assumes "fs_create_dir_all p w = (r, w')"
  shows "files w' = files w" and "nodes w q \<noteq> None \<Longrightarrow> nodes w' q = nodes w q"
  using assms files_make_dirs
  by (auto simp: fs_create_dir_all_def sys_call_def make_dirs_def files_def visible_def fun_eq_iff
      split: list.splits fault.splits if_splits option.splits)

lemma sync_parent_read_only [simp]: "read_only (sync_parent p)"
  by (simp add: sync_parent_def)

lemma create_new_private_run:
  "create_new_private tf p t w =
     (case fs_create_dir_all (parent_or_dot p) w of
        (Inl e, w1) \<Rightarrow> (Inl (IdIo e), w1)
      | (Inr u, w1) \<Rightarrow>
          (case stage_temp tf (parent_or_dot p) t w1 of
             (Inl e, w2) \<Rightarrow> (Inl (IdIo e), w2)
           | (Inr temp, w2) \<Rightarrow>
               (case tf_persist_noclobber tf temp p w2 of
                  (Inr u, w3) \<Rightarrow> io_then (sync_parent p) (io_return True) w3
                | (Inl AlreadyExists, w3) \<Rightarrow> (Inr False, tf_drop tf temp w3)
                | (Inl e, w3) \<Rightarrow> (Inl (IdIo e), tf_drop tf temp w3))))"
  by (simp add: create_new_private_def Let_def io_then_def io_bind_def io_map_err_def map_err_def
      split: prod.split sum.split)

lemma sync_then_return_cases:
  assumes "io_then (sync_parent p) (io_return x) w = (r, w')"
  shows "nodes w' = nodes w" and "r = Inr y \<Longrightarrow> y = x"
proof -
  show "nodes w' = nodes w"
    by (rule read_onlyD [of "io_then (sync_parent p) (io_return x)", OF _ assms]) simp
  show "r = Inr y \<Longrightarrow> y = x" using assms by (auto simp: io_iffs)
qed

lemma create_new_private_cases:
  assumes tf: "tempfile_spec tf" and p: "\<not> temp_name p"
    and run: "create_new_private tf p t w = (r, w')"
  obtains (created) "r \<noteq> Inr False" "nodes w p = None" "files w' = (files w)(p \<mapsto> t)"
      "private_file w' p t"
  | (same) "r \<noteq> Inr True" "files w' = files w"
proof (cases "fs_create_dir_all (parent_or_dot p) w")
  case (Pair r1 w1)
  note d = create_dir_all_files [OF Pair]
  show ?thesis
  proof (cases r1)
    case (Inl e)
    show ?thesis by (rule same) (use run Inl Pair d in \<open>auto simp: create_new_private_run\<close>)
  next
    case (Inr u)
    obtain r2 w2 where st: "stage_temp tf (parent_or_dot p) t w1 = (r2, w2)" by fastforce
    note v2 = tempfile_spec.stage_temp_visible [OF tf st]
    have f2: "files w2 = files w" by (rule trans [OF files_cong [OF v2] d(1)])
    show ?thesis
    proof (cases r2)
      case (Inl e)
      show ?thesis
        by (rule same) (use run \<open>r1 = Inr u\<close> Pair st Inl f2 in \<open>auto simp: create_new_private_run\<close>)
    next
      case temp: (Inr temp)
      note stok = tempfile_spec.stage_temp_ok [OF tf st [unfolded temp]]
      obtain r3 w3 where per: "tf_persist_noclobber tf temp p w2 = (r3, w3)" by fastforce
      show ?thesis
      proof (cases r3)
        case (Inl e)
        have "visible (tf_drop tf temp w3) = visible w3"
          using tempfile_spec.visible_drop [OF tf] stok by blast
        moreover have "visible w3 = visible w2"
          by (rule visible_eq [OF tempfile_spec.noclobber_err [OF tf per [unfolded Inl]]])
        ultimately have "files (tf_drop tf temp w3) = files w2" by (intro files_cong) (rule trans)
        then have f: "files (tf_drop tf temp w3) = files w" using f2 by (rule trans)
        have "w' = tf_drop tf temp w3" "r \<noteq> Inr True"
          using run \<open>r1 = Inr u\<close> Pair st temp per Inl
          by (auto simp: create_new_private_run split: io_error.splits)
        then show ?thesis using same f by simp
      next
        case ok: (Inr v)
        note pers = tempfile_spec.noclobber_ok [OF tf per [unfolded ok]]
        have fin: "io_then (sync_parent p) (io_return True) w3 = (r, w')"
          using run \<open>r1 = Inr u\<close> Pair st temp per ok by (simp add: create_new_private_run)
        note n' = sync_then_return_cases(1) [OF fin]
        have n3: "nodes w3 = (nodes w2)(temp := None, p := nodes w2 temp)" using pers by blast
        have t2: "nodes w2 temp = Some (Regular t OWNER_ONLY)" using stok by simp
        have v: "visible w' = (visible w2)(p \<mapsto> Regular t OWNER_ONLY)"
          using n' n3 t2 p stok by (auto simp: visible_def)
        have "nodes w1 p = None"
          using v2 pers p by (metis not_None_eq visible_def)
        then have "nodes w p = None" using d(2) by (metis option.distinct(1))
        moreover have "files w' = (files w)(p \<mapsto> t)" using files_upd [OF p v] f2 by simp
        moreover have "private_file w' p t" using n' n3 t2 by (simp add: private_file_def)
        moreover have "r \<noteq> Inr False" using sync_then_return_cases(2) [OF fin] by blast
        ultimately show ?thesis using created by blast
      qed
    qed
  qed
qed

text \<open>
  The result of a call that ends with the token of a file: either it has the 32-byte contents of the
  file, which is private now, or it failed. No file changes but one that did not exist before.
\<close>

definition token_result ::
  "path \<Rightarrow> TunnelToken option \<Rightarrow> World \<Rightarrow> (identity_error, TunnelToken) result \<Rightarrow> World \<Rightarrow> bool"
where
  "token_result p fresh w r w' \<longleftrightarrow>
     (files w' = files w
      \<or> (\<exists>t. fresh = Some t \<and> nodes w p = None \<and> files w' = (files w)(p \<mapsto> t) \<and> private_file w' p t))
     \<and> (\<forall>t. r = Inr t \<longrightarrow> files w' p = Some t \<and> private_file w' p t
          \<and> (length t = 32 \<or> nodes w p = None \<and> fresh = Some t))"

lemma token_result_read_existing:
  assumes p: "\<not> temp_name p" and run: "read_existing p w = (r, w')"
  shows "token_result p fresh w r w'"
  using run
proof (cases rule: read_existing_cases)
  case (token t)
  obtain m where m: "nodes w p = Some (Regular t m)" using token(3) by blast
  have "private_file w' p t" using token(4) by (simp add: private_file_def)
  moreover have "files w' = files w" by (rule files_same_bytes [OF token(4) m])
  moreover have "files w' p = Some t" using files_upd_nodes [OF token(4) p] by simp
  ultimately show ?thesis using token(1,2) by (simp add: token_result_def)
qed (simp add: token_result_def)

lemma token_result_weaken:
  assumes "files w1 = files w" and "token_result p None w1 r w'"
  shows "token_result p fresh w r w'"
  using assms by (auto simp: token_result_def)

lemma create_or_read_result:
  assumes tf: "tempfile_spec tf" and p: "\<not> temp_name p"
    and run: "create_or_read tf rand p w = (r, w')"
  shows "token_result p rand w r w'"
proof (cases rand)
  case None
  then show ?thesis using run by (auto simp: create_or_read_def io_fail_def token_result_def)
next
  case (Some t)
  obtain r1 w1 where c: "create_new_private tf p t w = (r1, w1)" by fastforce
  have res: "(r, w') = (case r1 of Inl e \<Rightarrow> (Inl e, w1)
      | Inr b \<Rightarrow> if b then (Inr t, w1) else read_existing p w1)"
    using run by (auto simp: create_or_read_def Some io_bind_def io_return_def c split: sum.splits)
  show ?thesis
  proof (cases rule: create_new_private_cases [OF tf p c])
    case 1
    then have "w' = w1" "r = Inr t' \<Longrightarrow> t' = t" for t' using res by (auto split: sum.splits)
    moreover have "files w1 p = Some t" using 1 by simp
    ultimately show ?thesis using 1 Some by (auto simp: token_result_def)
  next
    case 2
    show ?thesis
    proof (cases r1)
      case (Inl e)
      then show ?thesis using res 2 by (simp add: token_result_def)
    next
      case (Inr b)
      then have "read_existing p w1 = (r, w')" using res 2(1) by simp
      then show ?thesis by (rule token_result_weaken [OF 2(2) token_result_read_existing [OF p]])
    qed
  qed
qed

lemma match_node_cases:
  assumes "match_node p found missing w = (r, w')"
  obtains (found) w1 where "nodes w p \<noteq> None" "nodes w1 = nodes w" "found w1 = (r, w')"
  | (missing) w1 where "nodes w1 = nodes w" "missing w1 = (r, w')"
  | (fault) e where "r = Inl e" "nodes w' = nodes w"
proof (cases "fs_symlink_metadata p w")
  case (Pair r1 w1)
  note n = read_onlyD [OF read_only_primitives(2) Pair]
  show ?thesis
  proof (cases rule: fs_symlink_metadata_cases [OF Pair])
    case (1 m)
    then show ?thesis using found [of w1] assms Pair by (simp add: match_node_def)
  next
    case 2
    then show ?thesis using missing [of w1] assms Pair by (simp add: match_node_def)
  next
    case (3 e)
    show ?thesis
    proof (cases "e = NotFound")
      case True
      then show ?thesis using missing [of w1] assms Pair 3 by (simp add: match_node_def)
    next
      case False
      then have "r = Inl (IdIo e)" "w' = w1"
        using assms Pair 3 by (auto simp: match_node_def split: io_error.splits)
      then show ?thesis using fault n by simp
    qed
  qed
qed

lemma token_result_nodes:
  "nodes w1 = nodes w \<Longrightarrow> token_result p fresh w1 r w' \<Longrightarrow> token_result p fresh w r w'"
  by (simp add: token_result_def files_nodes [of w1 w])

lemma match_node_result:
  assumes tf: "tempfile_spec tf" and p: "\<not> temp_name p"
    and run: "match_node p (read_existing p) (create_or_read tf rand p) w = (r, w')"
  shows "token_result p rand w r w'"
  using run
proof (cases rule: match_node_cases)
  case (found w1)
  show ?thesis
    by (rule token_result_nodes [OF found(2) token_result_read_existing [OF p found(3)]])
next
  case (missing w1)
  show ?thesis
    by (rule token_result_nodes [OF missing(1) create_or_read_result [OF tf p missing(2)]])
next
  case (fault e)
  then show ?thesis using files_nodes [OF fault(2)] by (simp add: token_result_def)
qed

lemmas load_or_create_result = match_node_result [folded load_or_create_at_def]

lemma read_existing_frame:
  assumes "read_existing p w = (r, w')" and "\<not> temp_name p"
  shows "files w' = files w" and "r = Inr t \<Longrightarrow> files w p = Some t \<and> private_file w' p t \<and> length t = 32"
  using token_result_read_existing [OF assms(2,1), of None]
  by (auto simp: token_result_def)

lemma read_existing_other: "read_existing p w = (Inr t, w') \<Longrightarrow> q \<noteq> p \<Longrightarrow> nodes w' q = nodes w q"
  by (erule read_existing_cases) simp_all

text \<open>A result of \<open>NotFound\<close> is \<open>None\<close>, whether there is no node or the call failed so.\<close>

lemma current_identity_result:
  assumes p: "\<not> temp_name p" and run: "current_identity p w = (r, w')"
  shows "files w' = files w" and "r = Inr (Some t) \<Longrightarrow> files w p = Some t \<and> length t = 32"
    and "r = Inr x \<Longrightarrow> q \<noteq> p \<Longrightarrow> nodes w' q = nodes w q"
proof -
  have "files w' = files w \<and> (\<forall>t. r = Inr (Some t) \<longrightarrow> files w p = Some t \<and> length t = 32)
      \<and> (\<forall>x. r = Inr x \<longrightarrow> (\<forall>q. q \<noteq> p \<longrightarrow> nodes w' q = nodes w q))"
    using run unfolding current_identity_def
  proof (cases rule: match_node_cases)
    case (found w1)
    obtain r2 w2 where rd: "read_existing p w1 = (r2, w2)" by fastforce
    have "(r, w') = (case r2 of Inl e \<Rightarrow> (Inl e, w2) | Inr t \<Rightarrow> (Inr (Some t), w2))"
      using found(3) rd by (auto simp: io_bind_def io_return_def split: sum.splits)
    then show ?thesis
      using read_existing_frame [OF rd p] read_existing_other [of p w1 _ w2] rd
        files_nodes [OF found(2)] found(2)
      by (auto split: sum.splits)
  next
    case (missing w1)
    then show ?thesis using files_nodes [OF missing(1)] by (auto simp: io_return_def)
  next
    case (fault e)
    then show ?thesis using files_nodes [OF fault(2)] by simp
  qed
  then show "files w' = files w" and "r = Inr (Some t) \<Longrightarrow> files w p = Some t \<and> length t = 32"
    and "r = Inr x \<Longrightarrow> q \<noteq> p \<Longrightarrow> nodes w' q = nodes w q" by blast+
qed

lemma pending_path_apart:
  assumes "pending_path p = Inr q" and "\<not> temp_name p"
  shows "q \<noteq> p" and "\<not> temp_name q"
proof -
  from assms(1) obtain n where n: "path_file_name p = Some n" "q = with_file_name (n @ ''.pending'') p"
    by (auto simp: pending_path_def split: option.splits)
  then have p: "p \<noteq> []" "last p = n" by (auto simp: path_file_name_def split: if_splits)
  have q: "q = butlast p @ [n @ ''.pending'']" using n by (simp add: with_file_name_def)
  then have "last q \<noteq> last p" using p by simp
  then show "q \<noteq> p" by blast
  have "take 4 n \<noteq> ''.tmp''" using assms(2) p by (simp add: temp_name_def)
  then have "take 4 (n @ ''.pending'') \<noteq> ''.tmp''"
    by (cases n rule: list.exhaust [case_names Nil Cons];
        cases "tl n"; cases "tl (tl n)"; cases "tl (tl (tl n))") auto
  then show "\<not> temp_name q" using q by (simp add: temp_name_def)
qed

section \<open>Preparing and finishing\<close>

text \<open>A token was stored in a file that did not exist, or no file changed.\<close>

definition stored_if_absent :: "path \<Rightarrow> TunnelToken option \<Rightarrow> World \<Rightarrow> World \<Rightarrow> bool" where
  "stored_if_absent q rand w w' \<longleftrightarrow>
     files w' = files w \<or> (\<exists>t. rand = Some t \<and> nodes w q = None \<and> files w' = (files w)(q \<mapsto> t))"

definition rand_ok :: "u8 list option \<Rightarrow> bool" where
  "rand_ok rand \<longleftrightarrow> (case rand of None \<Rightarrow> True | Some t \<Rightarrow> length t = 32)"

lemma pending_after:
  assumes "files w1 = files w" and "nodes w1 q = nodes w q" and "token_result q rand w1 r w'"
  shows "stored_if_absent q rand w w'"
    and "r = Inr t \<Longrightarrow> files w' q = Some t \<and> private_file w' q t \<and> (rand_ok rand \<longrightarrow> length t = 32)"
  using assms by (auto simp: token_result_def stored_if_absent_def rand_ok_def)

lemma stored_if_absent_other: "stored_if_absent q rand w w' \<Longrightarrow> p \<noteq> q \<Longrightarrow> files w' p = files w p"
  by (auto simp: stored_if_absent_def)

lemma prepare_rotation_effect:
  assumes tf: "tempfile_spec tf" and p: "\<not> temp_name p" and q: "pending_path p = Inr q"
    and run: "prepare_rotation_at tf rand p w = (r, w')"
  shows "stored_if_absent q rand w w'"
    and "r = Inr pr \<Longrightarrow> pr = \<lparr>pt_path = p, pt_pending_path = q, pt_old_token = pt_old_token pr,
        pt_new_token = pt_new_token pr\<rparr>
      \<and> files w' p = Some (pt_old_token pr) \<and> files w' q = Some (pt_new_token pr)
      \<and> pt_old_token pr \<noteq> pt_new_token pr \<and> length (pt_old_token pr) = 32
      \<and> (rand_ok rand \<longrightarrow> length (pt_new_token pr) = 32)"
proof -
  note qp = pending_path_apart [OF q p]
  obtain r1 w1 where rd: "read_existing p w = (r1, w1)" by fastforce
  note f1 = read_existing_frame [OF rd p]
  have "stored_if_absent q rand w w' \<and> (\<forall>pr. r = Inr pr \<longrightarrow>
        pr = \<lparr>pt_path = p, pt_pending_path = q, pt_old_token = pt_old_token pr,
          pt_new_token = pt_new_token pr\<rparr>
      \<and> files w' p = Some (pt_old_token pr) \<and> files w' q = Some (pt_new_token pr)
      \<and> pt_old_token pr \<noteq> pt_new_token pr \<and> length (pt_old_token pr) = 32
      \<and> (rand_ok rand \<longrightarrow> length (pt_new_token pr) = 32))"
  proof (cases r1)
    case (Inl e)
    then have "r = Inl e" "w' = w1" using run rd by (auto simp: prepare_rotation_at_def io_bind_def)
    then show ?thesis using f1(1) by (simp add: stored_if_absent_def)
  next
    case (Inr old)
    obtain r2 w2 where lc: "load_or_create_at tf rand q w1 = (r2, w2)" by fastforce
    have other: "nodes w1 q = nodes w q"
      by (rule read_existing_other [OF rd [unfolded Inr] qp(1)])
    note pend = pending_after [OF f1(1) other load_or_create_result [OF tf qp(2) lc]]
    have res: "(r, w') = (case r2 of Inl e \<Rightarrow> (Inl e, w2) | Inr new \<Rightarrow>
        if old \<noteq> new then (Inr \<lparr>pt_path = p, pt_pending_path = q, pt_old_token = old,
          pt_new_token = new\<rparr>, w2) else (Inl PendingEqualsCurrent, w2))"
      using run rd Inr q lc
      by (auto simp: prepare_rotation_at_def load_or_create_at_def io_bind_def io_result_def
          io_then_def io_ensure_def io_return_def io_fail_def split: sum.splits if_splits)
    have w': "w' = w2" using res by (auto split: sum.splits if_splits)
    have old: "files w2 p = Some old" "length old = 32"
      using f1(2) [OF Inr] stored_if_absent_other [OF pend(1), of p] qp(1) by auto
    show ?thesis
      using res pend old unfolding w' by (auto split: sum.splits if_splits)
  qed
  then show "stored_if_absent q rand w w'"
    and "r = Inr pr \<Longrightarrow> pr = \<lparr>pt_path = p, pt_pending_path = q, pt_old_token = pt_old_token pr,
        pt_new_token = pt_new_token pr\<rparr>
      \<and> files w' p = Some (pt_old_token pr) \<and> files w' q = Some (pt_new_token pr)
      \<and> pt_old_token pr \<noteq> pt_new_token pr \<and> length (pt_old_token pr) = 32
      \<and> (rand_ok rand \<longrightarrow> length (pt_new_token pr) = 32)"
    by blast+
qed

lemma prepare_recovery_effect:
  assumes tf: "tempfile_spec tf" and p: "\<not> temp_name p" and q: "pending_path p = Inr q"
    and run: "prepare_recovery_at tf rand p w = (r, w')"
  shows "stored_if_absent q rand w w'"
    and "r = Inr pr \<Longrightarrow> pr_path pr = p \<and> pr_pending_path pr = q
      \<and> files w' q = Some (pr_new_token pr) \<and> Some (pr_new_token pr) \<noteq> pr_old_token pr
      \<and> (pr_old_token pr \<noteq> None \<longrightarrow> files w' p = pr_old_token pr)
      \<and> (rand_ok rand \<longrightarrow> length (pr_new_token pr) = 32)"
proof -
  note qp = pending_path_apart [OF q p]
  obtain r1 w1 where rd: "current_identity p w = (r1, w1)" by fastforce
  note f1 = current_identity_result [OF p rd]
  have "stored_if_absent q rand w w' \<and> (\<forall>pr. r = Inr pr \<longrightarrow> pr_path pr = p \<and> pr_pending_path pr = q
      \<and> files w' q = Some (pr_new_token pr) \<and> Some (pr_new_token pr) \<noteq> pr_old_token pr
      \<and> (pr_old_token pr \<noteq> None \<longrightarrow> files w' p = pr_old_token pr)
      \<and> (rand_ok rand \<longrightarrow> length (pr_new_token pr) = 32))"
  proof (cases r1)
    case (Inl e)
    then have "r = Inl e" "w' = w1" using run rd by (auto simp: prepare_recovery_at_def io_bind_def)
    then show ?thesis using f1(1) by (simp add: stored_if_absent_def)
  next
    case (Inr old)
    obtain r2 w2 where lc: "load_or_create_at tf rand q w1 = (r2, w2)" by fastforce
    note pend = pending_after [OF f1(1) f1(3) [OF Inr qp(1)] load_or_create_result [OF tf qp(2) lc]]
    have res: "(r, w') = (case r2 of Inl e \<Rightarrow> (Inl e, w2) | Inr new \<Rightarrow>
        if Some new \<noteq> old then (Inr \<lparr>pr_path = p, pr_pending_path = q, pr_old_token = old,
          pr_new_token = new\<rparr>, w2) else (Inl PendingEqualsCurrent, w2))"
      using run rd Inr q lc
      by (auto simp: prepare_recovery_at_def io_bind_def io_result_def
          io_then_def io_ensure_def io_return_def io_fail_def split: sum.splits if_splits)
    have w': "w' = w2" using res by (auto split: sum.splits if_splits)
    have old: "old = Some t \<Longrightarrow> files w2 p = Some t" for t
      using f1(2) [of t] Inr stored_if_absent_other [OF pend(1), of p] qp(1) by auto
    show ?thesis
      using res pend old unfolding w' by (cases old) (auto split: sum.splits if_splits)
  qed
  then show "stored_if_absent q rand w w'"
    and "r = Inr pr \<Longrightarrow> pr_path pr = p \<and> pr_pending_path pr = q
      \<and> files w' q = Some (pr_new_token pr) \<and> Some (pr_new_token pr) \<noteq> pr_old_token pr
      \<and> (pr_old_token pr \<noteq> None \<longrightarrow> files w' p = pr_old_token pr)
      \<and> (rand_ok rand \<longrightarrow> length (pr_new_token pr) = 32)"
    by blast+
qed

text \<open>The rename moves the pending file onto the identity file; both stay as they were otherwise.\<close>

lemma promote_pending_cases:
  assumes run: "promote_pending q p w = (r, w')" and m: "nodes w q = Some (Regular t m)"
    and apart: "q \<noteq> p" "\<not> temp_name p" "\<not> temp_name q"
  obtains (kept) e where "r = Inl e" "files w' = files w"
  | (promoted) "files w' = (files w)(q := None, p \<mapsto> t)"
proof -
  obtain r1 w1 where mv: "fs_rename q p w = (r1, w1)" by fastforce
  show ?thesis
  proof (cases r1)
    case (Inl e)
    then have n: "nodes w1 = nodes w" using fs_rename_result [OF mv] by auto
    have "r = Inl (IdIo e)" "w' = w1"
      using run mv Inl
      by (auto simp: promote_pending_def io_then_def io_bind_def io_map_err_def map_err_def)
    then show ?thesis using kept [of "IdIo e"] files_nodes [OF n] by simp
  next
    case (Inr u)
    then have n1: "nodes w1 = (nodes w)(q := None, p := nodes w q)"
      using fs_rename_result [OF mv] by auto
    have "sync_parent p w1 = (r, w')"
      using run mv Inr by (simp add: promote_pending_def io_then_def io_bind_def io_map_err_def map_err_def)
    then have "files w' = files w1" by (rule files_read_only [OF sync_parent_read_only])
    also have "\<dots> = (files w)(q := None, p \<mapsto> t)"
      using n1 m apart by (auto simp: files_def visible_def)
    finally show ?thesis by (rule promoted)
  qed
qed

text \<open>The common end of \<open>finish_rotation\<close> and \<open>finish_recovery\<close>.\<close>

lemma finish_tail_cases:
  assumes run: "io_then (io_ensure b e0) (io_bind (read_existing q) (\<lambda>pending.
      io_then (io_ensure (pending = new) PendingChanged) (promote_pending q p))) w = (r, w')"
    and apart: "q \<noteq> p" "\<not> temp_name p" "\<not> temp_name q"
  obtains (kept) e where "r = Inl e" "files w' = files w"
  | (promoted) "b" "files w q = Some new" "files w' = (files w)(q := None, p \<mapsto> new)"
proof (cases b)
  case True
  obtain r1 w1 where rd: "read_existing q w = (r1, w1)" by fastforce
  note f = read_existing_frame [OF rd apart(3)]
  show ?thesis
  proof (cases "r1 = Inr new")
    case new: True
    have "promote_pending q p w1 = (r, w')"
      using run \<open>b\<close> rd new by (simp add: io_then_def io_bind_def io_ensure_def io_return_def)
    moreover have "nodes w1 q = Some (Regular new OWNER_ONLY)"
      using f(2) [OF new] by (simp add: private_file_def)
    ultimately show ?thesis
    proof (cases rule: promote_pending_cases [OF _ _ apart, consumes 2, case_names keeps moves])
      case (keeps e)
      show ?thesis by (rule kept [OF keeps(1) trans [OF keeps(2) f(1)]])
    next
      case moves
      show ?thesis by (rule promoted) (use moves f(1) f(2) [OF new] True in simp_all)
    qed
  next
    case False
    then have "w' = w1" "\<exists>e. r = Inl e"
      using run \<open>b\<close> rd
      by (auto simp: io_then_def io_bind_def io_ensure_def io_return_def io_fail_def
          split: sum.splits if_splits)
    then show ?thesis using kept f(1) by auto
  qed
qed (use run kept in \<open>auto simp: io_then_def io_bind_def io_ensure_def io_fail_def\<close>)

lemma finish_rotation_cases:
  assumes run: "finish_rotation pr w = (r, w')"
    and apart: "pt_pending_path pr \<noteq> pt_path pr" "\<not> temp_name (pt_path pr)"
      "\<not> temp_name (pt_pending_path pr)"
  obtains (kept) e where "r = Inl e" "files w' = files w"
  | (promoted) "files w (pt_path pr) = Some (pt_old_token pr)"
      "files w (pt_pending_path pr) = Some (pt_new_token pr)"
      "files w' = (files w)(pt_pending_path pr := None, pt_path pr \<mapsto> pt_new_token pr)"
proof -
  obtain r1 w1 where rd: "read_existing (pt_path pr) w = (r1, w1)" by fastforce
  note f = read_existing_frame [OF rd apart(2)]
  show ?thesis
  proof (cases r1)
    case (Inl e)
    then show ?thesis using kept run rd f(1) by (auto simp: finish_rotation_def io_bind_def)
  next
    case (Inr t)
    have "io_then (io_ensure (t = pt_old_token pr) IdentityChanged)
       (io_bind (read_existing (pt_pending_path pr)) (\<lambda>pending.
         io_then (io_ensure (pending = pt_new_token pr) PendingChanged)
          (promote_pending (pt_pending_path pr) (pt_path pr)))) w1 = (r, w')"
      using run rd Inr by (simp add: finish_rotation_def io_bind_def)
    from this apart show ?thesis
    proof (cases rule: finish_tail_cases [consumes 4, case_names keeps moves])
      case (keeps e)
      show ?thesis by (rule kept [OF keeps(1) trans [OF keeps(2) f(1)]])
    next
      case moves
      show ?thesis
        by (rule promoted) (use moves f(1) f(2) [OF Inr] in simp_all)
    qed
  qed
qed

lemma finish_recovery_cases:
  assumes run: "finish_recovery pr w = (r, w')"
    and apart: "pr_pending_path pr \<noteq> pr_path pr" "\<not> temp_name (pr_path pr)"
      "\<not> temp_name (pr_pending_path pr)"
  obtains (kept) e where "r = Inl e" "files w' = files w"
  | (promoted) "pr_old_token pr \<noteq> None \<longrightarrow> files w (pr_path pr) = pr_old_token pr"
      "files w (pr_pending_path pr) = Some (pr_new_token pr)"
      "files w' = (files w)(pr_pending_path pr := None, pr_path pr \<mapsto> pr_new_token pr)"
proof -
  obtain r1 w1 where rd: "current_identity (pr_path pr) w = (r1, w1)" by fastforce
  note f = current_identity_result [OF apart(2) rd]
  show ?thesis
  proof (cases r1)
    case (Inl e)
    then show ?thesis using kept run rd f(1) by (auto simp: finish_recovery_def io_bind_def)
  next
    case (Inr t)
    have "io_then (io_ensure (t = pr_old_token pr) IdentityChanged)
       (io_bind (read_existing (pr_pending_path pr)) (\<lambda>pending.
         io_then (io_ensure (pending = pr_new_token pr) PendingChanged)
          (promote_pending (pr_pending_path pr) (pr_path pr)))) w1 = (r, w')"
      using run rd Inr by (simp add: finish_recovery_def io_bind_def)
    from this apart show ?thesis
    proof (cases rule: finish_tail_cases [consumes 4, case_names keeps moves])
      case (keeps e)
      show ?thesis by (rule kept [OF keeps(1) trans [OF keeps(2) f(1)]])
    next
      case moves
      show ?thesis
        by (rule promoted) (use moves f(1) f(2) Inr in \<open>auto simp: Inr\<close>)
    qed
  qed
qed

lemma store_recovery_effect:
  assumes tf: "tempfile_spec tf" and p: "\<not> temp_name p"
    and run: "store_recovery_at tf p secret w = (r, w')"
  shows "files w' = files w \<or> files w' = (files w)(p \<mapsto> secret)"
    and "r = Inr u \<Longrightarrow> files w' p = Some secret \<and> private_file w' p secret"
proof -
  obtain r1 w1 where c: "create_new_private tf p secret w = (r1, w1)" by fastforce
  let ?done = "\<lambda>v. files v p = Some secret \<and> private_file v p secret"
  have "(files w' = files w \<or> files w' = (files w)(p \<mapsto> secret)) \<and> (\<forall>u. r = Inr u \<longrightarrow> ?done w')"
  proof (cases rule: create_new_private_cases [OF tf p c])
    case 1
    then have "w' = w1" using run c
      by (cases r1) (auto simp: store_recovery_at_def io_bind_def io_return_def split: if_splits)
    then show ?thesis using 1 by simp
  next
    case 2
    show ?thesis
    proof (cases r1)
      case (Inl e)
      then show ?thesis using run c 2 by (auto simp: store_recovery_at_def io_bind_def)
    next
      case (Inr b)
      obtain r2 w2 where rd: "read_existing p w1 = (r2, w2)" by fastforce
      note f = read_existing_frame [OF rd p]
      have f2: "files w2 = files w" by (rule trans [OF f(1) 2(2)])
      have res: "(r, w') = (case r2 of Inl e \<Rightarrow> (Inl e, w2) | Inr t \<Rightarrow>
          if t = secret then (Inr (), w2)
          else io_bind (io_map_err IdIo (stage_temp tf (parent_or_dot p) secret)) (\<lambda>temporary.
             io_then (io_map_err IdIo (persist_temp tf temporary p)) (sync_parent p)) w2)"
        using run c Inr 2(1) rd
        by (auto simp: store_recovery_at_def io_bind_def io_return_def split: sum.splits)
      show ?thesis
      proof (cases "\<exists>t. r2 = Inr t \<and> t \<noteq> secret")
        case True
        then have "io_bind (io_map_err IdIo (stage_temp tf (parent_or_dot p) secret)) (\<lambda>temporary.
             io_then (io_map_err IdIo (persist_temp tf temporary p)) (sync_parent p)) w2 = (r, w')"
          using res by auto
        then show ?thesis
        proof (cases rule: tempfile_spec.replace_file_cases
            [OF tf p _ sync_parent_read_only, consumes 1, case_names keeps moves])
          case (keeps e)
          then show ?thesis using files_cong [OF keeps(2)] f2 by simp
        next
          case moves
          then have "private_file w' p secret"
            using p by (simp add: private_file_def visible_def fun_eq_iff split: if_splits)
          then show ?thesis
            using files_upd [OF p moves] f2 by simp
        qed
      next
        case False
        then have "w' = w2" "r = Inr u \<Longrightarrow> r2 = Inr secret" for u
          using res by (auto split: sum.splits if_splits)
        then show ?thesis using f2 f by auto
      qed
    qed
  qed
  then show "files w' = files w \<or> files w' = (files w)(p \<mapsto> secret)"
    and "r = Inr u \<Longrightarrow> files w' p = Some secret \<and> private_file w' p secret"
    by blast+
qed

end
