(* ===== verification/Identity_Properties.thy ===== *)
theory Identity_Properties
  imports Identity_Effects
begin

text \<open>
  The properties of the identity files: no call ever tears a file or replaces one it should not, a
  created identity is private and stays, damaged files are refused and kept, an interrupted rotation
  is resumed with the same tokens, and recovery codes are read back.
\<close>

section \<open>Recovery codes\<close>

definition ascii_space :: "char \<Rightarrow> bool" where
  "ascii_space c \<longleftrightarrow> c = CHR '' '' \<or> c = CHR 0x09 \<or> c = CHR 0x0A \<or> c = CHR 0x0B \<or> c = CHR 0x0C \<or> c = CHR 0x0D"

lemma ws_prefix_space: "ascii_space c \<Longrightarrow> ws_prefix (str_bytes (c # cs)) = 1"
  by (auto simp: ascii_space_def str_bytes_def)

lemma ws_prefix_ascii: "n \<noteq> 32 \<Longrightarrow> \<not> (9 \<le> n \<and> n \<le> 13) \<Longrightarrow> n < 128 \<Longrightarrow> ws_prefix (n # ns) = 0"
  by (auto split: list.split)

lemma ws_prefix_hex: "is_ascii_hexdigit c \<Longrightarrow> ws_prefix (str_bytes (c # cs)) = 0"
  unfolding str_bytes_def list.map
  by (rule ws_prefix_ascii) (auto simp: is_ascii_hexdigit_def Let_def)

lemma trim_start_spaces:
  assumes "list_all ascii_space ws" and "is_ascii_hexdigit c"
  shows "trim_start (ws @ c # cs) = c # cs"
  using assms(1)
proof (induction ws)
  case Nil
  then show ?case
    using ws_prefix_hex [OF assms(2)] by (subst trim_start.simps) (simp add: Let_def)
next
  case (Cons a ws)
  then show ?case
    using ws_prefix_space [of a "ws @ c # cs"] by (subst trim_start.simps) (simp add: Let_def)
qed

lemma ws_suffix_space: "ascii_space c \<Longrightarrow> ws_suffix (str_bytes (s @ [c])) = 1"
  using ws_prefix_space [of c "[]"] by (simp add: ws_suffix_def str_bytes_def)

lemma ws_prefix_two:
  assumes "x < 128"
  shows "ws_prefix [y, x] \<noteq> 2" and "ws_prefix [z, y, x] \<noteq> 3" and "ws_prefix [x] \<noteq> 2"
    "ws_prefix [x] \<noteq> 3" "ws_prefix [y, x] \<noteq> 3"
  using assms by auto

lemma ws_suffix_hex:
  assumes "is_ascii_hexdigit c"
  shows "ws_suffix (str_bytes (s @ [c])) = 0"
proof -
  let ?x = "of_char c :: nat"
  have x: "?x < 128" by (rule hexdigit_ascii [OF assms])
  have one: "ws_prefix [?x] = 0" using ws_prefix_hex [OF assms, of "[]"] by (simp add: str_bytes_def)
  consider "s = []" | b where "s = [b]" | s' a b where "s = s' @ [a, b]"
    by (metis append_butlast_last_id append.assoc append_Cons append_Nil)
  then show ?thesis
    by cases (use x one ws_prefix_two [OF x] in \<open>simp_all add: ws_suffix_def str_bytes_def\<close>)
qed

lemma trim_end_spaces:
  assumes "list_all ascii_space ws" and "is_ascii_hexdigit c"
  shows "trim_end (s @ c # ws) = s @ [c]"
  using assms(1)
proof (induction ws rule: rev_induct)
  case Nil
  then show ?case
    using ws_suffix_hex [OF assms(2), of s] by (subst trim_end.simps) (simp add: Let_def)
next
  case (snoc a ws)
  then show ?case
    using ws_suffix_space [of a "s @ c # ws"] by (subst trim_end.simps) (simp add: Let_def)
qed

lemma trim_hex:
  assumes "list_all ascii_space ws" and "list_all ascii_space ws'" and "bs \<noteq> []"
  shows "trim (ws @ hex_encode bs @ ws') = hex_encode bs"
proof -
  have len: "2 \<le> length (hex_encode bs)" using assms(3) by (cases bs) simp_all
  then obtain c cs where c: "hex_encode bs = c # cs" by (cases "hex_encode bs") auto
  obtain s d where d: "hex_encode bs = s @ [d]" using len by (cases "hex_encode bs" rule: rev_cases) auto
  have hex: "list_all is_ascii_hexdigit (hex_encode bs)"
    using hex_encode_lower [of bs] by (simp add: list_all_iff)
  have "trim_start (ws @ hex_encode bs @ ws') = hex_encode bs @ ws'"
    using trim_start_spaces [OF assms(1), of c "cs @ ws'"] hex c by simp
  moreover have "trim_end (hex_encode bs @ ws') = hex_encode bs"
    using trim_end_spaces [OF assms(2), of d s] hex d by simp
  ultimately show ?thesis by (simp add: trim_def)
qed

lemma parse_recovery_code_format:
  assumes "list_all ascii_space ws" and "list_all ascii_space ws'" and "length bs = 32"
  shows "parse_recovery_code (ws @ format_recovery_code bs @ ws') = Inr bs"
proof -
  have trim: "trim (ws @ hex_encode bs @ ws') = hex_encode bs"
    by (rule trim_hex [OF assms(1,2)]) (use assms(3) in auto)
  have "collect_results (\<lambda>index. case u8_from_str_radix16 (hex_slice (hex_encode bs) index) of
      None \<Rightarrow> Err RecoveryCodeDigit | Some b \<Rightarrow> Ok b) [0..<32] = Inr (map ((!) bs) [0..<32])"
    by (rule collect_results_all) (simp add: hex_slice_encode assms(3) u8_from_str_radix16_fmt)
  then show ?thesis
    using assms(3) map_nth [of bs]
    by (simp add: parse_recovery_code_def format_recovery_code_def trim hex_encode_ascii
        del: upt_rec_numeral)
qed

interpretation recovery_code: codec format_recovery_code parse_recovery_code "\<lambda>bs. length bs = 32"
proof
  fix bs :: TunnelToken
  assume "length bs = 32"
  then show "parse_recovery_code (format_recovery_code bs) = Inr bs"
    using parse_recovery_code_format [of "[]" "[]" bs] by simp
qed

section \<open>Runs without failing calls\<close>

lemma read_existing_fault_free:
  assumes "faults w = []"
  shows "read_existing p w =
    (case nodes w p of
       None \<Rightarrow> (Inl (IdIo NotFound), w)
     | Some (Regular bs m) \<Rightarrow>
         (if length bs = 32 then Inr bs else Inl IdentityCorrupt,
          w\<lparr>nodes := (nodes w)(p \<mapsto> Regular bs OWNER_ONLY)\<rparr>)
     | Some n \<Rightarrow> (Inl NotRegularFile, w))"
  using assms
  by (auto simp: read_existing_run fs_symlink_metadata_def fs_set_permissions_def fs_read_def is_file_def
      split: option.splits node.splits)

lemma read_existing_files: "files (snd (read_existing p w)) = files w"
proof (cases rule: read_existing_cases [OF prod.collapse [symmetric], of p w])
  case (1 t)
  then obtain m where "nodes w p = Some (Regular t m)" by blast
  then show ?thesis by (rule files_same_bytes [OF 1(4)])
qed

lemma match_node_fault_free:
  "faults w = [] \<Longrightarrow> match_node p found missing w = (if nodes w p = None then missing w else found w)"
  by (auto simp: match_node_def fs_symlink_metadata_def split: option.splits)

lemma read_existing_reads:
  assumes "faults w = []" and "\<not> temp_name p" and "files w p = Some t" and "length t = 32"
  obtains w' where "read_existing p w = (Inr t, w')" "files w' = files w" "faults w' = []"
    "\<forall>x. x \<noteq> p \<longrightarrow> nodes w' x = nodes w x"
proof -
  let ?w = "w\<lparr>nodes := (nodes w)(p \<mapsto> Regular t OWNER_ONLY)\<rparr>"
  obtain m where "nodes w p = Some (Regular t m)" using assms(2,3) files_Some by blast
  then have "read_existing p w = (Inr t, ?w)"
    using assms(4) by (simp add: read_existing_fault_free [OF assms(1)])
  then show ?thesis
    using that [of ?w] read_existing_files [of p w] assms(1) by simp
qed

lemma prepare_rotation_reads:
  assumes "\<not> temp_name p" and "pending_path p = Inr q" and "faults w = []"
    and "files w p = Some (pt_old_token pr)" and "files w q = Some (pt_new_token pr)"
    and "length (pt_old_token pr) = 32" and "length (pt_new_token pr) = 32"
    and "pt_old_token pr \<noteq> pt_new_token pr" and "pt_path pr = p" and "pt_pending_path pr = q"
  shows "\<exists>w'. prepare_rotation_at tf rand p w = (Inr pr, w') \<and> files w' = files w \<and> faults w' = []
    \<and> (\<forall>x. x \<noteq> p \<and> x \<noteq> q \<longrightarrow> nodes w' x = nodes w x)"
proof -
  note qp = pending_path_apart [OF assms(2,1)]
  obtain w1 where r1: "read_existing p w = (Inr (pt_old_token pr), w1)" "files w1 = files w"
    "faults w1 = []" "\<forall>x. x \<noteq> p \<longrightarrow> nodes w1 x = nodes w x"
    by (rule read_existing_reads [OF assms(3,1,4,6)])
  have f1: "files w1 q = Some (pt_new_token pr)" using assms(5) r1(2) by simp
  obtain w2 where r2: "read_existing q w1 = (Inr (pt_new_token pr), w2)" "files w2 = files w1"
    "faults w2 = []" "\<forall>x. x \<noteq> q \<longrightarrow> nodes w2 x = nodes w1 x"
    by (rule read_existing_reads [OF r1(3) qp(2) f1 assms(7)])
  have "nodes w1 q \<noteq> None" using f1 qp(2) files_Some by fastforce
  then have "prepare_rotation_at tf rand p w = (Inr pr, w2)"
    using r1(1) r2(1) assms(2,8,9,10)
    by (auto simp: prepare_rotation_at_def io_bind_def io_result_def io_then_def io_ensure_def
        io_return_def match_node_fault_free [OF r1(3)])
  then show ?thesis using r1(2,4) r2(2-4) by simp
qed

lemma finish_rotation_completes:
  assumes "faults w = []" and "\<not> temp_name p" and "\<not> temp_name q" and "p \<noteq> q"
    and "files w p = Some old" and "files w q = Some new" and "length old = 32" and "length new = 32"
    and "parent_or_dot p = butlast p" and "nodes w (butlast p) = Some Directory"
  shows "\<exists>w'. finish_rotation \<lparr>pt_path = p, pt_pending_path = q, pt_old_token = old, pt_new_token = new\<rparr> w
      = (Inr (), w') \<and> files w' = (files w)(q := None, p \<mapsto> new)"
proof -
  let ?pr = "\<lparr>pt_path = p, pt_pending_path = q, pt_old_token = old, pt_new_token = new\<rparr>"
  obtain w1 where r1: "read_existing p w = (Inr old, w1)" "files w1 = files w" "faults w1 = []"
    "\<forall>x. x \<noteq> p \<longrightarrow> nodes w1 x = nodes w x"
    by (rule read_existing_reads [OF assms(1,2,5,7)])
  have f1: "files w1 q = Some new" using assms(6) r1(2) by simp
  obtain w2 where r2: "read_existing q w1 = (Inr new, w2)" "files w2 = files w1" "faults w2 = []"
    "\<forall>x. x \<noteq> q \<longrightarrow> nodes w2 x = nodes w1 x"
    by (rule read_existing_reads [OF r1(3) assms(3) f1 assms(8)])
  obtain m m' where n: "nodes w2 q = Some (Regular new m)" "nodes w2 p = Some (Regular old m')"
    using assms(2,3,5,6) r1(2) r2(2) files_Some by metis
  have apart: "butlast p \<noteq> p" "butlast p \<noteq> q"
    using assms(5,6,10) files_Some [OF assms(2)] files_Some [OF assms(3)] by fastforce+
  then have d: "nodes w2 (butlast p) = Some Directory" using assms(10) r1(4) r2(4) by simp
  let ?w = "w2\<lparr>nodes := (nodes w2)(q := None, p \<mapsto> Regular new m)\<rparr>"
  have "promote_pending q p w2 = (Inr (), ?w)"
    using n d r2(3) apart assms(9)
    by (simp add: promote_pending_def io_then_def io_bind_def io_map_err_def map_err_def sync_parent_def
        fs_rename_def dir_exists_def fs_open_def fs_sync_all_def lookup_followed_def numeral_eq_Suc)
  then have "finish_rotation ?pr w = (Inr (), ?w)"
    using r1(1) r2(1) by (simp add: finish_rotation_def io_bind_def io_then_def io_ensure_def io_return_def)
  moreover have "files ?w = (files w)(q := None, p \<mapsto> new)"
  proof (rule finish_rotation_cases [OF \<open>finish_rotation ?pr w = (Inr (), ?w)\<close>])
    fix e assume "(Inr () :: (identity_error, unit) result) = Inl e"
    then show ?thesis by simp
  qed (use assms(2-4) in simp_all)
  ultimately show ?thesis by blast
qed

section \<open>The world of the instances\<close>

lemma fst_run: "fst x = a \<Longrightarrow> x = (a, snd x)"
  by (cases x) simp

definition home_env :: "string \<Rightarrow> path option" where
  "home_env name = (if name = ''HOME'' then Some [''h''] else None)"

definition home_world :: World where
  "home_world = \<lparr>nodes = (\<lambda>p. if p = [''h''] then Some Directory else None), faults = []\<rparr>"

definition id_path :: path where
  "id_path = identity_path home_env"

definition id_pending :: path where
  "id_pending = with_file_name ''identity.bin.pending'' id_path"

definition id_a :: TunnelToken where
  "id_a = replicate 32 7"

definition id_b :: TunnelToken where
  "id_b = replicate 32 9"

text \<open>The world after the first start of the client, and after a rotation was prepared.\<close>

definition home_a :: World where
  "home_a = snd (load_or_create_at std_tempfile (Some id_a) id_path home_world)"

definition home_ab :: World where
  "home_ab = snd (prepare_rotation_at std_tempfile (Some id_b) id_path home_a)"

definition rotation_ab :: PendingRotation where
  "rotation_ab =
     \<lparr>pt_path = id_path, pt_pending_path = id_pending, pt_old_token = id_a, pt_new_token = id_b\<rparr>"

lemma id_path_facts: "\<not> temp_name id_path" "pending_path id_path = Inr id_pending"
  by code_simp+

lemma home_a_run: "load_or_create_at std_tempfile (Some id_a) id_path home_world = (Inr id_a, home_a)"
proof -
  have "fst (load_or_create_at std_tempfile (Some id_a) id_path home_world) = Inr id_a" by code_simp
  then show ?thesis unfolding home_a_def by (rule fst_run)
qed

lemma home_ab_run:
  "prepare_rotation_at std_tempfile (Some id_b) id_path home_a = (Inr rotation_ab, home_ab)"
proof -
  have "fst (prepare_rotation_at std_tempfile (Some id_b) id_path home_a) = Inr rotation_ab" by code_simp
  then show ?thesis unfolding home_ab_def by (rule fst_run)
qed

lemma home_faults: "faults home_world = []" "faults home_a = []" "faults home_ab = []"
  by code_simp+

section \<open>Properties\<close>




text \<open>
  C31: a token that loading or creating returns is in the identity file, which only the owner can read
  and write, and every later load without failing calls returns it again, whatever the random
  source gives then.
\<close>

theorem identity_created_once:
  assumes "tempfile_spec tf" and "\<not> temp_name p" and "rand_ok rand"
    and "load_or_create_at tf rand p w = (Inr t, w')" and "faults w' = []"
  shows "length t = 32 \<and> nodes w' p = Some (Regular t OWNER_ONLY)
    \<and> load_or_create_at tf rand' p w' = (Inr t, w')"
proof -
  have r: "token_result p rand w (Inr t) w'"
    by (rule load_or_create_result [OF assms(1,2,4)])
  then have t: "nodes w' p = Some (Regular t OWNER_ONLY)" "length t = 32"
    using assms(3) by (auto simp: token_result_def private_file_def rand_ok_def)
  then have "(nodes w')(p \<mapsto> Regular t OWNER_ONLY) = nodes w'" by auto
  then show ?thesis
    using t assms(5)
    by (simp add: load_or_create_at_def match_node_fault_free read_existing_fault_free)
qed

theorem identity_created_once_witness:
  "tempfile_spec std_tempfile \<and> nodes home_a id_path = Some (Regular id_a OWNER_ONLY)
    \<and> load_or_create_at std_tempfile (Some id_b) id_path home_a = (Inr id_a, home_a)"
proof -
  have "rand_ok (Some id_a)" by code_simp
  then show ?thesis
    using identity_created_once [OF std_tf.tempfile_spec_axioms id_path_facts(1) _ home_a_run home_faults(2)]
      std_tf.tempfile_spec_axioms by blast
qed

text \<open>
  C32: when no system call fails, an identity file is read exactly when it is a regular file of 32
  bytes. A missing file, a link, directory or device, and a file of another length are each refused
  with their own error; then neither starting the client nor a rotation nor a recovery goes on, and no
  contents change. The same holds for a damaged pending file.
\<close>

theorem damaged_identity_refused:
  assumes "faults w = []"
  shows "fst (read_existing p w) =
      (case nodes w p of
         None \<Rightarrow> Inl (IdIo NotFound)
       | Some (Regular bs m) \<Rightarrow> if length bs = 32 then Inr bs else Inl IdentityCorrupt
       | Some n \<Rightarrow> Inl NotRegularFile)
    \<and> files (snd (read_existing p w)) = files w
    \<and> (fst (read_existing p w) = Inl e \<longrightarrow>
        prepare_rotation_at tf rand p w = (Inl e, snd (read_existing p w))
        \<and> (nodes w p \<noteq> None \<longrightarrow>
             load_or_create_at tf rand p w = (Inl e, snd (read_existing p w))
             \<and> prepare_recovery_at tf rand p w = (Inl e, snd (read_existing p w))))
    \<and> (pending_path p = Inr q \<and> q \<noteq> p \<and> nodes w q \<noteq> None
          \<and> fst (read_existing q w) = Inl e \<and> is_ok (fst (read_existing p w)) \<longrightarrow>
        fst (prepare_rotation_at tf rand p w) = Inl e
        \<and> files (snd (prepare_rotation_at tf rand p w)) = files w
        \<and> fst (prepare_recovery_at tf rand p w) = Inl e
        \<and> files (snd (prepare_recovery_at tf rand p w)) = files w)"
proof (intro conjI impI; (elim conjE)?)
  show "fst (read_existing p w) =
      (case nodes w p of
         None \<Rightarrow> Inl (IdIo NotFound)
       | Some (Regular bs m) \<Rightarrow> if length bs = 32 then Inr bs else Inl IdentityCorrupt
       | Some n \<Rightarrow> Inl NotRegularFile)"
    by (simp add: read_existing_fault_free [OF assms] split: option.split node.split)
  show "files (snd (read_existing p w)) = files w" by (rule read_existing_files)
  assume "fst (read_existing p w) = Inl e"
  then obtain v where run: "read_existing p w = (Inl e, v)" by (cases "read_existing p w") simp
  then show "prepare_rotation_at tf rand p w = (Inl e, snd (read_existing p w))"
    by (simp add: prepare_rotation_at_def io_bind_def)
  assume "nodes w p \<noteq> None"
  then show "load_or_create_at tf rand p w = (Inl e, snd (read_existing p w))"
    "prepare_recovery_at tf rand p w = (Inl e, snd (read_existing p w))"
    using run
    by (simp_all add: load_or_create_at_def prepare_recovery_at_def current_identity_def
        match_node_fault_free [OF assms] io_bind_def del: not_None_eq)
next
  assume q: "pending_path p = Inr q" "q \<noteq> p" "nodes w q \<noteq> None" "fst (read_existing q w) = Inl e"
    and "is_ok (fst (read_existing p w))"
  then obtain t v where run: "read_existing p w = (Inr t, v)"
    by (cases "read_existing p w") (auto simp: is_ok_iff)
  have v: "faults v = []" "nodes v q = nodes w q" "nodes w p \<noteq> None"
    using run assms q(2)
    by (auto simp: read_existing_fault_free split: option.splits node.splits if_splits)
  have "fst (read_existing q v) = Inl e"
    using q(4) unfolding read_existing_fault_free [OF v(1)] read_existing_fault_free [OF assms] v(2)
    by (auto split: option.splits node.splits)
  then obtain u where u: "read_existing q v = (Inl e, u)" by (cases "read_existing q v") simp
  have fails: "load_or_create_at tf rand q v = (Inl e, u)"
    using v(2) q(3) u by (simp add: load_or_create_at_def match_node_fault_free [OF v(1)] del: not_None_eq)
  have f: "files u = files w"
    using read_existing_files [of q v] read_existing_files [of p w] u run by simp
  have "prepare_rotation_at tf rand p w = (Inl e, u)"
    using fails by (simp add: prepare_rotation_at_def io_bind_def run q(1) io_result_def
        flip: load_or_create_at_def)
  then show "fst (prepare_rotation_at tf rand p w) = Inl e"
    "files (snd (prepare_rotation_at tf rand p w)) = files w" using f by simp_all
  have "current_identity p w = (Inr (Some t), v)"
    using run v(3) by (simp add: current_identity_def match_node_fault_free [OF assms] io_bind_def
        io_return_def)
  then have "prepare_recovery_at tf rand p w = (Inl e, u)"
    using fails by (simp add: prepare_recovery_at_def io_bind_def q(1) io_result_def)
  then show "fst (prepare_recovery_at tf rand p w) = Inl e"
    "files (snd (prepare_recovery_at tf rand p w)) = files w" using f by simp_all
qed

theorem damaged_identity_refused_witness:
  "\<not> is_ok (fst (prepare_rotation_at std_tempfile (Some id_b) id_path
      (home_a\<lparr>nodes := (nodes home_a)(id_pending \<mapsto> Symlink id_path)\<rparr>)))"
proof -
  let ?w = "home_a\<lparr>nodes := (nodes home_a)(id_pending \<mapsto> Symlink id_path)\<rparr>"
  have "faults ?w = []" "id_pending \<noteq> id_path" "is_ok (fst (read_existing id_path ?w))"
    "fst (read_existing id_pending ?w) = Inl NotRegularFile" by code_simp+
  then show ?thesis
    using damaged_identity_refused [of ?w id_path NotRegularFile std_tempfile "Some id_b" id_pending]
      id_path_facts(2) by simp
qed

text \<open>
  An interrupted rotation is resumed: however a rotation was prepared and whatever failed since,
  as long as the two files keep their contents a further preparation, with any random source, gives
  the same two tokens, so that the relay is asked the same question again.
\<close>

theorem rotation_resumes:
  assumes "tempfile_spec tf" and "\<not> temp_name p" and "pending_path p = Inr q" and "rand_ok rand"
    and "prepare_rotation_at tf rand p w = (Inr pr, w1)"
    and "files w2 p = files w1 p" and "files w2 q = files w1 q" and "faults w2 = []"
  shows "\<exists>w3. prepare_rotation_at tf rand' p w2 = (Inr pr, w3) \<and> files w3 = files w2"
proof -
  note prep = prepare_rotation_effect(2) [OF assms(1-3,5) refl]
  have "pt_path pr = p" "pt_pending_path pr = q"
    using prep by (metis PendingRotation.select_convs)+
  then show ?thesis
    using prepare_rotation_reads [OF assms(2,3,8), of pr tf rand'] prep assms(4,6,7) by auto
qed

theorem rotation_resumes_witness:
  "tempfile_spec std_tempfile
    \<and> fst (prepare_rotation_at std_tempfile (Some id_a) id_path home_ab) = Inr rotation_ab"
proof -
  have "rand_ok (Some id_b)" by code_simp
  then show ?thesis
    using rotation_resumes [OF std_tf.tempfile_spec_axioms id_path_facts _ home_ab_run refl refl
        home_faults(3), of "Some id_a"] std_tf.tempfile_spec_axioms by auto
qed

text \<open>
  C33: a recovery code is 64 lower-case hexadecimal digits, reads back as the secret also between white
  space, and belongs to one secret only; the parser, against its error message, also takes a plus
  sign in place of a first digit.
\<close>

theorem recovery_code_roundtrip:
  assumes "length secret = 32" and "length secret' = 32"
    and "list_all ascii_space before" and "list_all ascii_space after"
  shows "parse_recovery_code (before @ format_recovery_code secret @ after) = Inr secret
    \<and> length (format_recovery_code secret) = 64
    \<and> (\<forall>c \<in> set (format_recovery_code secret). is_ascii_hexdigit c \<and> \<not> is_ascii_uppercase c)
    \<and> (format_recovery_code secret = format_recovery_code secret' \<longleftrightarrow> secret = secret')
    \<and> parse_recovery_code (concat (replicate 32 ''+f'')) = Inr (replicate 32 15)"
proof (intro conjI)
  show "parse_recovery_code (before @ format_recovery_code secret @ after) = Inr secret"
    by (rule parse_recovery_code_format [OF assms(3,4,1)])
  show "length (format_recovery_code secret) = 64"
    using assms(1) by (simp add: format_recovery_code_def)
  show "\<forall>c \<in> set (format_recovery_code secret). is_ascii_hexdigit c \<and> \<not> is_ascii_uppercase c"
    using hex_encode_lower [of secret] by (simp add: format_recovery_code_def list_all_iff)
  show "format_recovery_code secret = format_recovery_code secret' \<longleftrightarrow> secret = secret'"
    using recovery_code.enc_inj [OF assms(1,2)] by blast
  show "parse_recovery_code (concat (replicate 32 ''+f'')) = Inr (replicate 32 15)" by code_simp
qed

theorem recovery_code_roundtrip_witness:
  "parse_recovery_code ('' '' @ format_recovery_code id_a @ [CHR 0x0A]) = Inr id_a
    \<and> format_recovery_code id_a \<noteq> format_recovery_code id_b"
proof -
  have "length id_a = 32" "length id_b = 32" "id_a \<noteq> id_b"
    "list_all ascii_space '' ''" "list_all ascii_space [CHR 0x0A]" by code_simp+
  then show ?thesis
    using recovery_code_roundtrip [of id_a id_b "'' ''" "[CHR 0x0A]"] by blast
qed

end
