(* ===== verification/Windows_Acl.thy ===== *)
theory Windows_Acl
  imports Rust_Std "HOL-Library.Multiset"
begin

text \<open>
  The component \<^verbatim>\<open>crates/core/src/identity/windows_acl.rs\<close>: the access list that makes a file its
  owner's on Windows. The Windows functions are the parameter \<open>win32\<close> on a state \<open>'s\<close>; what is
  documented of them is the locale \<open>win32_spec\<close>, interpreted on a small model of handles, heap and
  files. A path is the list of its 16-bit units; addresses are numbers, 0 the null pointer; sizes are
  those of a 64-bit build.
\<close>

section \<open>The interface\<close>

type_synonym handle = nat
type_synonym sid = nat
type_synonym acl = nat

datatype win_error =
    LastOsError u32 \<comment> \<open>\<^verbatim>\<open>io::Error::last_os_error\<close>\<close>
  | RawOsError int \<comment> \<open>\<^verbatim>\<open>io::Error::from_raw_os_error\<close>\<close>
  | MissingSid \<comment> \<open>Current user SID is missing\<close>

datatype access_mode = SET_ACCESS | GRANT_ACCESS | DENY_ACCESS

definition GENERIC_ALL :: u32 where
  "GENERIC_ALL = 0x10000000"

definition NO_INHERITANCE :: u32 where
  "NO_INHERITANCE = 0"

definition DACL_SECURITY_INFORMATION :: u32 where
  "DACL_SECURITY_INFORMATION = 4"

definition PROTECTED_DACL_SECURITY_INFORMATION :: u32 where
  "PROTECTED_DACL_SECURITY_INFORMATION = 0x80000000"

text \<open>\<^verbatim>\<open>EXPLICIT_ACCESS_W\<close>, with a user's SID as its trustee.\<close>

record explicit_access =
  grfAccessPermissions :: u32
  grfAccessMode :: access_mode
  grfInheritance :: u32
  trustee_sid :: sid

text \<open>
  \<open>get_token_information h capacity len s\<close> is called with a buffer of \<open>capacity\<close> bytes, of which it is
  told \<open>len\<close>: it returns whether it succeeded, the length it reports and the user's SID in the buffer.
\<close>

record 's win32 =
  open_process_token :: "'s \<Rightarrow> handle option \<times> 's"
  get_token_information :: "handle \<Rightarrow> nat \<Rightarrow> u32 \<Rightarrow> 's \<Rightarrow> bool \<times> u32 \<times> sid \<times> 's"
  set_entries_in_acl :: "explicit_access list \<Rightarrow> 's \<Rightarrow> u32 \<times> acl \<times> 's"
  set_named_security_info :: "u16 list \<Rightarrow> u32 \<Rightarrow> acl \<Rightarrow> 's \<Rightarrow> u32 \<times> 's"
  close_handle :: "handle \<Rightarrow> 's \<Rightarrow> 's"
  local_free :: "acl \<Rightarrow> 's \<Rightarrow> 's"
  get_last_error :: "'s \<Rightarrow> u32"

section \<open>The function\<close>

definition SIZE_OF_TOKEN_USER :: nat where
  "SIZE_OF_TOKEN_USER = 16"

definition SIZE_OF_USIZE :: nat where
  "SIZE_OF_USIZE = 8"

definition div_ceil :: "nat \<Rightarrow> nat \<Rightarrow> nat" where
  "div_ceil a b = a div b + (if a mod b = 0 then 0 else 1)"

text \<open>The SID of the current user: the length is asked for first, then the buffer is filled.\<close>

definition current_user :: "'s win32 \<Rightarrow> handle \<Rightarrow> 's \<Rightarrow> (win_error, sid) result \<times> 's" where
  "current_user api token s =
     (case get_token_information api token 0 0 s of
        (_, required, _, s1) \<Rightarrow>
          if unat required < SIZE_OF_TOKEN_USER then (Err (LastOsError (get_last_error api s1)), s1)
          else
            let words = div_ceil (unat required) SIZE_OF_USIZE in
            (case get_token_information api token (words * SIZE_OF_USIZE) required s1 of
               (False, _, _, s2) \<Rightarrow> (Err (LastOsError (get_last_error api s2)), s2)
             | (True, _, sid, s2) \<Rightarrow> if sid = 0 then (Err MissingSid, s2) else (Ok sid, s2)))"

definition owner_entry :: "sid \<Rightarrow> explicit_access" where
  "owner_entry sid =
     \<lparr>grfAccessPermissions = GENERIC_ALL, grfAccessMode = SET_ACCESS, grfInheritance = NO_INHERITANCE,
      trustee_sid = sid\<rparr>"

text \<open>The destructors of \<^verbatim>\<open>TokenHandle\<close> and \<^verbatim>\<open>LocalAcl\<close>.\<close>

definition drop_token_handle :: "'s win32 \<Rightarrow> handle \<Rightarrow> 's \<Rightarrow> 's" where
  "drop_token_handle api token s = close_handle api token s"

definition drop_local_acl :: "'s win32 \<Rightarrow> acl \<Rightarrow> 's \<Rightarrow> 's" where
  "drop_local_acl api acl s = local_free api acl s"

text \<open>The access list is made, put on the file and, by \<^verbatim>\<open>LocalAcl\<close>'s destructor, freed.\<close>

definition protect_path :: "'s win32 \<Rightarrow> u16 list \<Rightarrow> sid \<Rightarrow> 's \<Rightarrow> (win_error, unit) result \<times> 's" where
  "protect_path api path sid s =
     (case set_entries_in_acl api [owner_entry sid] s of
        (status, acl, s1) \<Rightarrow>
          if status \<noteq> 0 then (Err (RawOsError (sint status)), s1)
          else
            (case set_named_security_info api (path @ [0])
                    (DACL_SECURITY_INFORMATION OR PROTECTED_DACL_SECURITY_INFORMATION) acl s1 of
               (status, s2) \<Rightarrow>
                 (if status \<noteq> 0 then Err (RawOsError (sint status)) else Ok (), drop_local_acl api acl s2)))"

text \<open>\<^verbatim>\<open>set_owner_only\<close>: \<^verbatim>\<open>TokenHandle\<close>'s destructor closes the token on every way out.\<close>

definition set_owner_only_windows :: "'s win32 \<Rightarrow> u16 list \<Rightarrow> 's \<Rightarrow> (win_error, unit) result \<times> 's" where
  "set_owner_only_windows api path s =
     (case open_process_token api s of
        (None, s1) \<Rightarrow> (Err (LastOsError (get_last_error api s1)), s1)
      | (Some token, s1) \<Rightarrow>
          (case (case current_user api token s1 of
                   (Inl e, s2) \<Rightarrow> (Err e, s2)
                 | (Inr sid, s2) \<Rightarrow> protect_path api path sid s2) of
             (r, s3) \<Rightarrow> (r, drop_token_handle api token s3)))"

section \<open>What is documented of the interface\<close>

text \<open>
  \<open>handles\<close> and \<open>heap\<close> are the open handles and the allocated access lists, with their entries;
  \<open>dacl\<close> the protected list of each file. A name is read up to its terminating zero. Nothing is
  promised of a call that is told of a buffer larger than it is.
\<close>

definition c_string :: "u16 list \<Rightarrow> u16 list" where
  "c_string name = takeWhile (\<lambda>c. c \<noteq> 0) name"

locale win32_spec =
  fixes api :: "'s win32"
    and user :: sid
    and handles :: "'s \<Rightarrow> handle multiset"
    and heap :: "'s \<Rightarrow> acl \<rightharpoonup> explicit_access list"
    and dacl :: "'s \<Rightarrow> u16 list \<Rightarrow> explicit_access list option"
  assumes opened: "open_process_token api s = (Some h, s') \<Longrightarrow>
      handles s' = add_mset h (handles s) \<and> heap s' = heap s \<and> dacl s' = dacl s"
    and not_opened: "open_process_token api s = (None, s') \<Longrightarrow>
      handles s' = handles s \<and> heap s' = heap s \<and> dacl s' = dacl s"
    and token_info: "get_token_information api h capacity len s = (ok, required, sid, s') \<Longrightarrow>
      unat len \<le> capacity \<Longrightarrow>
      handles s' = handles s \<and> heap s' = heap s \<and> dacl s' = dacl s
      \<and> (ok \<longrightarrow> SIZE_OF_TOKEN_USER \<le> capacity \<longrightarrow> sid = user \<or> sid = 0)"
    and acl_made: "set_entries_in_acl api entries s = (status, acl, s') \<Longrightarrow>
      handles s' = handles s \<and> dacl s' = dacl s
      \<and> (if status = 0 then heap s acl = None \<and> heap s' = (heap s)(acl \<mapsto> entries) else heap s' = heap s)"
    and acl_set: "set_named_security_info api name info acl s = (status, s') \<Longrightarrow> heap s acl = Some entries \<Longrightarrow>
      0 \<in> set name \<Longrightarrow>
      info = DACL_SECURITY_INFORMATION OR PROTECTED_DACL_SECURITY_INFORMATION \<Longrightarrow>
      handles s' = handles s \<and> heap s' = heap s
      \<and> dacl s' = (if status = 0 then (dacl s)(c_string name \<mapsto> entries) else dacl s)"
    and closed: "h \<in># handles s \<Longrightarrow>
      handles (close_handle api h s) = handles s - {#h#} \<and> heap (close_handle api h s) = heap s
      \<and> dacl (close_handle api h s) = dacl s"
    and freed: "heap s acl \<noteq> None \<Longrightarrow>
      handles (local_free api acl s) = handles s \<and> heap (local_free api acl s) = (heap s)(acl := None)
      \<and> dacl (local_free api acl s) = dacl s"
begin

abbreviation unchanged :: "'s \<Rightarrow> 's \<Rightarrow> bool" where
  "unchanged s s' \<equiv> handles s' = handles s \<and> heap s' = heap s \<and> dacl s' = dacl s"

end

text \<open>The buffer holds the length that was asked for, and a \<^verbatim>\<open>TOKEN_USER\<close>.\<close>

lemma div_ceil_capacity: "a \<le> div_ceil a SIZE_OF_USIZE * SIZE_OF_USIZE"
proof -
  have split: "a = a div 8 * 8 + a mod 8" "a mod 8 < 8" by simp_all
  show ?thesis
  proof (cases "a mod 8 = 0")
    case True
    then show ?thesis using split(1) unfolding div_ceil_def SIZE_OF_USIZE_def by simp
  next
    case False
    have "a \<le> a div 8 * 8 + 8" using split by linarith
    then show ?thesis using False unfolding div_ceil_def SIZE_OF_USIZE_def by simp
  qed
qed

lemma c_string_terminated: "0 \<notin> set path \<Longrightarrow> c_string (path @ [0]) = path"
  by (induction path) (auto simp: c_string_def)

context win32_spec
begin

lemma current_user_result:
  assumes "current_user api token s = (r, s')"
  shows "unchanged s s'" and "r = Inr sid \<Longrightarrow> sid = user"
proof -
  obtain ok required sid0 s1 where a: "get_token_information api token 0 0 s = (ok, required, sid0, s1)"
    by (metis surj_pair)
  note u1 = token_info [OF a, simplified]
  let ?cap = "div_ceil (unat required) SIZE_OF_USIZE * SIZE_OF_USIZE"
  obtain ok2 required2 sid2 s2 where
    b: "get_token_information api token ?cap required s1 = (ok2, required2, sid2, s2)"
    by (metis surj_pair)
  note u2 = token_info [OF b div_ceil_capacity]
  note run = assms [unfolded current_user_def a prod.case Let_def b]
  show "unchanged s s'" using run u1 u2 by (auto split: if_splits bool.splits)
  assume r: "r = Inr sid"
  then have "SIZE_OF_TOKEN_USER \<le> ?cap" "ok2" "sid = sid2" "sid2 \<noteq> 0"
    using run div_ceil_capacity [of "unat required"] by (auto split: if_splits bool.splits)
  then show "sid = user" using u2 by blast
qed

lemma protect_path_result:
  assumes "protect_path api path sid s = (r, s')" and "0 \<notin> set path"
  shows "handles s' = handles s" and "heap s' = heap s"
    and "dacl s' = (if r = Ok () then (dacl s)(path \<mapsto> [owner_entry sid]) else dacl s)"
proof -
  obtain status acl s1 where a: "set_entries_in_acl api [owner_entry sid] s = (status, acl, s1)"
    by (metis surj_pair)
  note u1 = acl_made [OF a]
  obtain status2 s2 where b: "set_named_security_info api (path @ [0])
      (DACL_SECURITY_INFORMATION OR PROTECTED_DACL_SECURITY_INFORMATION) acl s1 = (status2, s2)"
    by fastforce
  note run = assms(1) [unfolded protect_path_def a prod.case b]
  have "handles s' = handles s \<and> heap s' = heap s
      \<and> dacl s' = (if r = Ok () then (dacl s)(path \<mapsto> [owner_entry sid]) else dacl s)"
  proof (cases "status = 0")
    case False
    then show ?thesis using run u1 by auto
  next
    case True
    then have live: "heap s1 acl = Some [owner_entry sid]" using u1 by simp
    note u2 = acl_set [OF b live _ refl, simplified c_string_terminated [OF assms(2)], simplified]
    then have "heap s2 acl \<noteq> None" using live by simp
    from freed [OF this] show ?thesis using run u1 u2 True by (auto simp: fun_upd_idem drop_local_acl_def)
  qed
  then show "handles s' = handles s" "heap s' = heap s"
    "dacl s' = (if r = Ok () then (dacl s)(path \<mapsto> [owner_entry sid]) else dacl s)" by blast+
qed

lemma owner_only_result:
  assumes run: "set_owner_only_windows api path s = (r, s')" and path: "0 \<notin> set path"
  shows "handles s' = handles s \<and> heap s' = heap s
    \<and> dacl s' = (if r = Ok () then (dacl s)(path \<mapsto> [owner_entry user]) else dacl s)"
proof -
  obtain h s1 where a: "open_process_token api s = (h, s1)" by fastforce
  show ?thesis
  proof (cases h)
    case None
    then show ?thesis using run a not_opened by (auto simp: set_owner_only_windows_def)
  next
    case (Some token)
    note u1 = opened [OF a [unfolded Some]]
    obtain r2 s2 where b: "current_user api token s1 = (r2, s2)" by fastforce
    note u2 = current_user_result(1) [OF b]
    show ?thesis
    proof (cases r2)
      case (Inl e)
      then have "r = Inl e" "s' = close_handle api token s2"
        using run a b Some by (simp_all add: set_owner_only_windows_def drop_token_handle_def)
      then show ?thesis using closed [of token s2] u1 u2 by simp
    next
      case (Inr sid)
      obtain r3 s3 where c: "protect_path api path sid s2 = (r3, s3)" by fastforce
      note u3 = protect_path_result [OF c path]
      have "r = r3" "s' = close_handle api token s3"
        using run a b c Some Inr by (simp_all add: set_owner_only_windows_def drop_token_handle_def)
      moreover have "sid = user" by (rule current_user_result(2) [OF b Inr])
      ultimately show ?thesis using closed [of token s3] u1 u2 u3 by simp
    qed
  qed
qed

end

section \<open>A small Windows\<close>

record windows =
  open_handles :: "handle list"
  acls :: "(acl \<times> explicit_access list) list"
  files :: "u16 list \<rightharpoonup> explicit_access list"
  last_error :: u32
  denied :: bool

definition sim_set_named :: "u16 list \<Rightarrow> u32 \<Rightarrow> acl \<Rightarrow> windows \<Rightarrow> u32 \<times> windows" where
  "sim_set_named name info acl s =
     (if denied s then (5, s)
      else case map_of (acls s) acl of
        None \<Rightarrow> (0x539, s)
      | Some entries \<Rightarrow> (0, s\<lparr>files := (files s)(c_string name \<mapsto> entries)\<rparr>))"

definition sim_windows :: "windows win32" where
  "sim_windows =
     \<lparr>open_process_token = (\<lambda>s. let h = length (open_handles s) in (Some h, s\<lparr>open_handles := h # open_handles s\<rparr>)),
      get_token_information = (\<lambda>h capacity len s.
         if unat len < 44 then (False, 44, 0, s\<lparr>last_error := 122\<rparr>) else (True, 44, 7, s)),
      set_entries_in_acl = (\<lambda>entries s.
         let a = Suc (fold max (map fst (acls s)) 0) in (0, a, s\<lparr>acls := (a, entries) # acls s\<rparr>)),
      set_named_security_info = sim_set_named,
      close_handle = (\<lambda>h s. s\<lparr>open_handles := remove1 h (open_handles s)\<rparr>),
      local_free = (\<lambda>a s. s\<lparr>acls := filter (\<lambda>e. fst e \<noteq> a) (acls s)\<rparr>),
      get_last_error = last_error\<rparr>"

abbreviation sim_heap :: "windows \<Rightarrow> acl \<rightharpoonup> explicit_access list" where
  "sim_heap s \<equiv> map_of (acls s)"

lemma fold_max_above: "(n :: nat) \<le> fold max xs n \<and> (\<forall>x \<in> set xs. x \<le> fold max xs n)"
proof (induction xs arbitrary: n)
  case (Cons x xs)
  then show ?case by (metis fold_Cons comp_apply max.bounded_iff set_ConsD)
qed simp

lemma fresh_acl: "map_of xs (Suc (fold max (map fst xs) 0)) = None"
proof (rule ccontr)
  assume "map_of xs (Suc (fold max (map fst xs) 0)) \<noteq> None"
  then obtain e where "(Suc (fold max (map fst xs) 0), e) \<in> set xs" by (auto dest: map_of_SomeD)
  then have "Suc (fold max (map fst xs) 0) \<in> set (map fst xs)" by force
  then show False using fold_max_above [of 0 "map fst xs"] by force
qed

lemma map_of_without: "map_of (filter (\<lambda>e. fst e \<noteq> a) xs) = (map_of xs)(a := None)"
  by (induction xs) (auto simp: fun_eq_iff)

interpretation sim: win32_spec sim_windows 7 "\<lambda>s. mset (open_handles s)" sim_heap files
proof (unfold_locales, goal_cases)
  case (3 h capacity len s ok required sid s')
  then show ?case by (auto simp: sim_windows_def split: if_splits)
next
  case (4 entries s status acl s')
  then show ?case by (auto simp: sim_windows_def Let_def fresh_acl)
next
  case (5 name info acl s status s' entries)
  then show ?case by (auto simp: sim_windows_def sim_set_named_def split: if_splits)
qed (auto simp: sim_windows_def Let_def map_of_without)

section \<open>The property\<close>

text \<open>
  C40: \<^verbatim>\<open>set_owner_only\<close> on a path without a zero unit, whatever Windows answers: every handle it opened
  is closed and every list it allocated is freed; if it succeeds the file's protected list has one
  entry, which sets all rights of the current user, and no other file's list changed; if it fails no
  list changed. The token's buffer is never said to be longer than it is.
\<close>

theorem windows_acl_owner_only:
  assumes "win32_spec api user handles heap dacl" and "0 \<notin> set path"
    and "set_owner_only_windows api path s = (r, s')"
  shows "handles s' = handles s \<and> heap s' = heap s \<and>
    dacl s' = (if r = Ok ()
      then (dacl s)(path \<mapsto> [\<lparr>grfAccessPermissions = GENERIC_ALL, grfAccessMode = SET_ACCESS,
                             grfInheritance = NO_INHERITANCE, trustee_sid = user\<rparr>])
      else dacl s)"
  using win32_spec.owner_only_result [OF assms(1,3,2)] by (simp add: owner_entry_def)

definition demo_windows :: windows where
  "demo_windows = \<lparr>open_handles = [], acls = [], files = Map.empty, last_error = 122, denied = False\<rparr>"

lemma demo_windows_run:
  "set_owner_only_windows sim_windows [105, 100] demo_windows
    = (Ok (), demo_windows\<lparr>files := [[105, 100] \<mapsto> [owner_entry 7]]\<rparr>)"
  "set_owner_only_windows sim_windows [105, 100] (demo_windows\<lparr>denied := True\<rparr>)
    = (Err (RawOsError 5), demo_windows\<lparr>denied := True\<rparr>)"
  by (simp_all add: set_owner_only_windows_def drop_token_handle_def drop_local_acl_def current_user_def protect_path_def sim_windows_def demo_windows_def
      sim_set_named_def SIZE_OF_TOKEN_USER_def Let_def c_string_def div_ceil_def SIZE_OF_USIZE_def)

theorem windows_acl_owner_only_witness:
  "files (demo_windows\<lparr>files := [[105, 100] \<mapsto> [owner_entry 7]]\<rparr>) [105, 100]
    = Some [\<lparr>grfAccessPermissions = GENERIC_ALL, grfAccessMode = SET_ACCESS,
             grfInheritance = NO_INHERITANCE, trustee_sid = 7\<rparr>]"
  using windows_acl_owner_only [OF sim.win32_spec_axioms _ demo_windows_run(1)] by simp

end
