(* ===== verification/Control_Message.thy ===== *)
theory Control_Message
  imports Identity Wire_Format
begin

text \<open>
  The control protocol: the messages of \<^verbatim>\<open>crates/core/src/protocol.rs\<close> and their frames of
  \<^verbatim>\<open>crates/core/src/message.rs\<close>, a length of four bytes before a \<^verbatim>\<open>bincode\<close> payload. The crate
  \<^verbatim>\<open>bincode\<close> and the streams are parameters; what the program relies on are the locales
  \<open>bincode_spec\<close>, \<open>async_write_spec\<close> and \<open>async_read_spec\<close>, interpreted on the combinators of
  \<open>Wire_Format\<close>, on a writer that may break and on a reader that ends cleanly or with an error.
\<close>

section \<open>Messages\<close>

datatype Protocol = Tcp | Udp

datatype ControlMessage =
    Register Protocol u16 TunnelToken "u8 list"
  | TunnelReady u16
  | NewConnection u64
  | Error string
  | RotateIdentity TunnelToken TunnelToken
  | IdentityRotated "u16 option"
  | RecoverIdentity TunnelToken TunnelToken
  | IdentityRecovered u16

datatype bincode_error = BincodeError

record bincode =
  bc_serialize :: "ControlMessage \<Rightarrow> (bincode_error, u8 list) result"
  bc_deserialize :: "u8 list \<Rightarrow> (bincode_error, ControlMessage) result"

locale bincode_spec =
  fixes bc :: bincode
  assumes message_roundtrip: "bc_serialize bc msg = Inr payload \<Longrightarrow> bc_deserialize bc payload = Inr msg"

section \<open>Streams\<close>

text \<open>
  The operations of \<^verbatim>\<open>tokio\<close>'s \<^verbatim>\<open>AsyncWriteExt\<close> and \<^verbatim>\<open>AsyncReadExt\<close> the frames are built on, as
  parameters: \<open>ar_read_byte\<close> is \<^verbatim>\<open>read\<close> into a buffer of one byte, \<open>None\<close> when it returns 0.
\<close>

record 'w async_write =
  aw_write_all :: "u8 list \<Rightarrow> 'w \<Rightarrow> (io_error, unit) result \<times> 'w"

record 'r async_read =
  ar_read_byte :: "'r \<Rightarrow> (io_error, u8 option) result \<times> 'r"
  ar_read_exact :: "nat \<Rightarrow> 'r \<Rightarrow> (io_error, u8 list) result \<times> 'r"

text \<open>
  What is documented of them. \<open>sent w\<close> are the bytes written so far, \<open>incoming r\<close> those still to be
  read and \<open>ending r\<close> what comes after them, the end of the stream or an error.
\<close>

locale async_write_spec =
  fixes aw :: "'w async_write"
    and sent :: "'w \<Rightarrow> u8 list"
  assumes write_ok: "aw_write_all aw bs w = (Inr u, w') \<Longrightarrow> sent w' = sent w @ bs"
    and write_err: "aw_write_all aw bs w = (Inl e, w') \<Longrightarrow>
      \<exists>n. n < length bs \<and> sent w' = sent w @ take n bs"

locale async_read_spec =
  fixes ar :: "'r async_read"
    and incoming :: "'r \<Rightarrow> u8 list"
    and ending :: "'r \<Rightarrow> io_error option"
  assumes read_byte: "ar_read_byte ar r = (x, r') \<Longrightarrow>
      ending r' = ending r \<and>
      (case incoming r of
         b # bs \<Rightarrow> x = Inr (Some b) \<and> incoming r' = bs
       | [] \<Rightarrow> x = (case ending r of None \<Rightarrow> Inr None | Some e \<Rightarrow> Inl e) \<and> incoming r' = [])"
    and read_exact: "ar_read_exact ar n r = (y, r') \<Longrightarrow>
      ending r' = ending r \<and>
      (if n \<le> length (incoming r)
       then y = Inr (take n (incoming r)) \<and> incoming r' = drop n (incoming r)
       else y = Inl (case ending r of None \<Rightarrow> UnexpectedEof | Some e \<Rightarrow> e) \<and> incoming r' = [])"

section \<open>Frames\<close>

definition MAX_CONTROL_MSG_BYTES :: nat where
  [const_defs]: "MAX_CONTROL_MSG_BYTES = 64 * 1024"

definition to_be_bytes :: "u32 \<Rightarrow> u8 list" where
  "to_be_bytes n = [ucast (drop_bit 24 n), ucast (drop_bit 16 n), ucast (drop_bit 8 n), ucast n]"

definition from_be_bytes :: "u8 list \<Rightarrow> u32" where
  "from_be_bytes bs = foldl (\<lambda>acc b. push_bit 8 acc OR ucast b) 0 bs"

datatype message_error =
    MsgCodec bincode_error
  | MsgTooLarge nat \<comment> \<open>Control message too large\<close>
  | MsgIo io_error

definition send_msg ::
  "'w async_write \<Rightarrow> bincode \<Rightarrow> ControlMessage \<Rightarrow> 'w \<Rightarrow> (message_error, unit) result \<times> 'w" where
  "send_msg aw bc msg wr =
     (case bc_serialize bc msg of
        Inl e \<Rightarrow> (Err (MsgCodec e), wr)
      | Inr payload \<Rightarrow>
          (case aw_write_all aw (to_be_bytes (of_nat (length payload))) wr of
             (Inl e, wr') \<Rightarrow> (Err (MsgIo e), wr')
           | (Inr _, wr') \<Rightarrow>
               (case aw_write_all aw payload wr' of
                  (Inl e, wr'') \<Rightarrow> (Err (MsgIo e), wr'')
                | (Inr _, wr'') \<Rightarrow> (Ok (), wr''))))"

definition recv_msg ::
  "'r async_read \<Rightarrow> bincode \<Rightarrow> 'r \<Rightarrow> (message_error, ControlMessage option) result \<times> 'r" where
  "recv_msg ar bc rd =
     (case ar_read_byte ar rd of
        (Inl e, rd') \<Rightarrow> (Err (MsgIo e), rd')
      | (Inr None, rd') \<Rightarrow> (Ok None, rd')
      | (Inr (Some b), rd') \<Rightarrow>
          (case ar_read_exact ar 3 rd' of
             (Inl e, rd'') \<Rightarrow> (Err (MsgIo e), rd'')
           | (Inr bs, rd'') \<Rightarrow>
               (let len = unat (from_be_bytes (b # bs)) in
                if MAX_CONTROL_MSG_BYTES < len then (Err (MsgTooLarge len), rd'')
                else case ar_read_exact ar len rd'' of
                    (Inl e, rd3) \<Rightarrow> (Err (MsgIo e), rd3)
                  | (Inr payload, rd3) \<Rightarrow>
                      (case bc_deserialize bc payload of
                         Inl e \<Rightarrow> (Err (MsgCodec e), rd3)
                       | Inr msg \<Rightarrow> (Ok (Some msg), rd3)))))"

lemma from_to_be_bytes: "from_be_bytes (to_be_bytes n) = n"
proof (rule bit_word_eqI)
  fix k
  assume "k < LENGTH(32)"
  then consider "k < 8" | "8 \<le> k" "k < 16" | "16 \<le> k" "k < 24" | "24 \<le> k" "k < 32"
    by fastforce
  then show "bit (from_be_bytes (to_be_bytes n)) k = bit n k"
    by cases (auto simp: from_be_bytes_def to_be_bytes_def bit_simps)
qed

lemma length_to_be_bytes [simp]: "length (to_be_bytes n) = 4"
  by (simp add: to_be_bytes_def)

section \<open>A concrete bincode\<close>

definition put_bytes :: "u8 list \<Rightarrow> u8 list" where
  "put_bytes = put_list (put_le 1)"

definition get_bytes :: "u8 list parser" where
  "get_bytes = get_list (get_le 1)"

lemma wire_bytes: "wire put_bytes get_bytes"
  unfolding put_bytes_def get_bytes_def by (rule wire_list [OF wire_le]) simp

definition put_message :: "ControlMessage \<Rightarrow> u8 list" where
  "put_message msg =
     (case msg of
        Register protocol port token recovery \<Rightarrow>
          0 # (if protocol = Tcp then 0 else 1)
            # put_pair (put_le 2) (put_pair put_bytes put_bytes) (port, token, recovery)
      | TunnelReady port \<Rightarrow> 1 # put_le 2 port
      | NewConnection n \<Rightarrow> 2 # put_le 8 n
      | Error text \<Rightarrow> 3 # put_string text
      | RotateIdentity old new \<Rightarrow> 4 # put_pair put_bytes put_bytes (old, new)
      | IdentityRotated port \<Rightarrow> 5 # put_option (put_le 2) port
      | RecoverIdentity secret new \<Rightarrow> 6 # put_pair put_bytes put_bytes (secret, new)
      | IdentityRecovered port \<Rightarrow> 7 # put_le 2 port)"

definition get_message :: "ControlMessage parser" where
  "get_message bs =
     (case bs of
        [] \<Rightarrow> None
      | t # rest \<Rightarrow>
          if t = 0 then (case rest of
              [] \<Rightarrow> None
            | b # rest' \<Rightarrow>
                get_map (\<lambda>(port, token, recovery).
                    Register (if b = 0 then Tcp else Udp) port token recovery)
                  (get_pair (get_le 2) (get_pair get_bytes get_bytes)) rest')
          else if t = 1 then get_map TunnelReady (get_le 2) rest
          else if t = 2 then get_map NewConnection (get_le 8) rest
          else if t = 3 then get_map Error get_string rest
          else if t = 4 then get_map (\<lambda>(a, b). RotateIdentity a b) (get_pair get_bytes get_bytes) rest
          else if t = 5 then get_map IdentityRotated (get_option (get_le 2)) rest
          else if t = 6 then get_map (\<lambda>(a, b). RecoverIdentity a b) (get_pair get_bytes get_bytes) rest
          else get_map IdentityRecovered (get_le 2) rest)"

lemma wire_message: "wire put_message get_message"
proof -
  have two: "wire (put_pair put_bytes put_bytes) (get_pair get_bytes get_bytes)"
    by (rule wire_pair [OF wire_bytes wire_bytes])
  have le2: "wire (put_le 2 :: u16 \<Rightarrow> _) (get_le 2)" and le8: "wire (put_le 8 :: u64 \<Rightarrow> _) (get_le 8)"
    by (rule wire_le; simp)+
  have "get_message (put_message msg @ rest) = Some (msg, rest)" for msg rest
    by (cases msg)
      (auto simp: put_message_def get_message_def get_map_def wireD [OF two] wireD [OF le2]
        wireD [OF le8] wireD [OF wire_pair [OF le2 two]] wireD [OF wire_option [OF le2]]
        wireD [OF wire_list [OF wire_char]] split: Protocol.splits intro: Protocol.exhaust)
  then show ?thesis by (simp add: wire_def)
qed

definition wire_bincode :: bincode where
  "wire_bincode =
     \<lparr>bc_serialize = (\<lambda>msg. Ok (put_message msg)),
      bc_deserialize = (\<lambda>bs. case get_message bs of Some (msg, []) \<Rightarrow> Ok msg | _ \<Rightarrow> Err BincodeError)\<rparr>"

interpretation wire_bincode: bincode_spec wire_bincode
proof
  fix msg payload
  assume "bc_serialize wire_bincode msg = Inr payload"
  then show "bc_deserialize wire_bincode payload = Inr msg"
    using wireD [OF wire_message, of msg "[]"] by (auto simp: wire_bincode_def)
qed

section \<open>Concrete streams\<close>

text \<open>\<open>w_room\<close> is how many bytes the connection takes before it breaks, \<open>None\<close> if it does not.\<close>

record writer =
  w_sent :: "u8 list"
  w_room :: "nat option"

definition buffer_write :: "writer async_write" where
  "buffer_write =
     \<lparr>aw_write_all = (\<lambda>bs wr.
        case w_room wr of
          None \<Rightarrow> (Ok (), wr\<lparr>w_sent := w_sent wr @ bs\<rparr>)
        | Some n \<Rightarrow>
            if length bs \<le> n
            then (Ok (), wr\<lparr>w_sent := w_sent wr @ bs, w_room := Some (n - length bs)\<rparr>)
            else (Err OtherIo, wr\<lparr>w_sent := w_sent wr @ take n bs, w_room := Some 0\<rparr>))\<rparr>"

record reader =
  r_bytes :: "u8 list"
  r_end :: "io_error option"

definition buffer_read :: "reader async_read" where
  "buffer_read =
     \<lparr>ar_read_byte = (\<lambda>rd.
        case r_bytes rd of
          b # bs \<Rightarrow> (Ok (Some b), rd\<lparr>r_bytes := bs\<rparr>)
        | [] \<Rightarrow> (case r_end rd of None \<Rightarrow> Ok None | Some e \<Rightarrow> Err e, rd)),
      ar_read_exact = (\<lambda>n rd.
        if n \<le> length (r_bytes rd)
        then (Ok (take n (r_bytes rd)), rd\<lparr>r_bytes := drop n (r_bytes rd)\<rparr>)
        else (Err (case r_end rd of None \<Rightarrow> UnexpectedEof | Some e \<Rightarrow> e), rd\<lparr>r_bytes := []\<rparr>))\<rparr>"

interpretation buffer_write: async_write_spec buffer_write w_sent
proof
  fix bs w u w'
  assume "aw_write_all buffer_write bs w = (Inr u, w')"
  then show "w_sent w' = w_sent w @ bs"
    by (auto simp: buffer_write_def split: option.splits if_splits)
next
  fix bs w e w'
  assume "aw_write_all buffer_write bs w = (Inl e, w')"
  then obtain n where "w_room w = Some n" "n < length bs" "w_sent w' = w_sent w @ take n bs"
    by (cases "w_room w") (auto simp: buffer_write_def not_le split: if_splits)
  then show "\<exists>n. n < length bs \<and> w_sent w' = w_sent w @ take n bs" by blast
qed

interpretation buffer_read: async_read_spec buffer_read r_bytes r_end
  by unfold_locales (auto simp: buffer_read_def split: list.splits if_splits)

section \<open>What is sent and received\<close>

text \<open>The bytes of a message on the stream.\<close>

definition frame :: "u8 list \<Rightarrow> u8 list" where
  "frame payload = to_be_bytes (of_nat (length payload)) @ payload"

lemma length_frame [simp]: "length (frame payload) = length payload + 4"
  by (simp add: frame_def)

context async_read_spec
begin

lemma recv_end:
  assumes "incoming r = []" and "recv_msg ar bc r = (x, r')"
  shows "x = (case ending r of None \<Rightarrow> Inr None | Some e \<Rightarrow> Inl (MsgIo e))"
    and "incoming r' = []" and "ending r' = ending r"
proof -
  obtain y r1 where b: "ar_read_byte ar r = (y, r1)" by fastforce
  show "x = (case ending r of None \<Rightarrow> Inr None | Some e \<Rightarrow> Inl (MsgIo e))"
    and "incoming r' = []" and "ending r' = ending r"
    using read_byte [OF b] assms b by (auto simp: recv_msg_def split: option.splits)
qed

text \<open>The result of a call on a stream that starts with a byte, by the length and the payload.\<close>

lemma recv_msg_run:
  assumes "incoming r = b0 # bs" and "recv_msg ar bc r = (x, r')"
  shows "ending r' = ending r"
    and "length bs < 3 \<Longrightarrow> incoming r' = [] \<and>
      x = Inl (MsgIo (case ending r of None \<Rightarrow> UnexpectedEof | Some e \<Rightarrow> e))"
    and "3 \<le> length bs \<Longrightarrow> len = unat (from_be_bytes (b0 # take 3 bs)) \<Longrightarrow> MAX_CONTROL_MSG_BYTES < len \<Longrightarrow>
      x = Inl (MsgTooLarge len) \<and> incoming r' = drop 3 bs"
    and "3 \<le> length bs \<Longrightarrow> len = unat (from_be_bytes (b0 # take 3 bs)) \<Longrightarrow> len \<le> MAX_CONTROL_MSG_BYTES \<Longrightarrow>
      length (drop 3 bs) < len \<Longrightarrow> incoming r' = [] \<and>
      x = Inl (MsgIo (case ending r of None \<Rightarrow> UnexpectedEof | Some e \<Rightarrow> e))"
    and "3 \<le> length bs \<Longrightarrow> len = unat (from_be_bytes (b0 # take 3 bs)) \<Longrightarrow> len \<le> MAX_CONTROL_MSG_BYTES \<Longrightarrow>
      len \<le> length (drop 3 bs) \<Longrightarrow> incoming r' = drop len (drop 3 bs) \<and>
      x = (case bc_deserialize bc (take len (drop 3 bs)) of
             Inl e \<Rightarrow> Inl (MsgCodec e) | Inr msg \<Rightarrow> Inr (Some msg))"
proof -
  obtain y r1 where b: "ar_read_byte ar r = (y, r1)" by fastforce
  have y: "y = Inr (Some b0)" "incoming r1 = bs" "ending r1 = ending r"
    using read_byte [OF b] assms(1) by simp_all
  obtain z r2 where l: "ar_read_exact ar 3 r1 = (z, r2)" by fastforce
  note l' = read_exact [OF l, unfolded y]
  let ?len = "unat (from_be_bytes (b0 # take 3 bs))"
  obtain v r3 where p: "ar_read_exact ar ?len r2 = (v, r3)" by fastforce
  note p' = read_exact [OF p]
  note run = assms(2) [unfolded recv_msg_def b y(1), simplified]
  show "ending r' = ending r"
    using run l l' p p' by (auto simp: Let_def split: if_splits sum.splits)
  show "length bs < 3 \<Longrightarrow> incoming r' = [] \<and>
      x = Inl (MsgIo (case ending r of None \<Rightarrow> UnexpectedEof | Some e \<Rightarrow> e))"
    using run l l' by auto
  show "3 \<le> length bs \<Longrightarrow> len = ?len \<Longrightarrow> MAX_CONTROL_MSG_BYTES < len \<Longrightarrow>
      x = Inl (MsgTooLarge len) \<and> incoming r' = drop 3 bs"
    using run l l' by (auto simp: Let_def)
  show "3 \<le> length bs \<Longrightarrow> len = ?len \<Longrightarrow> len \<le> MAX_CONTROL_MSG_BYTES \<Longrightarrow>
      length (drop 3 bs) < len \<Longrightarrow> incoming r' = [] \<and>
      x = Inl (MsgIo (case ending r of None \<Rightarrow> UnexpectedEof | Some e \<Rightarrow> e))"
    using run l l' p p' by (auto simp: Let_def)
  show "3 \<le> length bs \<Longrightarrow> len = ?len \<Longrightarrow> len \<le> MAX_CONTROL_MSG_BYTES \<Longrightarrow>
      len \<le> length (drop 3 bs) \<Longrightarrow> incoming r' = drop len (drop 3 bs) \<and>
      x = (case bc_deserialize bc (take len (drop 3 bs)) of
             Inl e \<Rightarrow> Inl (MsgCodec e) | Inr msg \<Rightarrow> Inr (Some msg))"
    using run l l' p p' by (auto simp: Let_def split: sum.splits)
qed

text \<open>A call that returns a message has read at least its length, one that returns none found the end.\<close>

lemma recv_msg_outcome:
  assumes "incoming r = b # bs" and "recv_msg ar bc r = (x, r')"
  shows "(\<exists>e. x = Inl e) \<or> (\<exists>msg n. x = Inr (Some msg) \<and> incoming r' = drop n bs)"
proof (cases "length bs < 3")
  case True
  then show ?thesis using recv_msg_run(2) [OF assms] by blast
next
  case False
  then have three: "3 \<le> length bs" by simp
  let ?len = "unat (from_be_bytes (b # take 3 bs))"
  consider "MAX_CONTROL_MSG_BYTES < ?len" | "?len \<le> MAX_CONTROL_MSG_BYTES" "length (drop 3 bs) < ?len"
    | "?len \<le> MAX_CONTROL_MSG_BYTES" "?len \<le> length (drop 3 bs)" by linarith
  then show ?thesis
  proof cases
    case 1
    then show ?thesis using recv_msg_run(3) [OF assms three refl] by blast
  next
    case 2
    then show ?thesis using recv_msg_run(4) [OF assms three refl] by blast
  next
    case 3
    then have "incoming r' = drop (?len + 3) bs \<and>
        x = (case bc_deserialize bc (take ?len (drop 3 bs)) of
             Inl e \<Rightarrow> Inl (MsgCodec e) | Inr msg \<Rightarrow> Inr (Some msg))"
      using recv_msg_run(5) [OF assms three refl] by simp
    then show ?thesis by (cases "bc_deserialize bc (take ?len (drop 3 bs))") auto
  qed
qed

lemma recv_msg_consumes:
  assumes "recv_msg ar bc r = (Inr (Some msg), r')"
  shows "length (incoming r') < length (incoming r)" and "ending r' = ending r"
proof -
  obtain b bs where r: "incoming r = b # bs"
    using recv_end(1) [OF _ assms] by (cases "incoming r") (auto split: option.splits)
  show "length (incoming r') < length (incoming r)"
    using recv_msg_outcome [OF r assms] r by auto
  show "ending r' = ending r" by (rule recv_msg_run(1) [OF r assms])
qed

lemma recv_msg_ends:
  assumes "recv_msg ar bc r = (Inr None, r')"
  shows "incoming r = []" and "ending r = None"
proof -
  show r: "incoming r = []"
    using recv_msg_outcome [OF _ assms] by (cases "incoming r") auto
  show "ending r = None" using recv_end(1) [OF r assms] by (auto split: option.splits)
qed

end

locale control_channel = bincode_spec bc + async_write_spec aw sent + async_read_spec ar incoming ending
  for bc :: bincode and aw :: "'w async_write" and sent :: "'w \<Rightarrow> u8 list"
    and ar :: "'r async_read" and incoming :: "'r \<Rightarrow> u8 list" and ending :: "'r \<Rightarrow> io_error option"
begin

lemma send_msg_ok:
  assumes "send_msg aw bc msg w = (Inr u, w')"
  obtains payload where "bc_serialize bc msg = Inr payload" "sent w' = sent w @ frame payload"
  using assms write_ok
  by (auto simp: send_msg_def frame_def split: sum.splits prod.splits)

text \<open>A message that could not be sent leaves a proper prefix of its frame.\<close>

lemma send_msg_err:
  assumes "send_msg aw bc msg w = (Inl e, w')"
  obtains (codec) e' where "bc_serialize bc msg = Inl e'" "w' = w"
  | (broken) payload n where "bc_serialize bc msg = Inr payload" "n < length (frame payload)"
      "sent w' = sent w @ take n (frame payload)"
proof (cases "bc_serialize bc msg")
  case (Inl e')
  then show ?thesis using assms codec by (simp add: send_msg_def)
next
  case (Inr payload)
  let ?len = "to_be_bytes (of_nat (length payload))"
  obtain r1 w1 where l: "aw_write_all aw ?len w = (r1, w1)" by fastforce
  show ?thesis
  proof (cases r1)
    case (Inl e1)
    obtain n where "n < 4" "sent w1 = sent w @ take n ?len"
      using write_err [OF l [unfolded Inl]] by auto
    moreover have "w' = w1" using assms l Inr Inl by (simp add: send_msg_def)
    ultimately show ?thesis using broken [OF Inr, of n] by (simp add: frame_def)
  next
    case ok: (Inr u1)
    obtain r2 w2 where p: "aw_write_all aw payload w1 = (r2, w2)" by fastforce
    obtain e2 where e2: "r2 = Inl e2" "w' = w2"
      using assms l Inr ok p by (auto simp: send_msg_def split: sum.splits)
    obtain n where "n < length payload" "sent w2 = sent w1 @ take n payload"
      using write_err [OF p [unfolded e2(1)]] by blast
    then show ?thesis
      using broken [OF Inr, of "n + 4"] e2(2) write_ok [OF l [unfolded ok]] by (simp add: frame_def)
  qed
qed

end

end
