(* ===== verification/Tls_Config.thy ===== *)
theory Tls_Config
  imports File_System
begin

text \<open>
  The component \<^verbatim>\<open>crates/core/src/crypto.rs\<close> and \<^verbatim>\<open>tls_server_config\<close> of
  \<^verbatim>\<open>crates/server/src/relay.rs\<close>: how the TLS configurations of the two ends are put together. The
  crates \<^verbatim>\<open>rustls\<close>, \<^verbatim>\<open>quinn\<close> and \<^verbatim>\<open>rcgen\<close> are parameters: the record \<open>rustls\<close> holds the calls whose
  results the program checks, and a configuration is the record of the settings the builder calls
  made.
\<close>

section \<open>Settings\<close>

datatype kx_group = X25519MLKEM768 | OtherGroup string

datatype tls_version = TLS12 | TLS13

record 'alg crypto_provider =
  kx_groups :: "kx_group list"
  signature_verification_algorithms :: 'alg

text \<open>How a client checks the certificate of the relay.\<close>

datatype ('root, 'alg) cert_verifier =
    RootCertStore "'root list"
  | SkipServerVerification "'alg crypto_provider"

record ('root, 'alg) client_tls =
  ct_provider :: "'alg crypto_provider"
  ct_versions :: "tls_version list"
  ct_verifier :: "('root, 'alg) cert_verifier"

record ('cert, 'key, 'alg) server_tls =
  srv_provider :: "'alg crypto_provider"
  srv_versions :: "tls_version list"
  srv_certs :: "'cert list"
  srv_key :: 'key

record ('cert, 'key, 'alg) ServerConfig =
  sc_tls :: "('cert, 'key, 'alg) server_tls"
  max_concurrent_bidi_streams :: nat

datatype tls_error = TlsError

datatype config_error =
    ConfigTls tls_error
  | CannotReadCert io_error
  | CannotReadKey io_error
  | CertPem \<comment> \<open>Failed to parse cert PEM\<close>
  | NoCertificates
  | KeyPem \<comment> \<open>Failed to parse key PEM\<close>
  | CertificateNotConfigured \<comment> \<open>Set GAMENET_TLS_CERT and GAMENET_TLS_KEY\<close>
  | CertificateHalfConfigured \<comment> \<open>must both be set\<close>

text \<open>The calls of the libraries: their defaults, and whether they accept what they are given.\<close>

record ('cert, 'key, 'root, 'alg) rustls =
  default_provider :: "'alg crypto_provider"
  accept_versions :: "'alg crypto_provider \<Rightarrow> tls_version list \<Rightarrow> (tls_error, unit) result"
  accept_single_cert :: "'cert list \<Rightarrow> 'key \<Rightarrow> (tls_error, unit) result"
  accept_quic_server :: "('cert, 'key, 'alg) server_tls \<Rightarrow> (tls_error, unit) result"
  accept_quic_client :: "('root, 'alg) client_tls \<Rightarrow> (tls_error, unit) result"
  generate_self_signed :: "string list \<Rightarrow> (tls_error, 'cert \<times> 'key) result"
  parse_cert_pem :: "u8 list \<Rightarrow> (tls_error, 'cert list) result"
  parse_key_pem :: "u8 list \<Rightarrow> (tls_error, 'key) result"
  webpki_roots :: "'root list"

section \<open>The relay\<close>

definition hybrid_provider :: "('cert, 'key, 'root, 'alg) rustls \<Rightarrow> 'alg crypto_provider" where
  "hybrid_provider rl = (default_provider rl)\<lparr>kx_groups := [X25519MLKEM768]\<rparr>"

definition server_config_with_cert ::
  "('cert, 'key, 'root, 'alg) rustls \<Rightarrow> 'cert list \<Rightarrow> 'key
    \<Rightarrow> (config_error, ('cert, 'key, 'alg) ServerConfig) result" where
  "server_config_with_cert rl certs key =
     (let provider = hybrid_provider rl;
          tls = \<lparr>srv_provider = provider, srv_versions = [TLS13], srv_certs = certs, srv_key = key\<rparr>
      in case accept_versions rl provider [TLS13] of
          Inl e \<Rightarrow> Err (ConfigTls e)
        | Inr _ \<Rightarrow>
            (case accept_single_cert rl certs key of
               Inl e \<Rightarrow> Err (ConfigTls e)
             | Inr _ \<Rightarrow>
                 (case accept_quic_server rl tls of
                    Inl e \<Rightarrow> Err (ConfigTls e)
                  | Inr _ \<Rightarrow> Ok \<lparr>sc_tls = tls, max_concurrent_bidi_streams = 128\<rparr>)))"

definition server_config ::
  "('cert, 'key, 'root, 'alg) rustls
    \<Rightarrow> (config_error, ('cert, 'key, 'alg) ServerConfig \<times> 'cert) result" where
  "server_config rl =
     (case generate_self_signed rl [''localhost''] of
        Inl e \<Rightarrow> Err (ConfigTls e)
      | Inr (cert, key) \<Rightarrow>
          (case server_config_with_cert rl [cert] key of
             Inl e \<Rightarrow> Err e | Inr config \<Rightarrow> Ok (config, cert)))"

definition server_config_from_files ::
  "('cert, 'key, 'root, 'alg) rustls \<Rightarrow> path \<Rightarrow> path
    \<Rightarrow> (config_error, ('cert, 'key, 'alg) ServerConfig) io" where
  "server_config_from_files rl cert_path key_path =
     io_bind (io_map_err CannotReadCert (fs_read cert_path)) (\<lambda>cert_pem.
      io_bind (io_map_err CannotReadKey (fs_read key_path)) (\<lambda>key_pem.
       io_bind (io_result (map_err (\<lambda>_. CertPem) (parse_cert_pem rl cert_pem))) (\<lambda>certs.
        io_then (io_ensure (certs \<noteq> []) NoCertificates)
         (io_bind (io_result (map_err (\<lambda>_. KeyPem) (parse_key_pem rl key_pem))) (\<lambda>key.
           io_result (server_config_with_cert rl certs key))))))"

definition tls_server_config ::
  "('cert, 'key, 'root, 'alg) rustls \<Rightarrow> path option \<Rightarrow> path option \<Rightarrow> bool
    \<Rightarrow> (config_error, ('cert, 'key, 'alg) ServerConfig) io" where
  "tls_server_config rl cert_path key_path development_self_signed =
     (case (cert_path, key_path) of
        (Some cert, Some key) \<Rightarrow> server_config_from_files rl cert key
      | (None, None) \<Rightarrow>
          if development_self_signed then
            io_result (case server_config rl of Inl e \<Rightarrow> Err e | Inr (config, _) \<Rightarrow> Ok config)
          else io_fail CertificateNotConfigured
      | _ \<Rightarrow> io_fail CertificateHalfConfigured)"

section \<open>The client\<close>

definition client_config_of ::
  "('cert, 'key, 'root, 'alg) rustls \<Rightarrow> ('root, 'alg) cert_verifier
    \<Rightarrow> (config_error, ('root, 'alg) client_tls) result" where
  "client_config_of rl verifier =
     (let provider = hybrid_provider rl;
          crypto = \<lparr>ct_provider = provider, ct_versions = [TLS13], ct_verifier = verifier\<rparr>
      in case accept_versions rl provider [TLS13] of
          Inl e \<Rightarrow> Err (ConfigTls e)
        | Inr _ \<Rightarrow>
            (case accept_quic_client rl crypto of
               Inl e \<Rightarrow> Err (ConfigTls e) | Inr _ \<Rightarrow> Ok crypto))"

definition client_config_with_roots ::
  "('cert, 'key, 'root, 'alg) rustls \<Rightarrow> 'root list
    \<Rightarrow> (config_error, ('root, 'alg) client_tls) result" where
  "client_config_with_roots rl roots = client_config_of rl (RootCertStore roots)"

definition client_config ::
  "('cert, 'key, 'root, 'alg) rustls \<Rightarrow> (config_error, ('root, 'alg) client_tls) result" where
  "client_config rl = client_config_with_roots rl (webpki_roots rl)"

definition insecure_client_config ::
  "('cert, 'key, 'root, 'alg) rustls \<Rightarrow> (config_error, ('root, 'alg) client_tls) result" where
  "insecure_client_config rl = client_config_of rl (SkipServerVerification (hybrid_provider rl))"

text \<open>The configuration \<^verbatim>\<open>connect_quic\<close> connects with.\<close>

definition connection_config ::
  "('cert, 'key, 'root, 'alg) rustls \<Rightarrow> bool \<Rightarrow> (config_error, ('root, 'alg) client_tls) result" where
  "connection_config rl insecure = (if insecure then insecure_client_config rl else client_config rl)"

text \<open>
  What a verifier answers to a certificate and to a handshake signature. \<^verbatim>\<open>rustls\<close> checks both for a
  root store; \<^verbatim>\<open>SkipServerVerification\<close> asserts every certificate, but still checks the signature with
  the algorithms of its provider.
\<close>

record ('cert, 'root, 'alg, 'sig) verify_calls =
  verify_with_roots :: "'root list \<Rightarrow> 'cert \<Rightarrow> (tls_error, unit) result"
  verify_tls12_signature :: "'sig \<Rightarrow> 'cert \<Rightarrow> 'alg \<Rightarrow> (tls_error, unit) result"
  verify_tls13_signature :: "'sig \<Rightarrow> 'cert \<Rightarrow> 'alg \<Rightarrow> (tls_error, unit) result"
  supported_schemes :: "'alg \<Rightarrow> string list"

definition verify_server_cert ::
  "('cert, 'root, 'alg, 'sig) verify_calls \<Rightarrow> ('root, 'alg) cert_verifier \<Rightarrow> 'cert
    \<Rightarrow> (tls_error, unit) result" where
  "verify_server_cert vc verifier cert =
     (case verifier of
        RootCertStore roots \<Rightarrow> verify_with_roots vc roots cert
      | SkipServerVerification provider \<Rightarrow> Ok ())"

definition verify_handshake_signature ::
  "('cert, 'root, 'alg, 'sig) verify_calls \<Rightarrow> 'alg crypto_provider \<Rightarrow> ('root, 'alg) cert_verifier
    \<Rightarrow> 'sig \<Rightarrow> 'cert \<Rightarrow> (tls_error, unit) result" where
  "verify_handshake_signature vc own verifier message cert =
     verify_tls13_signature vc message cert
      (signature_verification_algorithms
        (case verifier of RootCertStore _ \<Rightarrow> own | SkipServerVerification provider \<Rightarrow> provider))"

text \<open>The other two methods of \<^verbatim>\<open>SkipServerVerification\<close>, on its provider.\<close>

definition skip_verify_tls12_signature ::
  "('cert, 'root, 'alg, 'sig) verify_calls \<Rightarrow> 'alg crypto_provider \<Rightarrow> 'sig \<Rightarrow> 'cert \<Rightarrow> (tls_error, unit) result"
where
  "skip_verify_tls12_signature vc provider message cert =
     verify_tls12_signature vc message cert (signature_verification_algorithms provider)"

definition supported_verify_schemes ::
  "('cert, 'root, 'alg, 'sig) verify_calls \<Rightarrow> 'alg crypto_provider \<Rightarrow> string list" where
  "supported_verify_schemes vc provider = supported_schemes vc (signature_verification_algorithms provider)"

section \<open>Lemmas\<close>

lemma server_config_with_cert_Inr:
  assumes "server_config_with_cert rl certs key = Inr config"
  shows "config = \<lparr>sc_tls = \<lparr>srv_provider = hybrid_provider rl, srv_versions = [TLS13],
      srv_certs = certs, srv_key = key\<rparr>, max_concurrent_bidi_streams = 128\<rparr>"
  using assms by (auto simp: server_config_with_cert_def Let_def split: sum.splits)

lemma server_config_from_files_Inr:
  assumes "server_config_from_files rl cert key w = (Inr config, w')"
  obtains certs k where "server_config_with_cert rl certs k = Inr config" "certs \<noteq> []"
  using assms by (auto simp: server_config_from_files_def io_iffs split: if_splits)

lemma tls_server_config_Inr:
  assumes "tls_server_config rl cert key dev w = (Inr config, w')"
  obtains (files) c k certs pk where "cert = Some c" "key = Some k" "certs \<noteq> []"
      "server_config_with_cert rl certs pk = Inr config"
  | (development) c pk where "cert = None" "key = None" "dev" "server_config_with_cert rl [c] pk = Inr config"
proof (cases cert; cases key)
  fix c k
  assume ck: "cert = Some c" "key = Some k"
  then have "server_config_from_files rl c k w = (Inr config, w')"
    using assms by (simp add: tls_server_config_def)
  then show ?thesis
    by (rule server_config_from_files_Inr) (rule files [OF ck], assumption+)
next
  assume "cert = None" "key = None"
  then show ?thesis
    using assms development
    by (auto simp: tls_server_config_def server_config_def io_iffs split: if_splits sum.splits)
qed (use assms in \<open>simp_all add: tls_server_config_def io_iffs\<close>)

lemma client_config_of_Inr:
  "client_config_of rl verifier = Inr config \<Longrightarrow>
    config = \<lparr>ct_provider = hybrid_provider rl, ct_versions = [TLS13], ct_verifier = verifier\<rparr>"
  by (auto simp: client_config_of_def Let_def split: sum.splits)

section \<open>Properties\<close>

text \<open>
  C39: every connection is TLS 1.3 with the hybrid key exchange alone, on both ends; the client accepts
  any certificate only if it was told to be insecure, and otherwise checks it against the bundled
  roots; even an insecure client checks the signature of the handshake, with the algorithms and the
  schemes of the default provider.
\<close>

theorem tls_policy:
  assumes "connection_config rl insecure = Inr client"
    and "tls_server_config rl cert key dev w = (Inr server, w')"
  shows "kx_groups (ct_provider client) = [X25519MLKEM768] \<and> ct_versions client = [TLS13]
    \<and> kx_groups (srv_provider (sc_tls server)) = [X25519MLKEM768] \<and> srv_versions (sc_tls server) = [TLS13]
    \<and> verify_server_cert vc (ct_verifier client) c =
        (if insecure then Ok () else verify_with_roots vc (webpki_roots rl) c)
    \<and> verify_handshake_signature vc (ct_provider client) (ct_verifier client) message c =
        verify_tls13_signature vc message c
          (signature_verification_algorithms (default_provider rl))
    \<and> (ct_verifier client = SkipServerVerification provider \<longrightarrow>
         insecure
         \<and> skip_verify_tls12_signature vc provider message c =
             verify_tls12_signature vc message c (signature_verification_algorithms (default_provider rl))
         \<and> supported_verify_schemes vc provider =
             supported_schemes vc (signature_verification_algorithms (default_provider rl)))"
proof -
  have c: "client = \<lparr>ct_provider = hybrid_provider rl, ct_versions = [TLS13],
      ct_verifier = (if insecure then SkipServerVerification (hybrid_provider rl)
        else RootCertStore (webpki_roots rl))\<rparr>"
    using assms(1) client_config_of_Inr
    by (auto simp: connection_config_def insecure_client_config_def client_config_def
        client_config_with_roots_def split: if_splits)
  have "\<exists>certs k. server_config_with_cert rl certs k = Inr server"
    using tls_server_config_Inr [OF assms(2)] by metis
  then obtain certs k where s: "server_config_with_cert rl certs k = Inr server" by blast
  show ?thesis
    by (auto simp: c server_config_with_cert_Inr [OF s] hybrid_provider_def verify_server_cert_def
        verify_handshake_signature_def skip_verify_tls12_signature_def supported_verify_schemes_def)
qed

text \<open>
  The relay starts with a certificate only if both file names are given, or neither is and the
  development certificate was asked for: one name alone is an error, no name without the development
  flag is an error, a file that cannot be read or parsed is an error, and so is an empty chain.
\<close>

theorem tls_certificate_sources:
  assumes "faults w = []"
  shows "fst (tls_server_config rl (Some cert) None dev w) = Inl CertificateHalfConfigured
    \<and> fst (tls_server_config rl None (Some key) dev w) = Inl CertificateHalfConfigured
    \<and> fst (tls_server_config rl None None False w) = Inl CertificateNotConfigured
    \<and> (nodes w cert = None \<longrightarrow>
        fst (tls_server_config rl (Some cert) (Some key) dev w) = Inl (CannotReadCert NotFound))
    \<and> (nodes w cert = Some (Regular pem m) \<and> nodes w key = None \<longrightarrow>
        fst (tls_server_config rl (Some cert) (Some key) dev w) = Inl (CannotReadKey NotFound))
    \<and> (nodes w cert = Some (Regular pem m) \<and> nodes w key = Some (Regular pk m') \<longrightarrow>
        fst (tls_server_config rl (Some cert) (Some key) dev w) =
          (case parse_cert_pem rl pem of
             Inl _ \<Rightarrow> Inl CertPem
           | Inr [] \<Rightarrow> Inl NoCertificates
           | Inr (c # cs) \<Rightarrow>
               (case parse_key_pem rl pk of
                  Inl _ \<Rightarrow> Inl KeyPem | Inr k \<Rightarrow> server_config_with_cert rl (c # cs) k)))"
  using assms
  by (auto simp: tls_server_config_def server_config_from_files_def io_bind_def io_then_def
      io_map_err_def map_err_def io_ensure_def io_return_def io_fail_def io_result_def fs_read_def
      lookup_followed_def numeral_eq_Suc split: sum.split list.split)

section \<open>Instances\<close>

definition demo_rustls :: "(nat, nat, nat, nat) rustls" where
  "demo_rustls =
     \<lparr>default_provider = \<lparr>kx_groups = [OtherGroup ''x25519'', X25519MLKEM768],
        signature_verification_algorithms = 3\<rparr>,
      accept_versions = (\<lambda>_ _. Ok ()), accept_single_cert = (\<lambda>_ _. Ok ()),
      accept_quic_server = (\<lambda>_. Ok ()), accept_quic_client = (\<lambda>_. Ok ()),
      generate_self_signed = (\<lambda>_. Ok (5, 6)),
      parse_cert_pem = (\<lambda>bs. Ok (map unat bs)), parse_key_pem = (\<lambda>bs. if bs = [] then Err TlsError else Ok 6),
      webpki_roots = [7]\<rparr>"

definition demo_verify :: "(nat, nat, nat, nat) verify_calls" where
  "demo_verify =
     \<lparr>verify_with_roots = (\<lambda>roots c. if c \<in> set roots then Ok () else Err TlsError),
      verify_tls12_signature = (\<lambda>s c alg. Err TlsError),
      verify_tls13_signature = (\<lambda>s c alg. if s = c + alg then Ok () else Err TlsError),
      supported_schemes = (\<lambda>alg. [''ED25519''])\<rparr>"

definition cert_world :: World where
  "cert_world = \<lparr>nodes = [[''cert''] \<mapsto> Regular [] 420, [''key''] \<mapsto> Regular [1] 384], faults = []\<rparr>"

theorem tls_policy_witness:
  "\<exists>client. connection_config demo_rustls False = Inr client
    \<and> verify_server_cert demo_verify (ct_verifier client) 8 = Inl TlsError
    \<and> kx_groups (ct_provider client) = [X25519MLKEM768]"
proof -
  obtain client where c: "connection_config demo_rustls False = Inr client"
    by (simp add: connection_config_def client_config_def client_config_with_roots_def
        client_config_of_def demo_rustls_def Let_def)
  obtain server where s: "tls_server_config demo_rustls None None True cert_world = (Inr server, cert_world)"
    by (simp add: tls_server_config_def server_config_def server_config_with_cert_def demo_rustls_def
        Let_def io_result_def)
  from tls_policy [OF c s, of demo_verify 8 0] c show ?thesis
    by (simp add: demo_verify_def) (simp add: demo_rustls_def)
qed

theorem tls_certificate_sources_witness:
  "fst (tls_server_config demo_rustls (Some [''cert'']) (Some [''key'']) False cert_world)
     = Inl NoCertificates"
proof -
  have "faults cert_world = []" "nodes cert_world [''cert''] = Some (Regular [] 420)"
    "nodes cert_world [''key''] = Some (Regular [1] 384)"
    by (simp_all add: cert_world_def)
  then show ?thesis
    using tls_certificate_sources [of cert_world demo_rustls "[''cert'']" False "[''key'']" "[]" 420 "[1]" 384]
    by (simp add: demo_rustls_def)
qed

end
