(* ===== verification/Presets.thy ===== *)
theory Presets
  imports Control_Message
begin

text \<open>
  The components \<^verbatim>\<open>crates/core/src/presets.rs\<close> and the host command of \<^verbatim>\<open>crates/cli/src/main.rs\<close>:
  which local port is tunnelled, and how long the client waits before it connects again. Error texts
  are constructors.
\<close>

section \<open>Game presets\<close>

record GamePreset =
  preset_name :: string
  preset_protocol :: Protocol
  default_port :: u16

definition PRESETS :: "GamePreset list" where
  "PRESETS =
     [\<lparr>preset_name = ''minecraft'', preset_protocol = Tcp, default_port = 25565\<rparr>,
      \<lparr>preset_name = ''bedrock'', preset_protocol = Udp, default_port = 19132\<rparr>,
      \<lparr>preset_name = ''valheim'', preset_protocol = Udp, default_port = 2456\<rparr>,
      \<lparr>preset_name = ''terraria'', preset_protocol = Tcp, default_port = 7777\<rparr>,
      \<lparr>preset_name = ''factorio'', preset_protocol = Udp, default_port = 34197\<rparr>]"

definition find_preset :: "string \<Rightarrow> GamePreset option" where
  "find_preset name = find (\<lambda>p. eq_ignore_ascii_case (preset_name p) name) PRESETS"

section \<open>The local port\<close>

datatype port_error =
    UnknownGame string \<comment> \<open>Unknown game\<close>
  | RequiresUdp string \<comment> \<open>requires UDP, which GameNet does not support yet\<close>
  | NoPortGiven \<comment> \<open>Specify a TCP game or --port\<close>
  | ZeroPort \<comment> \<open>Local port must be nonzero\<close>

definition local_port_for :: "string option \<Rightarrow> u16 option \<Rightarrow> (port_error, u16) result" where
  "local_port_for game port =
     (case (case game of
              Some name \<Rightarrow>
                (case find_preset name of None \<Rightarrow> Err (UnknownGame name) | Some p \<Rightarrow> Ok (Some p))
            | None \<Rightarrow> Ok None) of
        Inl e \<Rightarrow> Err e
      | Inr preset \<Rightarrow>
          (case (case preset of
                   Some p \<Rightarrow>
                     if preset_protocol p = Tcp then Ok () else Err (RequiresUdp (preset_name p))
                 | None \<Rightarrow> Ok ()) of
             Inl e \<Rightarrow> Err e
           | Inr _ \<Rightarrow>
               (case (case port of Some p \<Rightarrow> Some p | None \<Rightarrow> map_option default_port preset) of
                  None \<Rightarrow> Err NoPortGiven
                | Some local_port \<Rightarrow> if local_port \<noteq> 0 then Ok local_port else Err ZeroPort)))"

section \<open>Waiting to connect again\<close>

definition next_retry_delay :: "Duration \<Rightarrow> Duration" where
  "next_retry_delay delay = min (dur_saturating_mul delay 2) (from_secs 15)"

text \<open>
  The inner loop of the host command (lines 113 to 126), driven by the results of the attempts to
  connect: the delays slept before each attempt, the tunnel of the first attempt that succeeds with
  the delay the next loss starts from, and the attempts left; \<open>None\<close> while none has succeeded.
\<close>

fun reconnect ::
  "Duration \<Rightarrow> ('e, 't) result list \<Rightarrow> Duration list \<times> ('t \<times> Duration \<times> ('e, 't) result list) option" where
  "reconnect delay [] = ([delay], None)"
| "reconnect delay (Inr next # attempts) = ([delay], Some (next, from_secs 1, attempts))"
| "reconnect delay (Inl error # attempts) =
     (case reconnect (next_retry_delay delay) attempts of (slept, r) \<Rightarrow> (delay # slept, r))"

section \<open>Lemmas\<close>

lemma next_retry_delay_secs:
  assumes "k \<le> 15"
  shows "next_retry_delay (from_secs (of_nat k)) = from_secs (of_nat (min 15 (2 * k)))"
proof -
  have k: "unat (of_nat k :: u64) = k"
    using assms by (simp add: unsigned_of_nat take_bit_nat_eq_self)
  have "dur_saturating_mul (from_secs (of_nat k)) 2 = from_secs (of_nat (2 * k))"
    using assms k by (simp add: dur_saturating_mul_def from_secs_def NANOS_PER_SEC_def Let_def mult.commute)
  moreover have "from_secs (of_nat (2 * k)) \<le> from_secs 15 \<longleftrightarrow> 2 * k \<le> 15"
  proof -
    have "unat (of_nat (2 * k) :: u64) = 2 * k"
      using assms by (simp add: unsigned_of_nat take_bit_nat_eq_self del: of_nat_mult)
    then have "(of_nat (2 * k) :: u64) \<le> 15 \<longleftrightarrow> 2 * k \<le> 15"
      unfolding word_le_nat_alt by (simp del: of_nat_mult)
    then show ?thesis by (auto simp: from_secs_def less_eq_Duration_def)
  qed
  ultimately show ?thesis by (simp add: next_retry_delay_def min_def)
qed

lemma retry_delays:
  "(next_retry_delay ^^ n) (from_secs 1) = from_secs (of_nat (min 15 (2 ^ n)))"
proof (induction n)
  case (Suc n)
  have "min (15 :: nat) (2 * min 15 (2 ^ n)) = min 15 (2 ^ Suc n)" by (simp add: min_def)
  then show ?case
    using next_retry_delay_secs [of "min 15 (2 ^ n)"] by (simp add: Suc.IH)
qed simp

lemma reconnect_slept:
  "fst (reconnect d (map Inl es @ Inr t # rest)) = map (\<lambda>i. (next_retry_delay ^^ i) d) [0..<Suc (length es)]
   \<and> snd (reconnect d (map Inl es @ Inr t # rest)) = Some (t, from_secs 1, rest)"
proof (induction es arbitrary: d)
  case (Cons e es)
  have "map (\<lambda>i. (next_retry_delay ^^ i) d) [0..<Suc (length (e # es))]
      = d # map (\<lambda>i. (next_retry_delay ^^ i) (next_retry_delay d)) [0..<Suc (length es)]"
    by (simp only: list.size add_Suc_right add_0_right upt_conv_Cons [OF zero_less_Suc] list.map
        map_Suc_upt [symmetric] map_map comp_def funpow_Suc_right funpow_0 id_def)
  then show ?case
    using Cons.IH [of "next_retry_delay d"] by (simp add: case_prod_unfold del: upt_Suc)
qed simp

section \<open>Properties\<close>

text \<open>
  The port a host command tunnels: the one given, or else the preset's, but never 0; a game that
  is named must be known, in any case of its letters, and one that needs UDP is refused even if a port
  is given.
\<close>

theorem local_port_decision:
  "local_port_for None None = Err NoPortGiven
   \<and> local_port_for None (Some p) = (if p = 0 then Err ZeroPort else Ok p)
   \<and> (find_preset name = None \<longrightarrow> local_port_for (Some name) port = Err (UnknownGame name))
   \<and> (find_preset name = Some preset \<longrightarrow>
        preset \<in> set PRESETS \<and> eq_ignore_ascii_case (preset_name preset) name
        \<and> local_port_for (Some name) port =
            (if preset_protocol preset = Udp then Err (RequiresUdp (preset_name preset))
             else case port of
                 None \<Rightarrow> Ok (default_port preset)
               | Some p \<Rightarrow> if p = 0 then Err ZeroPort else Ok p))
   \<and> (local_port_for game port = Ok q \<longrightarrow> q \<noteq> 0)"
proof (intro conjI impI)
  assume found: "find_preset name = Some preset"
  then show "preset \<in> set PRESETS" "eq_ignore_ascii_case (preset_name preset) name"
    using find_Some_set unfolding find_preset_def by fastforce+
  then have "default_port preset \<noteq> 0" by (auto simp: PRESETS_def)
  then show "local_port_for (Some name) port =
      (if preset_protocol preset = Udp then Err (RequiresUdp (preset_name preset))
       else case port of
           None \<Rightarrow> Ok (default_port preset)
         | Some p \<Rightarrow> if p = 0 then Err ZeroPort else Ok p)"
    using found by (cases "preset_protocol preset") (simp_all add: local_port_for_def split: option.split)
next
  assume "local_port_for game port = Ok q"
  then show "q \<noteq> 0"
    by (auto simp: local_port_for_def split: option.splits sum.splits if_splits)
qed (simp_all add: local_port_for_def)

theorem local_port_decision_witness:
  "local_port_for (Some ''MineCraft'') None = Ok 25565
   \<and> local_port_for (Some ''valheim'') (Some 2456) = Err (RequiresUdp ''valheim'')"
proof -
  have "find_preset ''MineCraft'' = Some (PRESETS ! 0)" "find_preset ''valheim'' = Some (PRESETS ! 2)"
    by code_simp+
  then show ?thesis
    using local_port_decision [of 0 "''MineCraft''" None "PRESETS ! 0"]
      local_port_decision [of 0 "''valheim''" "Some 2456" "PRESETS ! 2"]
    by (simp add: PRESETS_def)
qed

text \<open>
  After \<open>n\<close> failed attempts in a row the client waits min(15, 2^n) seconds, and after a success it
  starts again from one second; it never waits longer than 15 seconds, whatever the delay was before.
\<close>

theorem retry_backoff_bounded:
  "fst (reconnect (from_secs 1) (map Inl es @ Inr t # rest))
      = map (\<lambda>i. from_secs (of_nat (min 15 (2 ^ i)))) [0..<Suc (length es)]
   \<and> snd (reconnect (from_secs 1) (map Inl es @ Inr t # rest)) = Some (t, from_secs 1, rest)
   \<and> next_retry_delay d \<le> from_secs 15"
  using reconnect_slept [of "from_secs 1" es t rest]
  by (simp add: retry_delays next_retry_delay_def del: upt_Suc)

end
