(* ===== verification/Client.thy ===== *)
theory Client
  imports Control_Message Tls_Config Presets
begin

text \<open>
  The component \<^verbatim>\<open>crates/cli/src/tunnel.rs\<close>: the client's side of a registration, a rotation and a
  recovery, and the host's session. A QUIC connection is the parameter \<open>quic\<close>: its operations work on
  a state \<open>'n\<close>, which stands for the connection with whatever is behind it. A client operation is a
  function of the file system and that state. Random bytes, the prompt, name resolution and the
  connection attempt are parameters.
\<close>

section \<open>Data\<close>

record 'n quic =
  q_open_bi :: "'n \<Rightarrow> (io_error, unit) result \<times> 'n"
  q_write :: "'n async_write"
  q_read :: "'n async_read"

record ('addr, 'root, 'alg, 'n) network =
  parse_addr :: "string \<Rightarrow> 'addr option"
  lookup_host :: "string \<Rightarrow> (io_error, 'addr list) result"
  endpoint_connect :: "('root, 'alg) client_tls \<Rightarrow> 'addr \<Rightarrow> string \<Rightarrow> 'n \<Rightarrow> (io_error, unit) result \<times> 'n"

datatype client_error =
    ClientIdentity identity_error
  | ClientConfig config_error
  | ClientIo io_error
  | ClientMessage message_error
  | CouldNotResolve string \<comment> \<open>Could not resolve\<close>
  | RelayClosed \<comment> \<open>Relay, or server, closed before confirming\<close>
  | RelayRejected string \<comment> \<open>Relay rejected rotation, recovery, or registration\<close>
  | UnexpectedResponse ControlMessage

text \<open>An operation on the client's files and the connection.\<close>

type_synonym ('n, 'a) client = "World \<Rightarrow> 'n \<Rightarrow> (client_error, 'a) result \<times> World \<times> 'n"

definition client_bind :: "('n, 'a) client \<Rightarrow> ('a \<Rightarrow> ('n, 'b) client) \<Rightarrow> ('n, 'b) client" where
  "client_bind m f w n =
     (case m w n of (Inl e, w', n') \<Rightarrow> (Err e, w', n') | (Inr x, w', n') \<Rightarrow> f x w' n')"

definition client_result :: "(client_error, 'a) result \<Rightarrow> ('n, 'a) client" where
  "client_result r w n = (r, w, n)"

text \<open>A call on the identity files, and one on the connection.\<close>

definition on_files :: "(identity_error, 'a) io \<Rightarrow> ('n, 'a) client" where
  "on_files m w n = (case m w of (r, w') \<Rightarrow> (map_err ClientIdentity r, w', n))"

definition on_net :: "('n \<Rightarrow> (client_error, 'a) result \<times> 'n) \<Rightarrow> ('n, 'a) client" where
  "on_net m w n = (case m n of (r, n') \<Rightarrow> (r, w, n'))"

section \<open>Connecting and asking\<close>

definition connect_quic ::
  "('cert, 'key, 'root, 'alg) rustls \<Rightarrow> ('addr, 'root, 'alg, 'n) network \<Rightarrow> string \<Rightarrow> bool
    \<Rightarrow> 'n \<Rightarrow> (client_error, unit) result \<times> 'n" where
  "connect_quic rl net server_hostname insecure n =
     (case connection_config rl insecure of
        Inl e \<Rightarrow> (Err (ClientConfig e), n)
      | Inr config \<Rightarrow>
          (let server_addr = server_hostname @ '':5000'' in
           case (case parse_addr net server_addr of
                   Some addr \<Rightarrow> Ok addr
                 | None \<Rightarrow>
                     (case lookup_host net server_addr of
                        Inl e \<Rightarrow> Err (ClientIo e)
                      | Inr [] \<Rightarrow> Err (CouldNotResolve server_addr)
                      | Inr (addr # _) \<Rightarrow> Ok addr)) of
             Inl e \<Rightarrow> (Err e, n)
           | Inr resolved \<Rightarrow>
               (case endpoint_connect net config resolved server_hostname n of
                  (r, n') \<Rightarrow> (map_err ClientIo r, n'))))"

text \<open>Open a stream, send one request on it and wait for one response.\<close>

definition ask :: "'n quic \<Rightarrow> bincode \<Rightarrow> ControlMessage \<Rightarrow> 'n \<Rightarrow> (client_error, ControlMessage) result \<times> 'n"
where
  "ask q bc request n =
     (case q_open_bi q n of
        (Inl e, n1) \<Rightarrow> (Err (ClientIo e), n1)
      | (Inr _, n1) \<Rightarrow>
          (case send_msg (q_write q) bc request n1 of
             (Inl e, n2) \<Rightarrow> (Err (ClientMessage e), n2)
           | (Inr _, n2) \<Rightarrow>
               (case recv_msg (q_read q) bc n2 of
                  (Inl e, n3) \<Rightarrow> (Err (ClientMessage e), n3)
                | (Inr None, n3) \<Rightarrow> (Err RelayClosed, n3)
                | (Inr (Some response), n3) \<Rightarrow> (Ok response, n3))))"

section \<open>Rotation and recovery\<close>

definition rotate_on_connection ::
  "'n quic \<Rightarrow> bincode \<Rightarrow> PendingRotation \<Rightarrow> ('n, u16 option) client" where
  "rotate_on_connection q bc pending =
     client_bind (on_net (ask q bc (RotateIdentity (pt_old_token pending) (pt_new_token pending))))
      (\<lambda>response.
        case response of
          IdentityRotated public_port \<Rightarrow>
            client_bind (on_files (finish_rotation pending)) (\<lambda>_. client_result (Ok public_port))
        | Error message \<Rightarrow> client_result (Err (RelayRejected message))
        | other \<Rightarrow> client_result (Err (UnexpectedResponse other)))"

definition rotate_identity ::
  "('cert, 'key, 'root, 'alg) rustls \<Rightarrow> ('addr, 'root, 'alg, 'n) network \<Rightarrow> 'n quic \<Rightarrow> bincode
    \<Rightarrow> tempfile \<Rightarrow> u8 list option \<Rightarrow> (string \<Rightarrow> path option) \<Rightarrow> string \<Rightarrow> bool
    \<Rightarrow> ('n, u16 option) client" where
  "rotate_identity rl net q bc tf rand env server_hostname insecure =
     client_bind (on_files (prepare_rotation tf rand env)) (\<lambda>pending.
      client_bind (on_net (connect_quic rl net server_hostname insecure)) (\<lambda>_.
        rotate_on_connection q bc pending))"

definition recover_on_connection ::
  "'n quic \<Rightarrow> bincode \<Rightarrow> tempfile \<Rightarrow> (string \<Rightarrow> path option) \<Rightarrow> PendingRecovery \<Rightarrow> TunnelToken \<Rightarrow> bool
    \<Rightarrow> ('n, u16) client" where
  "recover_on_connection q bc tf env pending secret from_backup =
     client_bind (on_net (ask q bc (RecoverIdentity secret (pr_new_token pending)))) (\<lambda>response.
       case response of
         IdentityRecovered public_port \<Rightarrow>
           client_bind
             (if from_backup then on_files (store_recovery tf env secret) else client_result (Ok ()))
             (\<lambda>_. client_bind (on_files (finish_recovery pending)) (\<lambda>_. client_result (Ok public_port)))
       | Error message \<Rightarrow> client_result (Err (RelayRejected message))
       | other \<Rightarrow> client_result (Err (UnexpectedResponse other)))"

text \<open>The recovery secret: from the prompt, or from its file if there is one (lines 33 to 53).\<close>

definition prompted_secret :: "(io_error, string) result \<Rightarrow> (client_error, TunnelToken \<times> bool) result" where
  "prompted_secret prompt =
     (case prompt of
        Inl e \<Rightarrow> Err (ClientIo e)
      | Inr code \<Rightarrow>
          (case parse_recovery_code code of
             Inl e \<Rightarrow> Err (ClientIdentity e) | Inr secret \<Rightarrow> Ok (secret, True)))"

definition recovery_secret ::
  "(string \<Rightarrow> path option) \<Rightarrow> (io_error, string) result \<Rightarrow> bool \<Rightarrow> ('n, TunnelToken \<times> bool) client" where
  "recovery_secret env prompt use_backup_code w n =
     (if use_backup_code then (prompted_secret prompt, w, n)
      else case read_recovery env w of
          (Inr secret, w') \<Rightarrow> (Ok (secret, False), w', n)
        | (Inl (IdIo NotFound), w') \<Rightarrow> (prompted_secret prompt, w', n)
        | (Inl e, w') \<Rightarrow> (Err (ClientIdentity e), w', n))"

definition recover_identity ::
  "('cert, 'key, 'root, 'alg) rustls \<Rightarrow> ('addr, 'root, 'alg, 'n) network \<Rightarrow> 'n quic \<Rightarrow> bincode
    \<Rightarrow> tempfile \<Rightarrow> u8 list option \<Rightarrow> (string \<Rightarrow> path option) \<Rightarrow> (io_error, string) result
    \<Rightarrow> string \<Rightarrow> bool \<Rightarrow> bool \<Rightarrow> ('n, u16) client" where
  "recover_identity rl net q bc tf rand env prompt server_hostname insecure use_backup_code =
     client_bind (recovery_secret env prompt use_backup_code) (\<lambda>(secret, from_backup).
      client_bind (on_files (prepare_recovery tf rand env)) (\<lambda>pending.
       client_bind (on_net (connect_quic rl net server_hostname insecure)) (\<lambda>_.
        recover_on_connection q bc tf env pending secret from_backup)))"

section \<open>Hosting\<close>

record AgentTunnel =
  agent_local_port :: u16
  agent_public_port :: u16
  agent_players :: nat

text \<open>\<open>rand\<close> and \<open>rand'\<close> are the bytes for a first identity and a first recovery secret.\<close>

definition connect_agent ::
  "('cert, 'key, 'root, 'alg) rustls \<Rightarrow> ('addr, 'root, 'alg, 'n) network \<Rightarrow> 'n quic \<Rightarrow> bincode
    \<Rightarrow> tempfile \<Rightarrow> (u8 list \<Rightarrow> u8 list) \<Rightarrow> u8 list option \<Rightarrow> u8 list option \<Rightarrow> (string \<Rightarrow> path option)
    \<Rightarrow> string \<Rightarrow> u16 \<Rightarrow> bool \<Rightarrow> ('n, AgentTunnel) client" where
  "connect_agent rl net q bc tf sha256 rand rand' env server_hostname local_port insecure =
     client_bind (on_files (load_or_create_identity tf rand env)) (\<lambda>token.
      client_bind (on_files (load_or_create_recovery tf rand' env)) (\<lambda>secret.
       client_bind (on_net (connect_quic rl net server_hostname insecure)) (\<lambda>_.
        client_bind
          (on_net (ask q bc (Register Tcp local_port token (recovery_fingerprint sha256 secret))))
          (\<lambda>msg.
            case msg of
              TunnelReady public_port \<Rightarrow>
                client_result (Ok \<lparr>agent_local_port = local_port, agent_public_port = public_port,
                  agent_players = 0\<rparr>)
            | Error message \<Rightarrow> client_result (Err (RelayRejected message))
            | other \<Rightarrow> client_result (Err (UnexpectedResponse other))))))"

text \<open>
  \<^verbatim>\<open>handle_control_messages\<close>: the loop reads until the relay closes the stream; its effect is the log
  of the players that joined. It may run as long as the relay sends, so it is partial.
\<close>

partial_function (option) handle_control_messages ::
  "'n async_read \<Rightarrow> bincode \<Rightarrow> u64 list \<Rightarrow> 'n \<Rightarrow> ((message_error, unit) result \<times> u64 list \<times> 'n) option" where
  "handle_control_messages ar bc log n =
     (case recv_msg ar bc n of
        (Inl e, n') \<Rightarrow> Some (Err e, log, n')
      | (Inr None, n') \<Rightarrow> Some (Ok (), log, n')
      | (Inr (Some msg), n') \<Rightarrow>
          handle_control_messages ar bc
            (case msg of NewConnection stream_id \<Rightarrow> log @ [stream_id] | _ \<Rightarrow> log) n')"

declare handle_control_messages.simps [code]

text \<open>
  \<^verbatim>\<open>AgentTunnel::run\<close> as a function of the events its \<^verbatim>\<open>select!\<close> sees: a stream for a player is
  accepted, a player's task completes, the connection or the control stream is closed. The loop ends
  with the first of the last two, and aborts every player; \<open>None\<close> while it still runs.
\<close>

datatype agent_event = StreamAccepted | PlayerCompleted | ConnectionClosed | ControlClosed

fun run_agent :: "AgentTunnel \<Rightarrow> agent_event list \<Rightarrow> AgentTunnel \<times> agent_event list option" where
  "run_agent a [] = (a, None)"
| "run_agent a (StreamAccepted # es) = run_agent (a\<lparr>agent_players := agent_players a + 1\<rparr>) es"
| "run_agent a (PlayerCompleted # es) = run_agent (a\<lparr>agent_players := agent_players a - 1\<rparr>) es"
| "run_agent a (ConnectionClosed # es) = (a\<lparr>agent_players := 0\<rparr>, Some es)"
| "run_agent a (ControlClosed # es) = (a\<lparr>agent_players := 0\<rparr>, Some es)"

section \<open>The commands\<close>

datatype Commands =
    Host "string option" "u16 option" string bool
  | RotateIdentityCommand string bool
  | ShowRecoveryCode
  | RecoverIdentityCommand bool string bool

datatype command_output =
    RecoveryCode string
  | RecoveredPort u16
  | RotatedPort "u16 option"
  | Hosting AgentTunnel

datatype command_error = CommandClient client_error | CommandPort port_error

definition map_client :: "('a \<Rightarrow> 'b) \<Rightarrow> (client_error, 'a) result \<times> World \<times> 'n
    \<Rightarrow> (command_error, 'b) result \<times> World \<times> 'n" where
  "map_client f r = (case r of
     (Inl e, s) \<Rightarrow> (Err (CommandClient e), s) | (Inr x, s) \<Rightarrow> (Ok (f x), s))"

text \<open>
  The commands of \<^verbatim>\<open>main\<close>; hosting up to the first connection, after which \<open>run_agent\<close> and
  \<open>reconnect\<close> take turns.
\<close>

definition run_command ::
  "('cert, 'key, 'root, 'alg) rustls \<Rightarrow> ('addr, 'root, 'alg, 'n) network \<Rightarrow> 'n quic \<Rightarrow> bincode
    \<Rightarrow> tempfile \<Rightarrow> (u8 list \<Rightarrow> u8 list) \<Rightarrow> u8 list option \<Rightarrow> u8 list option \<Rightarrow> (string \<Rightarrow> path option)
    \<Rightarrow> (io_error, string) result \<Rightarrow> Commands \<Rightarrow> World \<Rightarrow> 'n
    \<Rightarrow> (command_error, command_output) result \<times> World \<times> 'n" where
  "run_command rl net q bc tf sha256 rand rand' env prompt cmd w n =
     (case cmd of
        ShowRecoveryCode \<Rightarrow>
          map_client (\<lambda>secret. RecoveryCode (format_recovery_code secret))
            (on_files (read_recovery env) w n)
      | RecoverIdentityCommand use_backup_code server insecure \<Rightarrow>
          map_client RecoveredPort
            (recover_identity rl net q bc tf rand env prompt server insecure use_backup_code w n)
      | RotateIdentityCommand server insecure \<Rightarrow>
          map_client RotatedPort (rotate_identity rl net q bc tf rand env server insecure w n)
      | Host game port server insecure \<Rightarrow>
          (case local_port_for game port of
             Inl e \<Rightarrow> (Err (CommandPort e), w, n)
           | Inr local_port \<Rightarrow>
               map_client Hosting
                 (connect_agent rl net q bc tf sha256 rand rand' env server local_port insecure w n)))"

end
