(* ===== verification/Control_Properties.thy ===== *)
theory Control_Properties
  imports Control_Message
begin

text \<open>
  The properties of the control protocol's frames: the messages that were sent are received, in order,
  and nothing else; a stream that is cut inside a frame is an error; an oversized frame is refused
  before its payload is read.
\<close>

section \<open>Several messages\<close>

primrec send_all ::
  "'w async_write \<Rightarrow> bincode \<Rightarrow> ControlMessage list \<Rightarrow> 'w \<Rightarrow> (message_error, unit) result \<times> 'w" where
  "send_all aw bc [] w = (Ok (), w)"
| "send_all aw bc (m # ms) w =
     (case send_msg aw bc m w of (Inl e, w') \<Rightarrow> (Err e, w') | (Inr _, w') \<Rightarrow> send_all aw bc ms w')"

primrec recv_many ::
  "'r async_read \<Rightarrow> bincode \<Rightarrow> nat \<Rightarrow> 'r \<Rightarrow> (message_error, ControlMessage option) result list" where
  "recv_many ar bc 0 r = []"
| "recv_many ar bc (Suc n) r = (case recv_msg ar bc r of (x, r') \<Rightarrow> x # recv_many ar bc n r')"

text \<open>The payload of a message fits a frame.\<close>

definition fits_frame :: "bincode \<Rightarrow> ControlMessage \<Rightarrow> bool" where
  "fits_frame bc m \<longleftrightarrow>
     (case bc_serialize bc m of Inl _ \<Rightarrow> True | Inr payload \<Rightarrow> length payload \<le> MAX_CONTROL_MSG_BYTES)"

definition message_frame :: "bincode \<Rightarrow> ControlMessage \<Rightarrow> u8 list" where
  "message_frame bc m = (case bc_serialize bc m of Inl _ \<Rightarrow> [] | Inr payload \<Rightarrow> frame payload)"

lemma frame_bytes: "frame payload = hd (to_be_bytes (of_nat (length payload)))
    # tl (to_be_bytes (of_nat (length payload))) @ payload"
  by (simp add: frame_def to_be_bytes_def)

lemma frame_length_field:
  assumes "length payload \<le> MAX_CONTROL_MSG_BYTES"
  shows "unat (of_nat (length payload) :: u32) = length payload"
  using assms by (simp add: unsigned_of_nat const_defs take_bit_nat_eq_self)

context control_channel
begin

lemma recv_frame:
  assumes "incoming r = frame payload @ rest" and "length payload \<le> MAX_CONTROL_MSG_BYTES"
    and "bc_deserialize bc payload = Inr msg" and "recv_msg ar bc r = (x, r')"
  shows "x = Inr (Some msg)" and "incoming r' = rest" and "ending r' = ending r"
proof -
  let ?l = "to_be_bytes (of_nat (length payload))"
  have in_r: "incoming r = hd ?l # tl ?l @ payload @ rest" using assms(1) frame_bytes by simp
  have three: "length (tl ?l) = 3" by simp
  have len: "length payload = unat (from_be_bytes (hd ?l # take 3 (tl ?l @ payload @ rest)))"
    using frame_length_field [OF assms(2)] from_to_be_bytes [of "of_nat (length payload)"]
    by (simp add: to_be_bytes_def)
  note run = recv_msg_run [OF in_r assms(4)]
  have "incoming r' = drop (length payload) (drop 3 (tl ?l @ payload @ rest))
      \<and> x = (case bc_deserialize bc (take (length payload) (drop 3 (tl ?l @ payload @ rest))) of
          Inl e \<Rightarrow> Inl (MsgCodec e) | Inr msg \<Rightarrow> Inr (Some msg))"
    by (rule run(5) [OF _ len assms(2)]) (simp_all add: three)
  then show "x = Inr (Some msg)" and "incoming r' = rest" using assms(3) three by simp_all
  show "ending r' = ending r" by (rule run(1))
qed

lemma recv_cut:
  assumes "incoming r = take n (frame payload)" and "0 < n" and "n < length (frame payload)"
    and "length payload \<le> MAX_CONTROL_MSG_BYTES" and "recv_msg ar bc r = (x, r')"
  shows "x = Inl (MsgIo (case ending r of None \<Rightarrow> UnexpectedEof | Some e \<Rightarrow> e))"
proof -
  let ?l = "to_be_bytes (of_nat (length payload))"
  obtain k where n: "n = Suc k" using assms(2) by (cases n) auto
  have in_r: "incoming r = hd ?l # take k (tl ?l @ payload)"
    using assms(1) frame_bytes [of payload] by (simp add: n)
  note run = recv_msg_run [OF in_r assms(5)]
  show ?thesis
  proof (cases "k < 3")
    case True
    then show ?thesis using run(2) by simp
  next
    case False
    have len: "length payload = unat (from_be_bytes (hd ?l # take 3 (take k (tl ?l @ payload))))"
      using frame_length_field [OF assms(4)] from_to_be_bytes [of "of_nat (length payload)"] False
      by (simp add: to_be_bytes_def)
    show ?thesis
      by (rule conjunct2 [OF run(4) [OF _ len assms(4)]]) (use False assms(3) n in simp_all)
  qed
qed

lemma send_all_sent:
  assumes "send_all aw bc ms w = (Inr (), w')"
  shows "sent w' = sent w @ concat (map (message_frame bc) ms)
    \<and> (\<forall>m \<in> set ms. \<exists>payload. bc_serialize bc m = Inr payload)"
  using assms
proof (induction ms arbitrary: w)
  case (Cons m ms)
  obtain r1 w1 where s: "send_msg aw bc m w = (r1, w1)" by fastforce
  then have s': "send_msg aw bc m w = (Inr (), w1)" and rest: "send_all aw bc ms w1 = (Inr (), w')"
    using Cons.prems by (auto split: sum.splits)
  obtain payload where "bc_serialize bc m = Inr payload" "sent w1 = sent w @ frame payload"
    by (rule send_msg_ok [OF s'])
  then show ?case using Cons.IH [OF rest] by (simp add: message_frame_def)
qed simp

text \<open>Whatever part of the frames arrives, whole messages are received, and a cut is an error.\<close>

lemma recv_many_prefix:
  assumes "incoming r = take n (concat (map (message_frame bc) ms))"
    and "\<forall>m \<in> set ms. fits_frame bc m" and "\<forall>m \<in> set ms. \<exists>payload. bc_serialize bc m = Inr payload"
  shows "\<exists>k \<le> length ms. \<exists>last.
      recv_many ar bc (Suc k) r = map (\<lambda>m. Inr (Some m)) (take k ms) @ [last]
      \<and> (if take n (concat (map (message_frame bc) ms)) = concat (map (message_frame bc) (take k ms))
         then last = (case ending r of None \<Rightarrow> Inr None | Some e \<Rightarrow> Inl (MsgIo e))
         else last = Inl (MsgIo (case ending r of None \<Rightarrow> UnexpectedEof | Some e \<Rightarrow> e)))"
  using assms
proof (induction ms arbitrary: r n)
  case Nil
  obtain x r' where x: "recv_msg ar bc r = (x, r')" by fastforce
  have "incoming r = []" using Nil.prems(1) by simp
  then show ?case using recv_end(1) [OF _ x] by (auto simp: x)
next
  case (Cons m ms)
  obtain payload where p: "bc_serialize bc m = Inr payload" using Cons.prems(3) by auto
  have fit: "length payload \<le> MAX_CONTROL_MSG_BYTES"
    using Cons.prems(2) p by (simp add: fits_frame_def)
  have fr: "message_frame bc m = frame payload" by (simp add: message_frame_def p)
  obtain x r' where x: "recv_msg ar bc r = (x, r')" by fastforce
  show ?case
  proof (cases "length (frame payload) \<le> n")
    case True
    let ?n = "n - length (frame payload)"
    have "incoming r = frame payload @ take ?n (concat (map (message_frame bc) ms))"
      using Cons.prems(1) True fr by simp
    note rf = recv_frame [OF this fit message_roundtrip [OF p] x]
    obtain k last where k: "k \<le> length ms"
      "recv_many ar bc (Suc k) r' = map (\<lambda>m. Inr (Some m)) (take k ms) @ [last]"
      "if take ?n (concat (map (message_frame bc) ms)) = concat (map (message_frame bc) (take k ms))
         then last = (case ending r' of None \<Rightarrow> Inr None | Some e \<Rightarrow> Inl (MsgIo e))
         else last = Inl (MsgIo (case ending r' of None \<Rightarrow> UnexpectedEof | Some e \<Rightarrow> e))"
      using Cons.IH [OF rf(2)] Cons.prems(2,3) by auto
    show ?thesis
    proof (intro exI [of _ "Suc k"] exI [of _ last] conjI)
      show "recv_many ar bc (Suc (Suc k)) r = map (\<lambda>m. Inr (Some m)) (take (Suc k) (m # ms)) @ [last]"
        using k(2) x rf(1) by simp
      show "if take n (concat (map (message_frame bc) (m # ms)))
            = concat (map (message_frame bc) (take (Suc k) (m # ms)))
         then last = (case ending r of None \<Rightarrow> Inr None | Some e \<Rightarrow> Inl (MsgIo e))
         else last = Inl (MsgIo (case ending r of None \<Rightarrow> UnexpectedEof | Some e \<Rightarrow> e))"
        using k(3) rf(3) True fr by simp
    qed (use k(1) in simp)
  next
    case False
    then have inc: "incoming r = take n (frame payload)" using Cons.prems(1) fr by simp
    show ?thesis
    proof (cases "n = 0")
      case True
      have "x = (case ending r of None \<Rightarrow> Inr None | Some e \<Rightarrow> Inl (MsgIo e))"
        by (rule recv_end(1) [OF _ x]) (use inc True in simp)
      then show ?thesis using x True by (intro exI [of _ 0]) simp
    next
      case n: False
      have "x = Inl (MsgIo (case ending r of None \<Rightarrow> UnexpectedEof | Some e \<Rightarrow> e))"
        by (rule recv_cut [OF inc _ _ fit x]) (use n False in simp_all)
      moreover have "frame payload \<noteq> []" by (simp add: frame_def to_be_bytes_def)
      ultimately show ?thesis using x fr n by (intro exI [of _ 0]) simp
    qed
  qed
qed

lemma recv_many_all:
  assumes "incoming r = concat (map (message_frame bc) ms)"
    and "\<forall>m \<in> set ms. fits_frame bc m" and "\<forall>m \<in> set ms. \<exists>payload. bc_serialize bc m = Inr payload"
  shows "recv_many ar bc (Suc (length ms)) r = map (\<lambda>m. Inr (Some m)) ms
    @ [case ending r of None \<Rightarrow> Inr None | Some e \<Rightarrow> Inl (MsgIo e)]"
  using assms
proof (induction ms arbitrary: r)
  case Nil
  obtain x r' where x: "recv_msg ar bc r = (x, r')" by fastforce
  then show ?case using recv_end(1) [OF _ x] Nil.prems(1) by simp
next
  case (Cons m ms)
  obtain payload where p: "bc_serialize bc m = Inr payload" using Cons.prems(3) by auto
  obtain x r' where x: "recv_msg ar bc r = (x, r')" by fastforce
  have "message_frame bc m = frame payload" by (simp add: message_frame_def p)
  then have "incoming r = frame payload @ concat (map (message_frame bc) ms)"
    using Cons.prems(1) by simp
  note rf = recv_frame [OF this _ message_roundtrip [OF p] x]
  have "length payload \<le> MAX_CONTROL_MSG_BYTES" using Cons.prems(2) p by (simp add: fits_frame_def)
  then show ?case using rf x Cons.IH [of r'] Cons.prems(2,3) by simp
qed

lemma recv_oversized:
  assumes "incoming r = b0 # b1 # b2 # b3 # bs" and "MAX_CONTROL_MSG_BYTES < unat (from_be_bytes [b0, b1, b2, b3])"
    and "recv_msg ar bc r = (x, r')"
  shows "x = Inl (MsgTooLarge (unat (from_be_bytes [b0, b1, b2, b3]))) \<and> incoming r' = bs"
  using recv_msg_run(3) [OF assms(1,3) _ refl] assms(2) by simp

end

section \<open>Properties\<close>


text \<open>
  C38: a stream that ends anywhere inside a frame is an error, never a clean end and never a message: of
  the frames that were sent, the receiver gets the whole ones, then the clean end if the cut is between
  two frames and an error otherwise.
\<close>

theorem truncated_stream_detected:
  assumes "bincode_spec bc" and "async_write_spec aw sent" and "async_read_spec ar incoming ending"
    and "send_all aw bc ms w = (Inr (), w')" and "sent w = []" and "\<forall>m \<in> set ms. fits_frame bc m"
    and "incoming r = take n (sent w')" and "ending r = None"
  shows "\<exists>k \<le> length ms. recv_many ar bc (Suc k) r = map (\<lambda>m. Inr (Some m)) (take k ms) @
    [if incoming r = concat (map (message_frame bc) (take k ms)) then Inr None
     else Inl (MsgIo UnexpectedEof)]"
proof -
  note ch = control_channel.intro [OF assms(1-3)]
  note s = control_channel.send_all_sent [OF ch assms(4)]
  have "incoming r = take n (concat (map (message_frame bc) ms))" using s assms(5,7) by simp
  from control_channel.recv_many_prefix [OF ch this assms(6)] s this assms(8)
  show ?thesis by fastforce
qed

text \<open>
  A frame that announces more than 64 KiB is refused with its length after its four length bytes,
  and none of its payload is read; such a frame can be sent: the sender only checks that the message
  can be serialized.
\<close>

theorem oversized_frame_refused:
  assumes "bincode_spec bc" and "async_write_spec aw sent" and "async_read_spec ar incoming ending"
    and "incoming r = sent w' @ rest" and "sent w = []" and "send_msg aw bc m w = (Inr (), w')"
    and "bc_serialize bc m = Inr payload" and "65536 < length payload" and "length payload < 2 ^ 32"
    and "recv_msg ar bc r = (x, r')"
  shows "x = Inl (MsgTooLarge (length payload)) \<and> incoming r' = payload @ rest"
proof -
  note ch = control_channel.intro [OF assms(1-3)]
  have sent: "sent w' = frame payload"
    by (rule control_channel.send_msg_ok [OF ch assms(6)]) (use assms(5,7) in simp)
  let ?n = "of_nat (length payload) :: u32"
  have n: "unat ?n = length payload" using assms(9) by (simp add: unsigned_of_nat take_bit_nat_eq_self)
  obtain b0 b1 b2 b3 where b: "to_be_bytes ?n = [b0, b1, b2, b3]" by (simp add: to_be_bytes_def)
  have "incoming r = b0 # b1 # b2 # b3 # payload @ rest"
    using assms(4) sent b by (simp add: frame_def)
  from control_channel.recv_oversized [OF ch this _ assms(10)] show ?thesis
    using from_to_be_bytes [of ?n] assms(8) by (simp add: b n const_defs)
qed

section \<open>Instances\<close>

definition demo_messages :: "ControlMessage list" where
  "demo_messages = [TunnelReady 10000, NewConnection 1, Error ''Lease is active'']"

definition demo_sent :: writer where
  "demo_sent = snd (send_all buffer_write wire_bincode demo_messages \<lparr>w_sent = [], w_room = None\<rparr>)"

lemma demo_facts:
  "send_all buffer_write wire_bincode demo_messages \<lparr>w_sent = [], w_room = None\<rparr> = (Inr (), demo_sent)"
  "\<forall>m \<in> set demo_messages. fits_frame wire_bincode m"
proof -
  have "fst (send_all buffer_write wire_bincode demo_messages \<lparr>w_sent = [], w_room = None\<rparr>) = Inr ()"
    by code_simp
  then show "send_all buffer_write wire_bincode demo_messages \<lparr>w_sent = [], w_room = None\<rparr>
      = (Inr (), demo_sent)"
    unfolding demo_sent_def by (cases "send_all buffer_write wire_bincode demo_messages
      \<lparr>w_sent = [], w_room = None\<rparr>") simp
  show "\<forall>m \<in> set demo_messages. fits_frame wire_bincode m"
    by (simp add: demo_messages_def fits_frame_def wire_bincode_def put_message_def const_defs
        put_list_def put_char_def)
qed


lemmas demo_specs =
  wire_bincode.bincode_spec_axioms buffer_write.async_write_spec_axioms
  buffer_read.async_read_spec_axioms


theorem truncated_stream_detected_witness:
  "bincode_spec wire_bincode \<and> (\<exists>k. recv_many buffer_read wire_bincode (Suc k)
      \<lparr>r_bytes = take 15 (w_sent demo_sent), r_end = None\<rparr> =
    map (\<lambda>m. Inr (Some m)) (take k demo_messages) @ [Inl (MsgIo UnexpectedEof)])"
proof -
  let ?r = "\<lparr>r_bytes = take 15 (w_sent demo_sent), r_end = None :: io_error option\<rparr>"
  have cut: "list_all (\<lambda>k. r_bytes ?r \<noteq> concat (map (message_frame wire_bincode) (take k demo_messages)))
      [0, 1, 2, 3]" by code_simp
  obtain k where k: "k \<le> length demo_messages"
    "recv_many buffer_read wire_bincode (Suc k) ?r = map (\<lambda>m. Inr (Some m)) (take k demo_messages) @
      [if r_bytes ?r = concat (map (message_frame wire_bincode) (take k demo_messages)) then Inr None
       else Inl (MsgIo UnexpectedEof)]"
    using truncated_stream_detected [OF demo_specs demo_facts(1) _ demo_facts(2), of ?r 15] by auto
  have "k = 0 \<or> k = 1 \<or> k = 2 \<or> k = 3" using k(1) by (auto simp: demo_messages_def)
  then have "r_bytes ?r \<noteq> concat (map (message_frame wire_bincode) (take k demo_messages))"
    using cut by (elim disjE) simp_all
  then show ?thesis using k(2) demo_specs(1) by auto
qed

definition long_message :: ControlMessage where
  "long_message = Error (replicate 40000 CHR ''x'')"

lemma length_put_string: "length (put_string s) = 2 * length s + 1"
  by (induction s) (simp_all add: put_list_def put_char_def)

theorem oversized_frame_refused_witness:
  "\<exists>payload r'. bc_serialize wire_bincode long_message = Inr payload \<and>
    recv_msg buffer_read wire_bincode
      \<lparr>r_bytes = w_sent (snd (send_msg buffer_write wire_bincode long_message
         \<lparr>w_sent = [], w_room = None\<rparr>)), r_end = None\<rparr> = (Inl (MsgTooLarge (length payload)), r')"
proof -
  let ?w = "\<lparr>w_sent = [], w_room = None\<rparr>" and ?p = "put_message long_message"
  let ?s = "send_msg buffer_write wire_bincode long_message ?w"
  let ?r = "\<lparr>r_bytes = w_sent (snd ?s), r_end = None\<rparr>"
  have p: "bc_serialize wire_bincode long_message = Inr ?p" by (simp add: wire_bincode_def)
  have len: "length ?p = 80002"
    using length_put_string [of "replicate 40000 CHR ''x''"] by (simp add: put_message_def long_message_def)
  have s: "?s = (Inr (), snd ?s)"
    by (simp add: send_msg_def p buffer_write_def)
  obtain x r' where x: "recv_msg buffer_read wire_bincode ?r = (x, r')" by fastforce
  have "x = Inl (MsgTooLarge (length ?p))"
    using oversized_frame_refused [OF demo_specs, of ?r "snd ?s" "[]" ?w, OF _ _ s p _ _ x] len by simp
  then show ?thesis using p x by blast
qed

end
