(* ===== verification/Client_Properties.thy ===== *)
theory Client_Properties
  imports Client Control_Properties
begin

text \<open>
  The properties of the client's control task: it ends with the relay's stream, after it has seen every
  player announced there.
\<close>

section \<open>The control task\<close>

fun players_announced :: "ControlMessage list \<Rightarrow> u64 list" where
  "players_announced [] = []"
| "players_announced (NewConnection i # ms) = i # players_announced ms"
| "players_announced (_ # ms) = players_announced ms"

definition announced :: "ControlMessage \<Rightarrow> u64 list" where
  "announced msg = (case msg of NewConnection i \<Rightarrow> [i] | _ \<Rightarrow> [])"

lemma players_announced_Cons: "players_announced (m # ms) = announced m @ players_announced ms"
  by (cases m) (simp_all add: announced_def)

lemma control_task_step:
  "handle_control_messages ar bc log n =
     (case recv_msg ar bc n of
        (Inl e, n') \<Rightarrow> Some (Err e, log, n')
      | (Inr None, n') \<Rightarrow> Some (Ok (), log, n')
      | (Inr (Some msg), n') \<Rightarrow> handle_control_messages ar bc (log @ announced msg) n')"
proof -
  have "(case m of NewConnection i \<Rightarrow> log @ [i] | _ \<Rightarrow> log) = log @ announced m" for m
    by (cases m) (simp_all add: announced_def)
  then show ?thesis by (subst handle_control_messages.simps) (simp only:)
qed

context async_read_spec
begin

lemma control_task_returns:
  "\<exists>result seen n'. handle_control_messages ar bc log n = Some (result, log @ seen, n')
     \<and> (result = Ok () \<longrightarrow> ending n = None)"
proof (induction "length (incoming n)" arbitrary: n log rule: less_induct)
  case less
  obtain x n1 where run: "recv_msg ar bc n = (x, n1)" by fastforce
  consider (fails) e where "x = Inl e" | (ends) "x = Inr None" | (msg) m where "x = Inr (Some m)"
    by (metis option.exhaust sum.exhaust)
  then show ?case
  proof cases
    case fails
    then show ?thesis by (subst control_task_step) (simp add: run)
  next
    case ends
    then show ?thesis using recv_msg_ends [of bc n n1] run by (subst control_task_step) simp
  next
    case msg
    note consumed = recv_msg_consumes [OF run [unfolded msg]]
    obtain result seen n' where
      "handle_control_messages ar bc (log @ announced m) n1 = Some (result, (log @ announced m) @ seen, n')"
      "result = Ok () \<longrightarrow> ending n1 = None"
      using less [OF consumed(1)] by blast
    then show ?thesis using consumed(2) msg run by (subst control_task_step) simp
  qed
qed

end

context control_channel
begin

lemma control_task_sees:
  assumes "incoming n = concat (map (message_frame bc) ms)"
    and "\<forall>m \<in> set ms. fits_frame bc m" and "\<forall>m \<in> set ms. \<exists>payload. bc_serialize bc m = Inr payload"
  shows "\<exists>n'. handle_control_messages ar bc log n =
    Some (case ending n of None \<Rightarrow> Ok () | Some e \<Rightarrow> Err (MsgIo e), log @ players_announced ms, n')"
  using assms
proof (induction ms arbitrary: n log)
  case Nil
  obtain x n1 where run: "recv_msg ar bc n = (x, n1)" by fastforce
  have "x = (case ending n of None \<Rightarrow> Inr None | Some e \<Rightarrow> Inl (MsgIo e))"
    by (rule recv_end(1) [OF _ run]) (use Nil.prems(1) in simp)
  then show ?case by (subst control_task_step) (simp add: run split: option.split)
next
  case (Cons m ms)
  obtain payload where p: "bc_serialize bc m = Inr payload" using Cons.prems(3) by auto
  obtain x n1 where run: "recv_msg ar bc n = (x, n1)" by fastforce
  have "message_frame bc m = frame payload" by (simp add: message_frame_def p)
  then have "incoming n = frame payload @ concat (map (message_frame bc) ms)"
    using Cons.prems(1) by simp
  note rf = recv_frame [OF this _ message_roundtrip [OF p] run]
  have "length payload \<le> MAX_CONTROL_MSG_BYTES" using Cons.prems(2) p by (simp add: fits_frame_def)
  then have x: "x = Inr (Some m)" "incoming n1 = concat (map (message_frame bc) ms)" "ending n1 = ending n"
    using rf by simp_all
  obtain n' where "handle_control_messages ar bc (log @ announced m) n1 =
      Some (case ending n1 of None \<Rightarrow> Ok () | Some e \<Rightarrow> Err (MsgIo e),
        (log @ announced m) @ players_announced ms, n')"
    using Cons.IH [OF x(2), of "log @ announced m"] Cons.prems(2,3) by force
  then show ?case
    using x run by (subst control_task_step) (simp add: players_announced_Cons)
qed

end

section \<open>Properties\<close>

text \<open>
  C36: the host's control task always ends with the relay's stream, whatever bytes arrive on it, and
  reports success only when the stream ended cleanly; on the frames of whole messages it has seen
  exactly the announced players, in order.
\<close>

theorem control_task_ends:
  assumes "bincode_spec bc" and "async_read_spec ar incoming ending"
  shows "(\<exists>result seen n'. handle_control_messages ar bc log n = Some (result, log @ seen, n')
      \<and> (result = Ok () \<longrightarrow> ending n = None))
    \<and> (incoming n = concat (map (message_frame bc) ms)
        \<and> (\<forall>m \<in> set ms. fits_frame bc m \<and> is_ok (bc_serialize bc m)) \<longrightarrow>
       (\<exists>n'. handle_control_messages ar bc log n =
          Some (case ending n of None \<Rightarrow> Ok () | Some e \<Rightarrow> Err (MsgIo e), log @ players_announced ms, n')))"
proof -
  note ch = control_channel.intro [OF assms(1) buffer_write.async_write_spec_axioms assms(2)]
  show ?thesis
    using async_read_spec.control_task_returns [OF assms(2), of bc log n]
      control_channel.control_task_sees [OF ch, of n ms log]
    by (auto simp: is_ok_iff)
qed

theorem control_task_ends_witness:
  "\<exists>n'. handle_control_messages buffer_read wire_bincode []
      \<lparr>r_bytes = concat (map (message_frame wire_bincode) [NewConnection 1, Error ''x'', NewConnection 2]),
       r_end = None\<rparr> = Some (Ok (), [1, 2], n')"
proof -
  let ?ms = "[NewConnection 1, Error ''x'', NewConnection 2]"
  let ?n = "\<lparr>r_bytes = concat (map (message_frame wire_bincode) ?ms), r_end = None\<rparr>"
  have "\<forall>m \<in> set ?ms. fits_frame wire_bincode m \<and> is_ok (bc_serialize wire_bincode m)"
    by (simp add: fits_frame_def wire_bincode_def put_message_def const_defs put_list_def put_char_def)
  then show ?thesis
    using control_task_ends [OF wire_bincode.bincode_spec_axioms buffer_read.async_read_spec_axioms,
        of "[]" ?n ?ms] by simp
qed

end
