(* ===== verification/Relay_Tunnel.thy ===== *)
theory Relay_Tunnel
  imports Server_State Control_Message Host_Admission
begin

text \<open>
  The component \<^verbatim>\<open>crates/server/src/tunnel.rs\<close>: the first request on a host's connection and its
  answer, the guard that ends a registration whose answer could not be sent, and a tunnel's players.
  A connection is the parameter \<open>agent_link\<close> on a state \<open>'n\<close>; \<open>'c\<close> is the handle the relay keeps of a
  connection, \<open>'l\<close> a listener. \<open>error_text\<close> is the \<^verbatim>\<open>Display\<close> of an error.
\<close>

section \<open>Data\<close>

definition MAX_CONCURRENT_PLAYERS :: nat where
  [const_defs]: "MAX_CONCURRENT_PLAYERS = 50"

record 'n agent_link =
  al_accept_bi :: "'n \<Rightarrow> (io_error, unit) result \<times> 'n"
  al_write :: "'n async_write"
  al_read :: "'n async_read"
  al_finish :: "'n \<Rightarrow> (io_error, unit) result \<times> 'n"
  al_stopped :: "nat \<Rightarrow> 'n \<Rightarrow> (io_error, unit) result \<times> 'n" \<comment> \<open>with a timeout in seconds\<close>

datatype tunnel_error =
    TunnelIo io_error
  | TunnelMessage message_error
  | AgentDisconnected \<comment> \<open>Agent disconnected before registering\<close>
  | ExpectedRegister \<comment> \<open>Expected Register, RotateIdentity, or RecoverIdentity\<close>
  | UnsupportedTunnel \<comment> \<open>Only TCP tunnels with a nonzero local port are supported\<close>
  | TunnelServer server_error

text \<open>The guard \<^verbatim>\<open>PendingRegistration\<close>; what its destructor spawns is a cleanup to be run later.\<close>

record PendingRegistration =
  pending_token_id :: TokenId
  pending_session_id :: SessionId
  armed :: bool

definition PendingRegistration_new :: "TokenId \<Rightarrow> SessionId \<Rightarrow> PendingRegistration" where
  "PendingRegistration_new token_id session_id =
     \<lparr>pending_token_id = token_id, pending_session_id = session_id, armed = True\<rparr>"

definition disarm :: "PendingRegistration \<Rightarrow> PendingRegistration" where
  "disarm p = p\<lparr>armed := False\<rparr>"

definition drop_pending :: "PendingRegistration \<Rightarrow> (TokenId \<times> SessionId) list" where
  "drop_pending p = (if armed p then [(pending_token_id p, pending_session_id p)] else [])"

text \<open>A running cleanup task: \<^verbatim>\<open>ServerState::end\<close>, whose error is only logged.\<close>

definition run_cleanup ::
  "'json serde_json \<Rightarrow> tempfile \<Rightarrow> u64 \<Rightarrow> TokenId \<times> SessionId \<Rightarrow> 'c ServerState \<Rightarrow> World
    \<Rightarrow> 'c ServerState \<times> World" where
  "run_cleanup sj tf now ks st w = snd (end_registration sj tf (fst ks) (snd ks) now st w)"

record 'l Tunnel =
  tn_listener :: "'l option"
  tn_public_port :: u16
  tn_local_port :: u16
  tn_peer_ip :: IpAddr
  tn_token_id :: TokenId
  tn_session_id :: SessionId
  stream_counter :: u64
  player_slots :: nat
  tn_players :: nat

definition new_tunnel :: "'l Registration \<Rightarrow> u16 \<Rightarrow> IpAddr \<Rightarrow> 'l Tunnel" where
  "new_tunnel reg local_port peer_ip =
     \<lparr>tn_listener = Some (reg_listener reg), tn_public_port = reg_public_port reg,
      tn_local_port = local_port, tn_peer_ip = peer_ip, tn_token_id = reg_token_id reg,
      tn_session_id = reg_session_id reg, stream_counter = 0,
      player_slots = MAX_CONCURRENT_PLAYERS, tn_players = 0\<rparr>"

section \<open>The first request\<close>

text \<open>What the request handler decides while it holds the lock on the state.\<close>

datatype ('l, 'c) decision =
    Answer ControlMessage "'c option" \<comment> \<open>reply, and the connection to close before it\<close>
  | Refuse ControlMessage "tunnel_error option" \<comment> \<open>error reply, and the error returned\<close>
  | Accept "'l Registration" u16
  | Unexpected

definition unsupported_text :: string where
  "unsupported_text = ''Only TCP tunnels with a nonzero local port are supported''"

definition handle_request ::
  "'json serde_json \<Rightarrow> tempfile \<Rightarrow> (u8 list \<Rightarrow> u8 list) \<Rightarrow> (server_error \<Rightarrow> string)
    \<Rightarrow> (u16 \<Rightarrow> (io_error, 'l) result) \<Rightarrow> 'c \<Rightarrow> IpAddr \<Rightarrow> u64 \<Rightarrow> ControlMessage \<Rightarrow> 'c ServerState \<Rightarrow> World
    \<Rightarrow> ('l, 'c) decision \<times> 'c ServerState \<times> World" where
  "handle_request sj tf sha256 error_text bind conn peer_ip now msg st w =
     (case msg of
        RotateIdentity old_token new_token \<Rightarrow>
          (case rotate_token sj tf sha256 old_token new_token now st w of
             (Inr public_port, s) \<Rightarrow> (Answer (IdentityRotated public_port) None, s)
           | (Inl e, s) \<Rightarrow> (Refuse (Error (error_text e)) None, s))
      | RecoverIdentity secret new_token \<Rightarrow>
          (case recover sj tf sha256 secret new_token peer_ip now st w of
             (Inr (public_port, old_connection), s) \<Rightarrow>
               (Answer (IdentityRecovered public_port) old_connection, s)
           | (Inl e, s) \<Rightarrow> (Refuse (Error (error_text e)) None, s))
      | Register protocol local_port token recovery_id \<Rightarrow>
          if protocol \<noteq> Tcp \<or> local_port = 0
          then (Refuse (Error unsupported_text) (Some UnsupportedTunnel), st, w)
          else
            (case register_with_recovery sj tf sha256 bind token (Some recovery_id) peer_ip now
                    (Some conn) st w of
               (Inr registration, s) \<Rightarrow> (Accept registration local_port, s)
             | (Inl e, s) \<Rightarrow> (Refuse (Error (error_text e)) (Some (TunnelServer e)), s))
      | _ \<Rightarrow> (Unexpected, st, w))"

text \<open>\<^verbatim>\<open>send_registration_error\<close>: failures are ignored.\<close>

definition send_registration_error :: "'n agent_link \<Rightarrow> bincode \<Rightarrow> ControlMessage \<Rightarrow> 'n \<Rightarrow> 'n" where
  "send_registration_error al bc msg n =
     (case send_msg (al_write al) bc msg n of
        (Inl _, n') \<Rightarrow> n'
      | (Inr _, n') \<Rightarrow> snd (al_stopped al 1 (snd (al_finish al n'))))"

text \<open>\<^verbatim>\<open>ctrl_send.finish()?\<close> and the wait until the host has read the reply.\<close>

definition finish_reply :: "'n agent_link \<Rightarrow> 'n \<Rightarrow> (tunnel_error, 'a option) result \<times> 'n" where
  "finish_reply al n =
     (case al_finish al n of
        (Inl e, n') \<Rightarrow> (Err (TunnelIo e), n')
      | (Inr _, n') \<Rightarrow>
          (case al_stopped al 8 n' of
             (Inl e, n'') \<Rightarrow> (Err (TunnelIo e), n'') | (Inr _, n'') \<Rightarrow> (Ok None, n'')))"

text \<open>The reply to a decision, with the cleanups a dropped guard spawns.\<close>

definition send_decision ::
  "'n agent_link \<Rightarrow> bincode \<Rightarrow> IpAddr \<Rightarrow> ('l, 'c) decision \<Rightarrow> 'n
    \<Rightarrow> (tunnel_error, 'l Tunnel option) result \<times> (TokenId \<times> SessionId) list \<times> 'n" where
  "send_decision al bc peer_ip decision n =
     (case decision of
        Answer reply _ \<Rightarrow>
          (case send_msg (al_write al) bc reply n of
             (Inl e, n') \<Rightarrow> (Err (TunnelMessage e), [], n')
           | (Inr _, n') \<Rightarrow> (case finish_reply al n' of (r, n'') \<Rightarrow> (r, [], n'')))
      | Refuse reply None \<Rightarrow>
          (case finish_reply al (send_registration_error al bc reply n) of (r, n') \<Rightarrow> (r, [], n'))
      | Refuse reply (Some e) \<Rightarrow> (Err e, [], send_registration_error al bc reply n)
      | Accept registration local_port \<Rightarrow>
          (let pending =
                 PendingRegistration_new (reg_token_id registration) (reg_session_id registration)
           in case send_msg (al_write al) bc (TunnelReady (reg_public_port registration)) n of
               (Inl e, n') \<Rightarrow> (Err (TunnelMessage e), drop_pending pending, n')
             | (Inr _, n') \<Rightarrow>
                 (Ok (Some (new_tunnel registration local_port peer_ip)),
                  drop_pending (disarm pending), n'))
      | Unexpected \<Rightarrow> (Err ExpectedRegister, [], n))"

text \<open>The request of a host: the first message on the first stream it opens.\<close>

definition read_request :: "'n agent_link \<Rightarrow> bincode \<Rightarrow> 'n \<Rightarrow> (tunnel_error, ControlMessage) result \<times> 'n"
where
  "read_request al bc n =
     (case al_accept_bi al n of
        (Inl e, n1) \<Rightarrow> (Err (TunnelIo e), n1)
      | (Inr _, n1) \<Rightarrow>
          (case recv_msg (al_read al) bc n1 of
             (Inl e, n2) \<Rightarrow> (Err (TunnelMessage e), n2)
           | (Inr None, n2) \<Rightarrow> (Err AgentDisconnected, n2)
           | (Inr (Some msg), n2) \<Rightarrow> (Ok msg, n2)))"

text \<open>
  \<^verbatim>\<open>Tunnel::from_quic\<close>: the result, the connection to close, the cleanups spawned, and the three
  states. The lock on the state is held by \<open>handle_request\<close> only.
\<close>

definition closes :: "('l, 'c) decision \<Rightarrow> 'c option" where
  "closes decision = (case decision of Answer _ c \<Rightarrow> c | _ \<Rightarrow> None)"

definition from_quic ::
  "'json serde_json \<Rightarrow> tempfile \<Rightarrow> (u8 list \<Rightarrow> u8 list) \<Rightarrow> (server_error \<Rightarrow> string)
    \<Rightarrow> (u16 \<Rightarrow> (io_error, 'l) result) \<Rightarrow> 'n agent_link \<Rightarrow> bincode \<Rightarrow> 'c \<Rightarrow> IpAddr \<Rightarrow> u64
    \<Rightarrow> 'c ServerState \<Rightarrow> World \<Rightarrow> 'n
    \<Rightarrow> (tunnel_error, 'l Tunnel option) result \<times> 'c option \<times> (TokenId \<times> SessionId) list
        \<times> 'c ServerState \<times> World \<times> 'n" where
  "from_quic sj tf sha256 error_text bind al bc conn peer_ip now st w n =
     (case read_request al bc n of
        (Inl e, n1) \<Rightarrow> (Err e, None, [], st, w, n1)
      | (Inr msg, n1) \<Rightarrow>
          (case handle_request sj tf sha256 error_text bind conn peer_ip now msg st w of
             (decision, st', w') \<Rightarrow>
               (case send_decision al bc peer_ip decision n1 of
                  (r, cleanups, n2) \<Rightarrow> (r, closes decision, cleanups, st', w', n2))))"

section \<open>Players\<close>

text \<open>
  \<^verbatim>\<open>accept_player\<close>: a permit of the tunnel, then one of the relay, then the announcement to the host.
  \<open>available\<close> is the number of permits left of the relay's semaphore; a player that is turned away or
  cannot be announced gives its permits back.
\<close>

definition accept_player ::
  "'n async_write \<Rightarrow> bincode \<Rightarrow> 'l Tunnel \<Rightarrow> nat \<Rightarrow> 'n
    \<Rightarrow> (message_error, unit) result \<times> 'l Tunnel \<times> nat \<times> 'n" where
  "accept_player aw bc tunnel available n =
     (if player_slots tunnel = 0 then (Ok (), tunnel, available, n)
      else if available = 0 then (Ok (), tunnel, available, n)
      else
        let counter = saturating_add_u64 (stream_counter tunnel) 1;
            tunnel' = tunnel\<lparr>stream_counter := counter\<rparr>
        in case send_msg aw bc (NewConnection counter) n of
            (Inl e, n') \<Rightarrow> (Err e, tunnel', available, n')
          | (Inr _, n') \<Rightarrow>
              (Ok (), tunnel'\<lparr>player_slots := player_slots tunnel - 1, tn_players := tn_players tunnel + 1\<rparr>,
               available - 1, n'))"

text \<open>A player's task ends and its two permits are dropped.\<close>

definition player_done :: "'l Tunnel \<Rightarrow> nat \<Rightarrow> 'l Tunnel \<times> nat" where
  "player_done tunnel available =
     (tunnel\<lparr>player_slots := player_slots tunnel + 1, tn_players := tn_players tunnel - 1\<rparr>, available + 1)"

text \<open>The end of \<^verbatim>\<open>Tunnel::run\<close>: the listener is closed and every player is aborted.\<close>

definition stop_tunnel :: "'l Tunnel \<Rightarrow> nat \<Rightarrow> 'l Tunnel \<times> nat" where
  "stop_tunnel tunnel available =
     (tunnel\<lparr>tn_listener := None, player_slots := player_slots tunnel + tn_players tunnel,
        tn_players := 0\<rparr>, available + tn_players tunnel)"

text \<open>
  \<^verbatim>\<open>accept_players\<close> and \<^verbatim>\<open>run\<close> as a function of the events the \<^verbatim>\<open>select!\<close> sees; \<open>None\<close> while the
  tunnel still runs.
\<close>

datatype tunnel_event = AgentClosed | PlayerAccepted | AcceptFailed io_error | PlayerFinished

fun run_tunnel ::
  "'n async_write \<Rightarrow> bincode \<Rightarrow> 'l Tunnel \<Rightarrow> nat \<Rightarrow> 'n \<Rightarrow> tunnel_event list
    \<Rightarrow> (tunnel_error, unit) result option \<times> 'l Tunnel \<times> nat \<times> 'n" where
  "run_tunnel aw bc t av n [] = (None, t, av, n)"
| "run_tunnel aw bc t av n (AgentClosed # es) =
     (case stop_tunnel t av of (t', av') \<Rightarrow> (Some (Ok ()), t', av', n))"
| "run_tunnel aw bc t av n (AcceptFailed e # es) =
     (case stop_tunnel t av of (t', av') \<Rightarrow> (Some (Err (TunnelIo e)), t', av', n))"
| "run_tunnel aw bc t av n (PlayerAccepted # es) =
     (case accept_player aw bc t av n of
        (Inr _, t', av', n') \<Rightarrow> run_tunnel aw bc t' av' n' es
      | (Inl e, t', av', n') \<Rightarrow>
          (case stop_tunnel t' av' of (t'', av'') \<Rightarrow> (Some (Err (TunnelMessage e)), t'', av'', n')))"
| "run_tunnel aw bc t av n (PlayerFinished # es) =
     (if tn_players t = 0 then run_tunnel aw bc t av n es
      else case player_done t av of (t', av') \<Rightarrow> run_tunnel aw bc t' av' n es)"

text \<open>\<^verbatim>\<open>Tunnel::cleanup\<close>.\<close>

definition cleanup ::
  "'json serde_json \<Rightarrow> tempfile \<Rightarrow> u64 \<Rightarrow> 'l Tunnel \<Rightarrow> ('c, unit) handler" where
  "cleanup sj tf now tunnel st w =
     (case end_registration sj tf (tn_token_id tunnel) (tn_session_id tunnel) now st w of
        (Inl e, s) \<Rightarrow> (Err e, s) | (Inr _, s) \<Rightarrow> (Ok (), s))"

end
