(* ===== verification/Relay_System.thy ===== *)
theory Relay_System
  imports Relay_Tunnel Server_Invariant Tls_Config
begin

text \<open>
  The component \<^verbatim>\<open>crates/server/src/relay.rs\<close>: the relay with all its connections at once. The state
  is the one behind the mutex together with the semaphores and, for every connection, what its task
  is doing; a step is one task's action up to its next wait, or the refresh, in any order. A request
  is handled while the lock is held, its reply is a later step, and a task can be cut off at any wait:
  by the host, by the network or by the ten seconds a registration may take.
\<close>

section \<open>State\<close>

definition PENDING_LIMIT :: nat where
  [const_defs]: "PENDING_LIMIT = 128"

definition PENDING_PER_IP_LIMIT :: nat where
  [const_defs]: "PENDING_PER_IP_LIMIT = 4"

definition GLOBAL_PLAYER_LIMIT :: nat where
  [const_defs]: "GLOBAL_PLAYER_LIMIT = 2000"

datatype 'l task =
    Registering PendingHostPermit IpAddr
  | Replying PendingHostPermit
  | Announcing PendingHostPermit "'l Registration" u16 IpAddr
  | Running "'l Tunnel"
  | Ending "'l Tunnel"

text \<open>
  \<open>rl_pending\<close> and \<open>rl_players\<close> are the permits left of the two semaphores; \<open>rl_cleanups\<close> are the
  spawned cleanups that have not run yet. A connection is named by a number.
\<close>

record 'l RelayServer =
  rl_state :: "nat ServerState"
  rl_world :: World
  rl_pending :: nat
  rl_by_ip :: PendingByIp
  rl_players :: nat
  rl_tasks :: "(nat, 'l task) hash_map"
  rl_cleanups :: "(TokenId \<times> SessionId) list"
  rl_next :: nat

definition RelayServer_new :: "nat ServerState \<Rightarrow> World \<Rightarrow> 'l RelayServer" where
  "RelayServer_new state world =
     \<lparr>rl_state = state, rl_world = world, rl_pending = PENDING_LIMIT,
      rl_by_ip = PendingByIp_new PENDING_PER_IP_LIMIT, rl_players = GLOBAL_PLAYER_LIMIT,
      rl_tasks = [], rl_cleanups = [], rl_next = 0\<rparr>"

text \<open>\<^verbatim>\<open>bind_with_config_and_state_path\<close>: the state is loaded first; the endpoint is a parameter.\<close>

datatype bind_error = BindConfig config_error | BindStore store_error | BindEndpoint io_error

definition bind_relay ::
  "'json serde_json \<Rightarrow> tempfile \<Rightarrow> (u8 list \<Rightarrow> u8 list) \<Rightarrow> (io_error, unit) result \<Rightarrow> path \<Rightarrow> u64 \<Rightarrow> World
    \<Rightarrow> (bind_error, 'l RelayServer) result" where
  "bind_relay sj tf sha256 endpoint path now w =
     (case load_or_new sj tf sha256 path now w of
        (Inl e, w') \<Rightarrow> Err (BindStore e)
      | (Inr state, w') \<Rightarrow>
          (case endpoint of Inl e \<Rightarrow> Err (BindEndpoint e) | Inr _ \<Rightarrow> Ok (RelayServer_new state w')))"

text \<open>
  \<^verbatim>\<open>bind\<close>: the TLS configuration from the environment, then the state file in the working directory.
  \<open>var_os\<close> and \<open>var\<close> are \<^verbatim>\<open>std::env::var_os\<close>, as a path, and \<^verbatim>\<open>std::env::var\<close>; \<open>server_endpoint\<close> is
  \<^verbatim>\<open>Endpoint::server\<close> on the address.
\<close>

definition RelayServer_bind ::
  "('cert, 'key, 'root, 'alg) rustls \<Rightarrow> 'json serde_json \<Rightarrow> tempfile \<Rightarrow> (u8 list \<Rightarrow> u8 list)
    \<Rightarrow> (string \<Rightarrow> path option) \<Rightarrow> (string \<Rightarrow> string option)
    \<Rightarrow> (('cert, 'key, 'alg) ServerConfig \<Rightarrow> (io_error, unit) result) \<Rightarrow> u64 \<Rightarrow> World
    \<Rightarrow> (bind_error, 'l RelayServer) result" where
  "RelayServer_bind rl sj tf sha256 var_os var server_endpoint now w =
     (case tls_server_config rl (var_os ''GAMENET_TLS_CERT'') (var_os ''GAMENET_TLS_KEY'')
             (var ''GAMENET_DEV_SELF_SIGNED'' = Some ''1'') w of
        (Inl e, w') \<Rightarrow> Err (BindConfig e)
      | (Inr config, w') \<Rightarrow>
          bind_relay sj tf sha256 (server_endpoint config) [''.'', ''gamenet-state.json''] now w')"

section \<open>The actions of a connection\<close>

text \<open>
  An incoming connection takes a permit of the semaphore and one of its network, or is refused; the
  semaphore's permit is given back when the network has none.
\<close>

definition accept_incoming :: "IpAddr \<Rightarrow> 'l RelayServer \<Rightarrow> nat option \<times> 'l RelayServer" where
  "accept_incoming ip r =
     (if rl_pending r = 0 then (None, r)
      else case try_acquire ip (rl_by_ip r) of
          (None, by_ip) \<Rightarrow> (None, r\<lparr>rl_by_ip := by_ip\<rparr>)
        | (Some permit, by_ip) \<Rightarrow>
            (Some (rl_next r),
             r\<lparr>rl_pending := rl_pending r - 1, rl_by_ip := by_ip,
               rl_tasks := hm_insert (rl_next r) (Registering permit ip) (rl_tasks r),
               rl_next := rl_next r + 1\<rparr>))"

text \<open>\<^verbatim>\<open>drop((permit, ip_permit))\<close>; \<open>None\<close> is a panic of the second destructor.\<close>

definition drop_permits :: "PendingHostPermit \<Rightarrow> 'l RelayServer \<Rightarrow> 'l RelayServer option" where
  "drop_permits permit r =
     (case drop_permit permit (rl_by_ip r) of
        None \<Rightarrow> None
      | Some by_ip \<Rightarrow> Some (r\<lparr>rl_pending := rl_pending r + 1, rl_by_ip := by_ip\<rparr>))"

definition set_task :: "nat \<Rightarrow> 'l task \<Rightarrow> 'l RelayServer \<Rightarrow> 'l RelayServer" where
  "set_task c task r = r\<lparr>rl_tasks := hm_insert c task (rl_tasks r)\<rparr>"

definition end_task :: "nat \<Rightarrow> 'l RelayServer \<Rightarrow> 'l RelayServer" where
  "end_task c r = r\<lparr>rl_tasks := hm_remove c (rl_tasks r)\<rparr>"

text \<open>What a task does next once its request was decided.\<close>

definition after_decision :: "PendingHostPermit \<Rightarrow> IpAddr \<Rightarrow> ('l, nat) decision \<Rightarrow> 'l task" where
  "after_decision permit ip decision =
     (case decision of
        Accept registration local_port \<Rightarrow> Announcing permit registration local_port ip
      | _ \<Rightarrow> Replying permit)"

text \<open>
  The arrays of a request have 32 bytes. The stream of a running tunnel is a \<open>writer\<close>, which may
  break anywhere: of it the tunnel only sees whether an announcement could be written.
\<close>

definition request_ok :: "ControlMessage \<Rightarrow> bool" where
  "request_ok msg = (case msg of Register _ _ _ recovery_id \<Rightarrow> length recovery_id = 32 | _ \<Rightarrow> True)"

inductive relay_step ::
  "'json serde_json \<Rightarrow> tempfile \<Rightarrow> (u8 list \<Rightarrow> u8 list) \<Rightarrow> 'l RelayServer \<Rightarrow> 'l RelayServer \<Rightarrow> bool"
  for sj :: "'json serde_json" and tf :: tempfile and sha256 :: "u8 list \<Rightarrow> u8 list" where
  relay_accepts: "accept_incoming ip r = (c, r') \<Longrightarrow> relay_step sj tf sha256 r r'"
| relay_decides:
    "hm_get (rl_tasks r) c = Some (Registering permit ip) \<Longrightarrow> request_ok msg
     \<Longrightarrow> handle_request sj tf sha256 error_text bind c ip now msg (rl_state r) (rl_world r)
          = (decision, st', w')
     \<Longrightarrow> relay_step sj tf sha256 r
          (set_task c (after_decision permit ip decision) (r\<lparr>rl_state := st', rl_world := w'\<rparr>))"
| relay_gives_up:
    "hm_get (rl_tasks r) c = Some task \<Longrightarrow> task = Registering permit ip \<or> task = Replying permit
     \<Longrightarrow> drop_permits permit r = Some r' \<Longrightarrow> relay_step sj tf sha256 r (end_task c r')"
| relay_announced:
    "hm_get (rl_tasks r) c = Some (Announcing permit registration local_port ip)
     \<Longrightarrow> drop_permits permit r = Some r'
     \<Longrightarrow> relay_step sj tf sha256 r (set_task c (Running (new_tunnel registration local_port ip)) r')"
| relay_not_announced:
    "hm_get (rl_tasks r) c = Some (Announcing permit registration local_port ip)
     \<Longrightarrow> drop_permits permit r = Some r'
     \<Longrightarrow> relay_step sj tf sha256 r
          (end_task c (r'\<lparr>rl_cleanups := rl_cleanups r' @
             drop_pending (PendingRegistration_new (reg_token_id registration) (reg_session_id registration))\<rparr>))"
| relay_tunnels:
    "hm_get (rl_tasks r) c = Some (Running tunnel)
     \<Longrightarrow> run_tunnel buffer_write bc tunnel (rl_players r) n [event] = (result, tunnel', available, n')
     \<Longrightarrow> relay_step sj tf sha256 r
          (set_task c (if result = None then Running tunnel' else Ending tunnel')
            (r\<lparr>rl_players := available\<rparr>))"
| relay_cleans_up:
    "hm_get (rl_tasks r) c = Some (Ending tunnel)
     \<Longrightarrow> cleanup sj tf now tunnel (rl_state r) (rl_world r) = (result, st', w')
     \<Longrightarrow> relay_step sj tf sha256 r (end_task c (r\<lparr>rl_state := st', rl_world := w'\<rparr>))"
| relay_runs_cleanup:
    "ks \<in> set (rl_cleanups r) \<Longrightarrow> run_cleanup sj tf now ks (rl_state r) (rl_world r) = (st', w')
     \<Longrightarrow> relay_step sj tf sha256 r
          (r\<lparr>rl_state := st', rl_world := w', rl_cleanups := remove1 ks (rl_cleanups r)\<rparr>)"
| relay_refreshes:
    "refresh_and_save sj tf now (rl_state r) (rl_world r) = (result, st', w')
     \<Longrightarrow> relay_step sj tf sha256 r (r\<lparr>rl_state := st', rl_world := w'\<rparr>)"
| relay_faults: "relay_step sj tf sha256 r (r\<lparr>rl_world := (rl_world r)\<lparr>faults := fs\<rparr>\<rparr>)"

definition relay_start ::
  "'json serde_json \<Rightarrow> tempfile \<Rightarrow> (u8 list \<Rightarrow> u8 list) \<Rightarrow> path \<Rightarrow> 'l RelayServer \<Rightarrow> bool" where
  "relay_start sj tf sha256 p r \<longleftrightarrow> (\<exists>endpoint now w. bind_relay sj tf sha256 endpoint p now w = Inr r)"

text \<open>
  The program of \<^verbatim>\<open>crates/server/src/main.rs\<close>: bind, and run. \<open>server_endpoint\<close> is that of the fixed
  address \<^verbatim>\<open>0.0.0.0:5000\<close>. The predicate holds of the states a run passes through.
\<close>

definition relay_main ::
  "('cert, 'key, 'root, 'alg) rustls \<Rightarrow> 'json serde_json \<Rightarrow> tempfile \<Rightarrow> (u8 list \<Rightarrow> u8 list)
    \<Rightarrow> (string \<Rightarrow> path option) \<Rightarrow> (string \<Rightarrow> string option)
    \<Rightarrow> (('cert, 'key, 'alg) ServerConfig \<Rightarrow> (io_error, unit) result) \<Rightarrow> u64 \<Rightarrow> World \<Rightarrow> 'l RelayServer \<Rightarrow> bool"
where
  "relay_main rl sj tf sha256 var_os var server_endpoint now w r =
     (case RelayServer_bind rl sj tf sha256 var_os var server_endpoint now w of
        Inl e \<Rightarrow> False
      | Inr server \<Rightarrow> (relay_step sj tf sha256)\<^sup>*\<^sup>* server r)"

section \<open>What the tasks hold\<close>

definition task_permits :: "'l task \<Rightarrow> PendingHostPermit multiset" where
  "task_permits task =
     (case task of
        Registering permit _ \<Rightarrow> {#permit#}
      | Replying permit \<Rightarrow> {#permit#}
      | Announcing permit _ _ _ \<Rightarrow> {#permit#}
      | _ \<Rightarrow> {#})"

definition task_sessions :: "'l task \<Rightarrow> (TokenId \<times> SessionId) multiset" where
  "task_sessions task =
     (case task of
        Announcing _ registration _ _ \<Rightarrow> {#(reg_token_id registration, reg_session_id registration)#}
      | Running tunnel \<Rightarrow> {#(tn_token_id tunnel, tn_session_id tunnel)#}
      | Ending tunnel \<Rightarrow> {#(tn_token_id tunnel, tn_session_id tunnel)#}
      | _ \<Rightarrow> {#})"

definition task_players :: "'l task \<Rightarrow> nat" where
  "task_players task = (case task of Running tunnel \<Rightarrow> tn_players tunnel | _ \<Rightarrow> 0)"

definition tasks_sum :: "('l task \<Rightarrow> 'a::comm_monoid_add) \<Rightarrow> (nat, 'l task) hash_map \<Rightarrow> 'a" where
  "tasks_sum f m = (\<Sum>e\<leftarrow>m. f (snd e))"

definition held :: "'l RelayServer \<Rightarrow> PendingHostPermit multiset" where
  "held r = tasks_sum task_permits (rl_tasks r)"

text \<open>The sessions some task or cleanup is going to end.\<close>

definition guarded :: "'l RelayServer \<Rightarrow> (TokenId \<times> SessionId) multiset" where
  "guarded r = mset (rl_cleanups r) + tasks_sum task_sessions (rl_tasks r)"

definition served :: "'l RelayServer \<Rightarrow> nat" where
  "served r = tasks_sum task_players (rl_tasks r)"

lemma tasks_sum_Nil [simp]: "tasks_sum f [] = 0"
  by (simp add: tasks_sum_def)

lemma tasks_sum_remove:
  assumes "hm_wf m" and "hm_get m c = Some task"
  shows "tasks_sum f m = f task + tasks_sum f (hm_remove c m)"
  using assms
proof (induction m)
  case (Cons e m)
  have wf: "hm_wf m" using Cons.prems(1) by (simp add: hm_wf_def)
  show ?case
  proof (cases "fst e = c")
    case True
    have "hm_get m c = None"
      using Cons.prems(1) True by (auto simp: hm_wf_def hm_get_None_iff)
    then have "hm_remove c (e # m) = m"
      using True hm_remove_absent [of m c] by (simp add: hm_remove_def)
    moreover have "snd e = task" using Cons.prems(2) True by (cases e) (simp add: hm_get_def)
    ultimately show ?thesis by (simp add: tasks_sum_def)
  next
    case False
    have "hm_get m c = Some task"
      using Cons.prems(2) False by (cases e) (simp add: hm_get_def)
    from Cons.IH [OF wf this] False show ?thesis
      by (simp add: tasks_sum_def hm_remove_def ac_simps)
  qed
qed (simp add: hm_get_def)

lemma tasks_sum_insert: "tasks_sum f (hm_insert c task m) = f task + tasks_sum f (hm_remove c m)"
  by (simp add: tasks_sum_def hm_insert_def)

end
