(* ===== verification/Relay_Invariant.thy ===== *)
theory Relay_Invariant
  imports Relay_System Lease_System
begin

text \<open>
  The invariant of the relay with all its connections: the permits and players that tasks hold add up
  with those left, and every active session of the lease table is guarded by exactly one task or
  cleanup, which is going to end it.
\<close>

section \<open>Effects of the handlers on the sessions\<close>

lemma rotate_next_session: "rotate_claim old new now t = (r, t') \<Longrightarrow> next_session_id t' = next_session_id t"
  by (auto simp: rotate_claim_def Let_def split: option.splits if_splits LeaseStatus.splits)

lemma recover_next_session: "recover_claim k new ip now t = (Inr r, t') \<Longrightarrow> next_session_id t' = next_session_id t"
  by (erule recover_claim_cases) simp_all

lemma end_next_session: "end_session k s now t = (b, t') \<Longrightarrow> next_session_id t' = next_session_id t"
  by (auto simp: end_session_def split: option.splits if_splits)

text \<open>No session is started.\<close>

definition sessions_kept :: "LeaseTable \<Rightarrow> LeaseTable \<Rightarrow> bool" where
  "sessions_kept t t' \<longleftrightarrow> next_session_id t' = next_session_id t
     \<and> (\<forall>k s. active_session t' k = Some s \<longrightarrow> active_session t k = Some s)"

lemma sessions_kept_refl [simp]: "sessions_kept t t"
  by (simp add: sessions_kept_def)

lemma sessions_kept_reap: "lease_inv t \<Longrightarrow> sessions_kept t (reap_expired now t)"
  by (simp add: sessions_kept_def)

lemma rotate_sessions_kept:
  assumes "server_inv sj p (st, w)" and "rotate_token sj tf sha256 old new now st w = (res, st', w')"
  shows "sessions_kept (st_leases st) (st_leases st')"
  using assms(2)
proof (cases rule: rotate_cases)
  case (moved q t r)
  then show ?thesis
    using rotate_claim_active_session [OF server_invD(1) [OF assms(1)] moved(2)]
      rotate_next_session [OF moved(2)]
    by (simp add: sessions_kept_def split: sum.splits)
qed simp_all

lemma recover_sessions_kept:
  assumes "server_inv sj p (st, w)" and "recover sj tf sha256 secret new ip now st w = (res, st', w')"
  shows "sessions_kept (st_leases st) (st_leases st')"
  using assms(2)
proof (cases rule: recover_cases)
  case (moved rec t r)
  obtain old where "active_session t k = (if k = old then None else active_session (st_leases st) k)" for k
    by (rule recover_claim_active_session [OF server_invD(1) [OF assms(1)] moved(3,2)]) blast
  then show ?thesis
    using moved(6) recover_next_session [OF moved(3)]
    by (auto simp: sessions_kept_def split: sum.splits if_splits)
qed simp_all

lemma refresh_sessions_kept:
  assumes "server_inv sj p (st, w)" and "refresh_and_save sj tf now st w = (res, st', w')"
  shows "sessions_kept (st_leases st) (st_leases st')"
  using assms(2)
  by (cases rule: refresh_cases) (simp add: sessions_kept_reap [OF server_invD(1) [OF assms(1)]])

text \<open>Ending a session ends at most that one, and ends it if it was active.\<close>

lemma end_registration_sessions:
  assumes "server_inv sj p (st, w)" and "end_registration sj tf k s now st w = (res, st', w')"
  shows "sessions_kept (st_leases st) (st_leases st')" and "active_session (st_leases st') k \<noteq> Some s"
proof -
  have "sessions_kept (st_leases st) (st_leases st') \<and> active_session (st_leases st') k \<noteq> Some s"
    using assms(2)
  proof (cases rule: end_registration_cases)
    case stale
    then show ?thesis
      by (auto simp: active_session_def end_session_def split: option.splits LeaseStatus.splits if_splits)
  next
    case (ended t r)
    then show ?thesis
      using end_session_active_session [OF ended(1)] end_next_session [OF ended(1)]
      by (auto simp: sessions_kept_def)
  qed
  then show "sessions_kept (st_leases st) (st_leases st')" and "active_session (st_leases st') k \<noteq> Some s"
    by blast+
qed

text \<open>A registration starts one session, with a number above all earlier ones.\<close>

definition session_started :: "TokenId \<Rightarrow> SessionId \<Rightarrow> LeaseTable \<Rightarrow> LeaseTable \<Rightarrow> bool" where
  "session_started k s t t' \<longleftrightarrow> s = SessionId (next_session_id t') \<and> next_session_id t < next_session_id t'
     \<and> (\<forall>k'. active_session t' k' = (if k' = k then Some s else active_session t k'))"

lemma register_sessions:
  assumes inv: "server_inv sj p (st, w)"
    and run: "register_with_recovery sj tf sha256 bind token r ip now c st w = (res, st', w')"
  shows "case res of
      Inl _ \<Rightarrow> sessions_kept (st_leases st) (st_leases st')
    | Inr reg \<Rightarrow> session_started (reg_token_id reg) (reg_session_id reg) (st_leases st) (st_leases st')"
proof -
  note d = server_invD [OF inv]
  show ?thesis
    using run
  proof (cases rule: register_cases)
    case (registered taken q rest listener s staged u)
    obtain n where s: "s = SessionId n" by (cases s)
    note num = activate_session_number [OF registered(5) [unfolded s]]
    have "next_session_id (st_leases st) < n"
      using num(1) by (simp add: word_less_nat_alt)
    moreover have "active_session staged k' = (if k' = TokenId_from_token sha256 token then Some s
        else active_session (st_leases st) k')" for k'
      using activate_active_session [OF reap_expired_inv [OF d(1)] registered(5)]
        active_session_reap [OF d(1)] by simp
    ultimately show ?thesis
      using registered(7,8) num(2) s by (simp add: session_started_def)
  qed (simp_all add: sessions_kept_reap [OF d(1)])
qed

section \<open>A request that is decided\<close>

lemma handle_request_inv:
  fixes bind :: "u16 \<Rightarrow> (io_error, 'l) result"
  assumes spec: "serde_json_spec sj" "tempfile_spec tf" "\<not> temp_name p" "sha_ok sha256"
    and inv: "server_inv sj p (st, w)" and ok: "request_ok msg"
    and run: "handle_request sj tf sha256 error_text bind conn ip now msg st w = (decision, st', w')"
  shows "server_inv sj p (st', w')"
    and "case decision of
        Accept reg _ \<Rightarrow>
          session_started (reg_token_id reg) (reg_session_id reg) (st_leases st) (st_leases st')
      | _ \<Rightarrow> sessions_kept (st_leases st) (st_leases st')"
proof -
  have "server_inv sj p (st', w') \<and> (case decision of
        Accept reg _ \<Rightarrow>
          session_started (reg_token_id reg) (reg_session_id reg) (st_leases st) (st_leases st')
      | _ \<Rightarrow> sessions_kept (st_leases st) (st_leases st'))"
  proof (cases msg)
    case (Register protocol local_port token recovery_id)
    show ?thesis
    proof (cases "protocol \<noteq> Tcp \<or> local_port = 0")
      case True
      then show ?thesis using run inv Register by (auto simp: handle_request_def)
    next
      case False
      obtain res :: "(server_error, 'l Registration) result" and s
        where reg: "register_with_recovery sj tf sha256 bind token (Some recovery_id) ip now
          (Some conn) st w = (res, s)" by (rule prod.exhaust)
      then have reg': "register_with_recovery sj tf sha256 bind token (Some recovery_id) ip now
          (Some conn) st w = (res, st', w')"
        using run Register False by (auto simp: handle_request_def split: sum.splits)
      have "server_inv sj p (st', w')"
        by (rule register_inv [OF spec inv reg']) (use ok Register in \<open>simp add: request_ok_def\<close>)
      then show ?thesis
        using register_sessions [OF inv reg'] run Register False reg
        by (auto simp: handle_request_def split: sum.splits)
    qed
  next
    case (RotateIdentity old new)
    obtain res where rot: "rotate_token sj tf sha256 old new now st w = (res, st', w')"
      using run RotateIdentity by (auto simp: handle_request_def split: sum.splits prod.splits)
    then show ?thesis
      using run RotateIdentity rotate_inv [OF spec inv rot] rotate_sessions_kept [OF inv rot]
      by (auto simp: handle_request_def split: sum.splits)
  next
    case (RecoverIdentity secret new)
    obtain res where rec: "recover sj tf sha256 secret new ip now st w = (res, st', w')"
      using run RecoverIdentity by (auto simp: handle_request_def split: sum.splits prod.splits)
    then show ?thesis
      using run RecoverIdentity recover_inv [OF spec inv rec] recover_sessions_kept [OF inv rec]
      by (auto simp: handle_request_def split: sum.splits)
  qed (use run inv in \<open>auto simp: handle_request_def\<close>)
  then show "server_inv sj p (st', w')"
    and "case decision of
        Accept reg _ \<Rightarrow>
          session_started (reg_token_id reg) (reg_session_id reg) (st_leases st) (st_leases st')
      | _ \<Rightarrow> sessions_kept (st_leases st) (st_leases st')" by blast+
qed

section \<open>The invariant\<close>

definition guards_ok :: "LeaseTable \<Rightarrow> (TokenId \<times> SessionId) multiset \<Rightarrow> bool" where
  "guards_ok t g \<longleftrightarrow>
     (\<forall>k s. active_session t k = Some s \<longrightarrow> (k, s) \<in># g)
     \<and> (\<forall>k n. (k, SessionId n) \<in># g \<longrightarrow> n \<le> next_session_id t)
     \<and> (\<forall>s. count (image_mset snd g) s \<le> 1)"

definition task_ok :: "'l task \<Rightarrow> bool" where
  "task_ok task =
     (case task of
        Running tunnel \<Rightarrow> player_slots tunnel + tn_players tunnel = MAX_CONCURRENT_PLAYERS
      | Ending tunnel \<Rightarrow> tn_players tunnel = 0
      | _ \<Rightarrow> True)"

definition tasks_ok :: "nat \<Rightarrow> (nat, 'l task) hash_map \<Rightarrow> bool" where
  "tasks_ok n m \<longleftrightarrow> hm_wf m \<and> (\<forall>e \<in> set m. fst e < n \<and> task_ok (snd e))"

definition relay_inv :: "'json serde_json \<Rightarrow> path \<Rightarrow> 'l RelayServer \<Rightarrow> bool" where
  "relay_inv sj p r \<longleftrightarrow>
     server_inv sj p (rl_state r, rl_world r)
     \<and> tasks_ok (rl_next r) (rl_tasks r)
     \<and> rl_pending r + size (held r) = PENDING_LIMIT
     \<and> admission_inv PENDING_PER_IP_LIMIT (rl_by_ip r, held r)
     \<and> rl_players r + served r = GLOBAL_PLAYER_LIMIT
     \<and> guards_ok (st_leases (rl_state r)) (guarded r)"

lemma relay_invD:
  assumes "relay_inv sj p r"
  shows "server_inv sj p (rl_state r, rl_world r)" and "hm_wf (rl_tasks r)"
    and "tasks_ok (rl_next r) (rl_tasks r)" and "hm_get (rl_tasks r) c = Some task \<Longrightarrow> task_ok task"
    and "rl_pending r + size (held r) = PENDING_LIMIT"
    and "admission_inv PENDING_PER_IP_LIMIT (rl_by_ip r, held r)"
    and "rl_players r + served r = GLOBAL_PLAYER_LIMIT"
    and "guards_ok (st_leases (rl_state r)) (guarded r)"
  using assms by (force simp: relay_inv_def tasks_ok_def dest: hm_get_in_set)+

lemma guards_kept: "guards_ok t g \<Longrightarrow> sessions_kept t t' \<Longrightarrow> guards_ok t' g"
  by (simp add: guards_ok_def sessions_kept_def)

lemma guards_started:
  assumes g: "guards_ok t g" and s: "session_started k s t t'"
  shows "guards_ok t' (add_mset (k, s) g)"
proof -
  have le: "n \<le> next_session_id t'" if "(k', SessionId n) \<in># g" for k' n
  proof -
    have "n \<le> next_session_id t" using g that by (simp add: guards_ok_def)
    moreover have "next_session_id t < next_session_id t'" using s by (simp add: session_started_def)
    ultimately show ?thesis by order
  qed
  have "s \<notin># image_mset snd g"
  proof
    assume "s \<in># image_mset snd g"
    then obtain k' where "(k', s) \<in># g" by auto
    then have "(k', SessionId (next_session_id t')) \<in># g" using s by (simp add: session_started_def)
    then have "next_session_id t' \<le> next_session_id t" using g by (simp add: guards_ok_def)
    moreover have "next_session_id t < next_session_id t'" using s by (simp add: session_started_def)
    ultimately show False by order
  qed
  then have "count (image_mset snd g) s = 0" by (simp only: not_in_iff)
  then show ?thesis
    using g s le by (auto simp: guards_ok_def session_started_def)
qed

lemma guards_ended:
  assumes g: "guards_ok t (add_mset (k, s) g)" and k: "sessions_kept t t'"
    and e: "active_session t' k \<noteq> Some s"
  shows "guards_ok t' g"
proof -
  have "(k', s') \<in># g" if "active_session t' k' = Some s'" for k' s'
  proof -
    have "active_session t k' = Some s'" using k that by (simp add: sessions_kept_def)
    then have "(k', s') \<in># add_mset (k, s) g" using g by (simp add: guards_ok_def)
    then show ?thesis using that e by auto
  qed
  moreover have "count (image_mset snd g) s' \<le> 1" for s'
  proof -
    have "count (image_mset snd (add_mset (k, s) g)) s' \<le> 1" using g by (simp add: guards_ok_def)
    then show ?thesis by (auto split: if_splits)
  qed
  moreover have "next_session_id t' = next_session_id t" using k by (simp add: sessions_kept_def)
  ultimately show ?thesis using g by (simp add: guards_ok_def)
qed

section \<open>Every step keeps it\<close>

text \<open>The sums over the tasks after one of them changed, ended or came in addition.\<close>

lemma tasks_sum_update:
  assumes "hm_wf m" and "hm_get m c = Some task"
  shows "f task + tasks_sum f (hm_insert c task' m) = f task' + tasks_sum f m"
  using tasks_sum_remove [OF assms, of f] by (simp add: tasks_sum_insert ac_simps)

lemma tasks_sum_new: "hm_get m c = None \<Longrightarrow> tasks_sum f (hm_insert c task m) = f task + tasks_sum f m"
  by (simp add: tasks_sum_insert hm_remove_absent)

lemma tasks_ok_insert: "tasks_ok n m \<Longrightarrow> c < n \<Longrightarrow> task_ok task \<Longrightarrow> tasks_ok n (hm_insert c task m)"
  by (auto simp: tasks_ok_def set_hm_insert hm_wf_insert)

lemma tasks_ok_remove: "tasks_ok n m \<Longrightarrow> tasks_ok n (hm_remove c m)"
  by (auto simp: tasks_ok_def set_hm_remove hm_remove_def hm_wf_filter)

lemma tasks_ok_Suc: "tasks_ok n m \<Longrightarrow> tasks_ok (Suc n) m"
  by (auto simp: tasks_ok_def less_Suc_eq)

lemma tasks_ok_key: "tasks_ok n m \<Longrightarrow> hm_get m c = Some task \<Longrightarrow> c < n"
  by (force simp: tasks_ok_def dest: hm_get_in_set)

lemma tasks_ok_fresh: "tasks_ok n m \<Longrightarrow> hm_get m n = None"
  by (force simp: tasks_ok_def hm_get_None_iff)

lemma accept_incoming_inv:
  assumes inv: "relay_inv sj p r" and run: "accept_incoming ip r = (c, r')"
  shows "relay_inv sj p r'"
proof (cases "rl_pending r = 0")
  case True
  then show ?thesis using inv run by (simp add: accept_incoming_def)
next
  case False
  note adm = relay_invD(6) [OF inv]
  obtain x by_ip where t: "try_acquire ip (rl_by_ip r) = (x, by_ip)" by fastforce
  show ?thesis
  proof (cases x)
    case None
    have "admission_inv PENDING_PER_IP_LIMIT (by_ip, held r)"
      by (rule admission_step_inv [OF admission_step.refused adm]) (use t None in simp)
    then show ?thesis
      using inv run False t None
      by (auto simp: accept_incoming_def relay_inv_def held_def served_def guarded_def)
  next
    case (Some permit)
    have a: "admission_inv PENDING_PER_IP_LIMIT (by_ip, add_mset permit (held r))"
      by (rule admission_step_inv [OF admission_step.admitted adm]) (use t Some in simp)
    note new = tasks_sum_new [OF tasks_ok_fresh [OF relay_invD(3) [OF inv]]]
    have wf: "tasks_ok (Suc (rl_next r)) (hm_insert (rl_next r) (Registering permit ip) (rl_tasks r))"
      by (rule tasks_ok_insert [OF tasks_ok_Suc [OF relay_invD(3) [OF inv]]]) (simp_all add: task_ok_def)
    show ?thesis
      using inv run False t Some a wf new [of task_permits] new [of task_players] new [of task_sessions]
      by (auto simp: accept_incoming_def relay_inv_def held_def served_def guarded_def
          task_permits_def task_players_def task_sessions_def)
  qed
qed

text \<open>Permits that a task holds can be dropped.\<close>

lemma drop_permits_effect:
  assumes inv: "relay_inv sj p r" and task: "hm_get (rl_tasks r) c = Some task"
    and permit: "task_permits task = {#permit#}" and run: "drop_permits permit r = Some r'"
  shows "\<exists>by_ip. r' = r\<lparr>rl_pending := rl_pending r + 1, rl_by_ip := by_ip\<rparr>
    \<and> admission_inv PENDING_PER_IP_LIMIT (by_ip, tasks_sum task_permits (hm_remove c (rl_tasks r)))"
proof -
  obtain by_ip where d: "drop_permit permit (rl_by_ip r) = Some by_ip"
    and r': "r' = r\<lparr>rl_pending := rl_pending r + 1, rl_by_ip := by_ip\<rparr>"
    using run by (auto simp: drop_permits_def split: option.splits)
  have h: "held r = add_mset permit (tasks_sum task_permits (hm_remove c (rl_tasks r)))"
    using tasks_sum_remove [OF relay_invD(2) [OF inv] task, of task_permits] permit
    by (simp add: held_def)
  have "admission_inv PENDING_PER_IP_LIMIT (by_ip, held r - {#permit#})"
    by (rule admission_step_inv [OF admission_step.dropped relay_invD(6) [OF inv]]) (use h d in simp_all)
  then show ?thesis using r' h by auto
qed

lemma drop_permits_possible:
  assumes inv: "relay_inv sj p r" and task: "hm_get (rl_tasks r) c = Some task"
    and permit: "task_permits task = {#permit#}"
  shows "\<exists>r'. drop_permits permit r = Some r'"
proof -
  have "permit \<in># held r"
    using tasks_sum_remove [OF relay_invD(2) [OF inv] task, of task_permits] permit
    by (simp add: held_def)
  then show ?thesis
    using drop_permit_held [OF relay_invD(6) [OF inv]] by (fastforce simp: drop_permits_def)
qed

text \<open>The steps of a task that has another in its place afterwards, or none.\<close>

lemma set_task_inv:
  assumes inv: "relay_inv sj p r" and task: "hm_get (rl_tasks r) c = Some task" and ok: "task_ok task'"
    and server: "server_inv sj p (rl_state r', rl_world r')"
    and permits: "rl_pending r' + size (task_permits task') = rl_pending r + size (task_permits task)"
    and adm: "admission_inv PENDING_PER_IP_LIMIT (rl_by_ip r',
        task_permits task' + tasks_sum task_permits (hm_remove c (rl_tasks r)))"
    and players: "rl_players r' + task_players task' = rl_players r + task_players task"
    and guards: "guards_ok (st_leases (rl_state r'))
        (task_sessions task' + (mset (rl_cleanups r') + tasks_sum task_sessions (hm_remove c (rl_tasks r))))"
    and same: "rl_tasks r' = rl_tasks r" "rl_next r' = rl_next r"
  shows "relay_inv sj p (set_task c task' r')"
proof -
  note sum = tasks_sum_remove [OF relay_invD(2) [OF inv] task]
  have "tasks_ok (rl_next r) (hm_insert c task' (rl_tasks r))"
    by (rule tasks_ok_insert [OF relay_invD(3) [OF inv] tasks_ok_key [OF relay_invD(3) [OF inv] task] ok])
  then show ?thesis
    using server permits adm players guards same relay_invD(5,7) [OF inv]
      sum [of task_permits] sum [of task_players]
    by (simp add: relay_inv_def set_task_def held_def served_def guarded_def tasks_sum_insert ac_simps)
qed

lemma end_task_inv:
  assumes inv: "relay_inv sj p r" and task: "hm_get (rl_tasks r) c = Some task"
    and server: "server_inv sj p (rl_state r', rl_world r')"
    and permits: "rl_pending r' = rl_pending r + size (task_permits task)"
    and adm: "admission_inv PENDING_PER_IP_LIMIT (rl_by_ip r',
        tasks_sum task_permits (hm_remove c (rl_tasks r)))"
    and players: "rl_players r' = rl_players r + task_players task"
    and guards: "guards_ok (st_leases (rl_state r'))
        (mset (rl_cleanups r') + tasks_sum task_sessions (hm_remove c (rl_tasks r)))"
    and same: "rl_tasks r' = rl_tasks r" "rl_next r' = rl_next r"
  shows "relay_inv sj p (end_task c r')"
proof -
  note sum = tasks_sum_remove [OF relay_invD(2) [OF inv] task]
  show ?thesis
    using server permits adm players guards same relay_invD(5,7) [OF inv]
      sum [of task_permits] sum [of task_players] tasks_ok_remove [OF relay_invD(3) [OF inv]]
    by (simp add: relay_inv_def end_task_def held_def served_def guarded_def ac_simps)
qed

lemma held_split:
  assumes "relay_inv sj p r" and "hm_get (rl_tasks r) c = Some task"
  shows "held r = task_permits task + tasks_sum task_permits (hm_remove c (rl_tasks r))"
    and "guarded r = task_sessions task
      + (mset (rl_cleanups r) + tasks_sum task_sessions (hm_remove c (rl_tasks r)))"
  using tasks_sum_remove [OF relay_invD(2) [OF assms(1)] assms(2), of task_permits]
    tasks_sum_remove [OF relay_invD(2) [OF assms(1)] assms(2), of task_sessions]
  by (simp_all add: held_def guarded_def ac_simps)

lemmas task_parts = task_permits_def task_players_def task_sessions_def task_ok_def

text \<open>A tunnel's step keeps its players and permits in balance.\<close>

lemma run_tunnel_event:
  assumes run: "run_tunnel aw bc t av n [event] = (res, t', av', n')"
    and ok: "player_slots t + tn_players t = MAX_CONCURRENT_PLAYERS"
  shows "task_ok (if res = None then Running t' else Ending t')"
    and "av' + task_players (if res = None then Running t' else Ending t') = av + tn_players t"
    and "tn_token_id t' = tn_token_id t" and "tn_session_id t' = tn_session_id t"
proof -
  have "task_ok (if res = None then Running t' else Ending t')
      \<and> av' + task_players (if res = None then Running t' else Ending t') = av + tn_players t
      \<and> tn_token_id t' = tn_token_id t \<and> tn_session_id t' = tn_session_id t"
  proof (cases event)
    case PlayerAccepted
    show ?thesis
    proof (cases "player_slots t = 0 \<or> av = 0")
      case True
      then have "accept_player aw bc t av n = (Inr (), t, av, n)" by (auto simp: accept_player_def)
      then show ?thesis using run ok PlayerAccepted by (auto simp: task_parts)
    next
      case False
      let ?n = "saturating_add_u64 (stream_counter t) 1"
      obtain x y where s: "send_msg aw bc (NewConnection ?n) n = (x, y)" by fastforce
      have "accept_player aw bc t av n =
        (case x of
           Inl e \<Rightarrow> (Inl e, t\<lparr>stream_counter := ?n\<rparr>, av, y)
         | Inr _ \<Rightarrow> (Inr (), t\<lparr>stream_counter := ?n, player_slots := player_slots t - 1,
             tn_players := tn_players t + 1\<rparr>, av - 1, y))"
        using False s by (cases x) (simp_all add: accept_player_def Let_def)
      then show ?thesis
        using run ok PlayerAccepted False by (cases x) (auto simp: stop_tunnel_def task_parts)
    qed
  qed (use run ok in \<open>auto simp: stop_tunnel_def player_done_def task_parts split: if_splits\<close>)
  then show "task_ok (if res = None then Running t' else Ending t')"
    and "av' + task_players (if res = None then Running t' else Ending t') = av + tn_players t"
    and "tn_token_id t' = tn_token_id t" and "tn_session_id t' = tn_session_id t" by blast+
qed

lemma server_envD:
  assumes "server_env sj tf sha256 p"
  shows "serde_json_spec sj" and "tempfile_spec tf" and "\<not> temp_name p" and "sha_ok sha256"
  using assms by (simp_all add: server_env_def)

lemma decides_inv:
  assumes env: "server_env sj tf sha256 p" and inv: "relay_inv sj p r"
    and task: "hm_get (rl_tasks r) c = Some (Registering permit ip)" and ok: "request_ok msg"
    and run: "handle_request sj tf sha256 error_text bind c ip now msg (rl_state r) (rl_world r)
      = (decision, st', w')"
  shows "relay_inv sj p
    (set_task c (after_decision permit ip decision) (r\<lparr>rl_state := st', rl_world := w'\<rparr>))"
proof (rule set_task_inv [OF inv task])
  note h = handle_request_inv [OF server_envD [OF env] relay_invD(1) [OF inv] ok run]
  note split = held_split [OF inv task]
  show "task_ok (after_decision permit ip decision)"
    by (auto simp: after_decision_def task_ok_def split: decision.splits)
  have permits: "task_permits (after_decision permit ip decision) = {#permit#}"
    "task_players (after_decision permit ip decision) = 0"
    by (auto simp: after_decision_def task_parts split: decision.splits)
  show "admission_inv PENDING_PER_IP_LIMIT (rl_by_ip (r\<lparr>rl_state := st', rl_world := w'\<rparr>),
        task_permits (after_decision permit ip decision) + tasks_sum task_permits (hm_remove c (rl_tasks r)))"
    using relay_invD(6) [OF inv] split(1) permits by (simp add: task_permits_def)
  show "guards_ok (st_leases (rl_state (r\<lparr>rl_state := st', rl_world := w'\<rparr>)))
        (task_sessions (after_decision permit ip decision)
          + (mset (rl_cleanups (r\<lparr>rl_state := st', rl_world := w'\<rparr>))
             + tasks_sum task_sessions (hm_remove c (rl_tasks r))))"
    using h(2) guards_kept [OF relay_invD(8) [OF inv]] guards_started [OF relay_invD(8) [OF inv]] split(2)
    by (cases decision) (auto simp: after_decision_def task_sessions_def)
  show "server_inv sj p (rl_state (r\<lparr>rl_state := st', rl_world := w'\<rparr>),
      rl_world (r\<lparr>rl_state := st', rl_world := w'\<rparr>))"
    using h(1) by simp
qed (auto simp: task_parts after_decision_def split: decision.splits)

lemma ends_session_inv:
  assumes env: "server_env sj tf sha256 p" and inv: "server_inv sj p (st, w)"
    and guards: "guards_ok (st_leases st) (add_mset (k, s) g)"
    and run: "end_registration sj tf k s now st w = (res, st', w')"
  shows "server_inv sj p (st', w')" and "guards_ok (st_leases st') g"
  using end_registration_inv [OF server_envD(1-3) [OF env] inv run]
    guards_ended [OF guards end_registration_sessions [OF inv run]] by blast+

lemma relay_step_inv:
  assumes env: "server_env sj tf sha256 p" and step: "relay_step sj tf sha256 r r'"
    and inv: "relay_inv sj p r"
  shows "relay_inv sj p r'"
  using step
proof (cases rule: relay_step.cases)
  case (relay_accepts ip c)
  then show ?thesis using accept_incoming_inv [OF inv] by blast
next
  case (relay_decides c permit ip msg error_text bind now decision st' w')
  then show ?thesis using decides_inv [OF env inv] by simp
next
  case (relay_gives_up c task permit ip r1)
  then have parts: "task_permits task = {#permit#}" "task_players task = 0" "task_sessions task = {#}"
    by (auto simp: task_parts)
  obtain by_ip where r1: "r1 = r\<lparr>rl_pending := rl_pending r + 1, rl_by_ip := by_ip\<rparr>"
    "admission_inv PENDING_PER_IP_LIMIT (by_ip, tasks_sum task_permits (hm_remove c (rl_tasks r)))"
    using drop_permits_effect [OF inv relay_gives_up(2) parts(1) relay_gives_up(4)] by blast
  show ?thesis unfolding relay_gives_up(1)
    by (rule end_task_inv [OF inv relay_gives_up(2)])
      (use r1 parts relay_invD(1,8) [OF inv] held_split(2) [OF inv relay_gives_up(2)] in simp_all)
next
  case (relay_announced c permit reg local_port ip r1)
  obtain by_ip where r1: "r1 = r\<lparr>rl_pending := rl_pending r + 1, rl_by_ip := by_ip\<rparr>"
    "admission_inv PENDING_PER_IP_LIMIT (by_ip, tasks_sum task_permits (hm_remove c (rl_tasks r)))"
    using drop_permits_effect [OF inv relay_announced(2) _ relay_announced(3)]
    by (auto simp: task_permits_def)
  show ?thesis unfolding relay_announced(1)
    by (rule set_task_inv [OF inv relay_announced(2)])
      (use r1 relay_invD(1,8) [OF inv] held_split(2) [OF inv relay_announced(2)] in
        \<open>simp_all add: task_parts new_tunnel_def\<close>)
next
  case (relay_not_announced c permit reg local_port ip r1)
  obtain by_ip where r1: "r1 = r\<lparr>rl_pending := rl_pending r + 1, rl_by_ip := by_ip\<rparr>"
    "admission_inv PENDING_PER_IP_LIMIT (by_ip, tasks_sum task_permits (hm_remove c (rl_tasks r)))"
    using drop_permits_effect [OF inv relay_not_announced(2) _ relay_not_announced(3)]
    by (auto simp: task_permits_def)
  show ?thesis unfolding relay_not_announced(1)
    by (rule end_task_inv [OF inv relay_not_announced(2)])
      (use r1 relay_invD(1,8) [OF inv] held_split(2) [OF inv relay_not_announced(2)] in
        \<open>simp_all add: task_parts drop_pending_def PendingRegistration_new_def\<close>)
next
  case (relay_tunnels c tunnel bc n event result tunnel' available n')
  have "player_slots tunnel + tn_players tunnel = MAX_CONCURRENT_PLAYERS"
    using relay_invD(4) [OF inv relay_tunnels(2)] by (simp add: task_ok_def)
  note ev = run_tunnel_event [OF relay_tunnels(3) this]
  have same: "task_permits (if result = None then Running tunnel' else Ending tunnel') = {#}"
    "task_sessions (if result = None then Running tunnel' else Ending tunnel')
      = {#(tn_token_id tunnel, tn_session_id tunnel)#}"
    using ev(3,4) by (simp_all add: task_parts)
  show ?thesis unfolding relay_tunnels(1)
    by (rule set_task_inv [OF inv relay_tunnels(2) ev(1)])
      (use ev(2) same relay_invD(1,6,8) [OF inv] held_split [OF inv relay_tunnels(2)] in
        \<open>simp_all add: task_parts\<close>)
next
  case (relay_cleans_up c tunnel now result st' w')
  obtain res where e: "end_registration sj tf (tn_token_id tunnel) (tn_session_id tunnel) now
      (rl_state r) (rl_world r) = (res, st', w')"
    using relay_cleans_up(3) by (auto simp: cleanup_def split: sum.splits prod.splits)
  note split = held_split [OF inv relay_cleans_up(2)]
  have "guards_ok (st_leases (rl_state r)) (add_mset (tn_token_id tunnel, tn_session_id tunnel)
      (mset (rl_cleanups r) + tasks_sum task_sessions (hm_remove c (rl_tasks r))))"
    using relay_invD(8) [OF inv] split(2) by (simp add: task_sessions_def)
  note ended = ends_session_inv [OF env relay_invD(1) [OF inv] this e]
  have "task_players (Ending tunnel) = 0" "task_permits (Ending tunnel) = {#}"
    by (simp_all add: task_parts)
  then show ?thesis unfolding relay_cleans_up(1)
    by (intro end_task_inv [OF inv relay_cleans_up(2)])
      (use ended relay_invD(6) [OF inv] split(1) in simp_all)
next
  case (relay_runs_cleanup ks now st' w')
  obtain res where e: "end_registration sj tf (fst ks) (snd ks) now (rl_state r) (rl_world r)
      = (res, st', w')"
    using relay_runs_cleanup(3) by (cases "end_registration sj tf (fst ks) (snd ks) now (rl_state r)
      (rl_world r)") (simp add: run_cleanup_def)
  have "guarded r = add_mset (fst ks, snd ks)
      (mset (remove1 ks (rl_cleanups r)) + tasks_sum task_sessions (rl_tasks r))"
    using relay_runs_cleanup(2) by (simp add: guarded_def mset_remove1)
  then have "guards_ok (st_leases (rl_state r)) (add_mset (fst ks, snd ks)
      (mset (remove1 ks (rl_cleanups r)) + tasks_sum task_sessions (rl_tasks r)))"
    using relay_invD(8) [OF inv] by simp
  note ended = ends_session_inv [OF env relay_invD(1) [OF inv] this e]
  with ended show ?thesis
    using relay_runs_cleanup(1) inv by (simp add: relay_inv_def held_def served_def guarded_def)
next
  case (relay_refreshes now result st' w')
  note ref = refresh_inv [OF server_envD(1-3) [OF env] relay_invD(1) [OF inv] relay_refreshes(2)]
    refresh_sessions_kept [OF relay_invD(1) [OF inv] relay_refreshes(2)]
  then show ?thesis
    using relay_refreshes(1) inv guards_kept [OF relay_invD(8) [OF inv]]
    by (simp add: relay_inv_def held_def served_def guarded_def)
next
  case (relay_faults fs)
  have "server_step sj tf sha256 (rl_state r, rl_world r) (rl_state r, (rl_world r)\<lparr>faults := fs\<rparr>)"
    by (rule server_step.server_faults)
  from server_step_inv [OF server_envD [OF env] this relay_invD(1) [OF inv]] show ?thesis
    using relay_faults inv by (simp add: relay_inv_def held_def served_def guarded_def)
qed

lemma bind_relay_Inr:
  assumes "bind_relay sj tf sha256 endpoint p now w = Inr r"
  obtains st w' where "load_or_new sj tf sha256 p now w = (Inr st, w')" "r = RelayServer_new st w'"
proof (cases "load_or_new sj tf sha256 p now w :: (store_error, nat ServerState) result \<times> World")
  case (Pair x w')
  then show ?thesis using that [of _ w'] assms by (cases x; cases endpoint) (simp_all add: bind_relay_def)
qed

lemma relay_start_inv:
  assumes env: "server_env sj tf sha256 p" and start: "relay_start sj tf sha256 p r"
  shows "relay_inv sj p r"
proof -
  obtain now w st w' where l: "load_or_new sj tf sha256 p now w = (Inr st, w')"
    and r: "r = RelayServer_new st w'"
    using start unfolding relay_start_def by (blast elim: bind_relay_Inr)
  have "server_start sj tf sha256 p (st, w')" using l by (auto simp: server_start_def)
  note inv = server_start_inv [OF server_envD [OF env] this]
  have "active_connections st = []" using l by (auto simp: load_or_new_def io_iffs)
  then have "active_session (st_leases st) k = None" for k
    using server_invD(2) [OF inv] by (simp add: conns_ok_def hm_get_def)
  then have "guards_ok (st_leases st) {#}" by (simp add: guards_ok_def)
  then show ?thesis
    using inv by (simp add: r RelayServer_new_def relay_inv_def tasks_ok_def hm_wf_Nil held_def served_def
        guarded_def admission_inv_def PendingByIp_new_def held_from_def hm_get_def const_defs)
qed

abbreviation relay_reachable where
  "relay_reachable sj tf sha256 p \<equiv> reachable_by (relay_start sj tf sha256 p) (relay_step sj tf sha256)"

lemma relay_invariant_system:
  assumes "server_env sj tf sha256 p"
  shows "invariant_system (relay_start sj tf sha256 p) (relay_step sj tf sha256) (relay_inv sj p)"
  by unfold_locales (use assms relay_start_inv relay_step_inv in blast)+

lemmas relay_reachable_inv = invariant_system.invar_reachable [OF relay_invariant_system]

text \<open>The states of the program's runs are reachable ones, with the state file it is started with.\<close>

lemma relay_main_reachable:
  assumes "relay_main rl sj tf sha256 var_os var server_endpoint now w r"
  shows "relay_reachable sj tf sha256 [''.'', ''gamenet-state.json''] r"
proof -
  obtain server where bound: "RelayServer_bind rl sj tf sha256 var_os var server_endpoint now w = Inr server"
    and run: "(relay_step sj tf sha256)\<^sup>*\<^sup>* server r"
    using assms by (auto simp: relay_main_def split: sum.splits)
  have "relay_start sj tf sha256 [''.'', ''gamenet-state.json''] server"
    using bound by (auto simp: relay_start_def RelayServer_bind_def split: sum.splits prod.splits)
  from run show ?thesis
    by induction (blast intro: reachable_by.intros \<open>relay_start sj tf sha256 _ server\<close>)+
qed

end
