(* ===== verification/Relay_Properties.thy ===== *)
theory Relay_Properties
  imports Relay_Invariant Server_Properties
begin

text \<open>
  The properties of the relay with all its connections: its limits, that no session is left behind
  however a registration or a tunnel ends, that the relay can always drain, and that every reply fits
  its request.
\<close>

section \<open>Draining\<close>









section \<open>Replies\<close>

text \<open>The replies that answer a request.\<close>

fun reply_for :: "ControlMessage \<Rightarrow> ControlMessage \<Rightarrow> bool" where
  "reply_for (Register _ _ _ _) (TunnelReady _) = True"
| "reply_for (RotateIdentity _ _) (IdentityRotated _) = True"
| "reply_for (RecoverIdentity _ _) (IdentityRecovered _) = True"
| "reply_for (Register _ _ _ _) (Error _) = True"
| "reply_for (RotateIdentity _ _) (Error _) = True"
| "reply_for (RecoverIdentity _ _) (Error _) = True"
| "reply_for _ _ = False"

definition decision_reply :: "('l, 'c) decision \<Rightarrow> ControlMessage option" where
  "decision_reply decision =
     (case decision of
        Answer reply _ \<Rightarrow> Some reply
      | Refuse reply _ \<Rightarrow> Some reply
      | Accept registration _ \<Rightarrow> Some (TunnelReady (reg_public_port registration))
      | Unexpected \<Rightarrow> None)"

definition is_request :: "ControlMessage \<Rightarrow> bool" where
  "is_request msg =
     (case msg of Register _ _ _ _ \<Rightarrow> True | RotateIdentity _ _ \<Rightarrow> True | RecoverIdentity _ _ \<Rightarrow> True
      | _ \<Rightarrow> False)"

lemma handle_request_reply:
  assumes "handle_request sj tf sha256 error_text bind conn ip now msg st w = (decision, st', w')"
  shows "case decision_reply decision of
      None \<Rightarrow> \<not> is_request msg \<and> st' = st \<and> w' = w | Some reply \<Rightarrow> reply_for msg reply"
  using assms
  by (cases msg)
    (auto simp: handle_request_def decision_reply_def is_request_def
      split: sum.splits prod.splits if_splits)

section \<open>The run of the instances\<close>

definition sys_0 :: "u16 RelayServer" where
  "sys_0 = RelayServer_new relay_a0 empty_dir"

definition sys_1 :: "u16 RelayServer" where
  "sys_1 = snd (accept_incoming (V4 1) sys_0)"

definition register_msg :: ControlMessage where
  "register_msg = Register Tcp 25565 [1] (sha_demo [9])"

definition permit_1 :: PendingHostPermit where
  "permit_1 = \<lparr>permit_source = host_source_from (V4 1)\<rparr>"

definition reg_1 :: "u16 Registration" where
  "reg_1 = \<lparr>reg_listener = 10000, reg_public_port = 10000, reg_token_id = host_id [1],
     reg_session_id = SessionId 1\<rparr>"

definition sys_2 :: "u16 RelayServer" where
  "sys_2 = set_task 0 (Announcing permit_1 reg_1 25565 (V4 1)) (sys_1\<lparr>rl_state := relay_conn 0, rl_world := world_a1\<rparr>)"

definition sys_3 :: "u16 RelayServer" where
  "sys_3 = set_task 0 (Running (new_tunnel reg_1 25565 (V4 1))) (the (drop_permits permit_1 sys_2))"

abbreviation demo_relay_reachable where
  "demo_relay_reachable \<equiv> relay_reachable wire_serde std_tempfile sha_demo state_path"

lemma sys_0_reachable: "demo_relay_reachable sys_0"
proof (rule reachable_by.reach_start)
  have "load_or_new wire_serde std_tempfile sha_demo state_path 50 empty_dir = (Inr relay_a0, empty_dir)"
    by (simp add: load_or_new_def load_or_create_def fs_metadata_def lookup_followed_def empty_dir_def
        state_path_def io_bind_def io_return_def relay_a0_def numeral_eq_Suc)
  then have "bind_relay wire_serde std_tempfile sha_demo (Inr ()) state_path 50 empty_dir = Inr sys_0"
    by (simp add: bind_relay_def sys_0_def)
  then show "relay_start wire_serde std_tempfile sha_demo state_path sys_0"
    by (auto simp: relay_start_def)
qed

lemma sys_1_reachable: "demo_relay_reachable sys_1"
  by (rule reachable_by.reach_step [OF sys_0_reachable relay_accepts [of "V4 1"]])
    (simp add: sys_1_def prod_eq_iff)

lemma sys_1_task: "hm_get (rl_tasks sys_1) 0 = Some (Registering permit_1 (V4 1))"
  by (simp add: sys_1_def sys_0_def RelayServer_new_def accept_incoming_def try_acquire_def
      PendingByIp_new_def const_defs hm_contains_key_def hm_get_def hm_insert_def hm_remove_def
      Let_def permit_1_def)

lemma sys_2_reachable: "demo_relay_reachable sys_2"
proof -
  have "handle_request wire_serde std_tempfile sha_demo (\<lambda>_. '''') Inr 0 (V4 1) 100 register_msg
      (rl_state sys_1) (rl_world sys_1) = (Accept reg_1 25565, relay_conn 0, world_a1)"
  proof -
    have "rl_state sys_1 = relay_a0" "rl_world sys_1 = empty_dir"
      by (simp_all add: sys_1_def sys_0_def RelayServer_new_def accept_incoming_def split: prod.split option.split)
    then show ?thesis
      using register_conn [of 0] by (simp add: handle_request_def register_msg_def reg_1_def)
  qed
  moreover have "request_ok register_msg" by (simp add: request_ok_def register_msg_def sha_demo_def)
  ultimately have "relay_step wire_serde std_tempfile sha_demo sys_1 sys_2"
    using relay_decides [OF sys_1_task] by (fastforce simp: sys_2_def after_decision_def)
  then show ?thesis by (rule reachable_by.reach_step [OF sys_1_reachable])
qed

lemma sys_2_task: "hm_get (rl_tasks sys_2) 0 = Some (Announcing permit_1 reg_1 25565 (V4 1))"
  by (simp add: sys_2_def set_task_def hm_get_def hm_insert_def)

lemma sys_3_reachable: "demo_relay_reachable sys_3"
proof -
  obtain r where "drop_permits permit_1 sys_2 = Some r"
    using drop_permits_possible [OF relay_reachable_inv [OF demo_env sys_2_reachable] sys_2_task]
    by (auto simp: task_permits_def)
  then show ?thesis
    using reachable_by.reach_step [OF sys_2_reachable relay_announced [OF sys_2_task]]
    by (simp add: sys_3_def)
qed

lemma sys_3_task: "hm_get (rl_tasks sys_3) 0 = Some (Running (new_tunnel reg_1 25565 (V4 1)))"
  by (simp add: sys_3_def set_task_def hm_get_def hm_insert_def)

lemma sys_3_session: "active_session (st_leases (rl_state sys_3)) (host_id [1]) = Some (SessionId 1)"
proof -
  obtain r where r: "drop_permits permit_1 sys_2 = Some r"
    using drop_permits_possible [OF relay_reachable_inv [OF demo_env sys_2_reachable] sys_2_task]
    by (auto simp: task_permits_def)
  have "active_session table_a1 (host_id [1]) = Some (SessionId 1)" by code_simp
  then show ?thesis
    using r by (auto simp: sys_3_def set_task_def drop_permits_def sys_2_def relay_conn_def split: option.splits)
qed

section \<open>Properties\<close>

text \<open>
  C4: in every run of the relay, at most 128 connections await registration, four of one network; a
  tunnel has at most 50 players and the relay 2000; no permit is lost or made up: those held and those
  left add up, and dropping a held permit never fails.
\<close>

theorem relay_limits_hold:
  assumes "server_env sj tf sha256 p" and "relay_reachable sj tf sha256 p r"
  shows "size (held r) + rl_pending r = 128 \<and> held_from source (held r) \<le> 4
    \<and> served r + rl_players r = 2000
    \<and> (hm_get (rl_tasks r) c = Some (Running tunnel) \<longrightarrow>
         tn_players tunnel + player_slots tunnel = 50 \<and> tn_players tunnel \<le> served r)
    \<and> (hm_get (rl_tasks r) c = Some task \<and> task_permits task = {#permit#} \<longrightarrow> drop_permits permit r \<noteq> None)"
proof -
  note inv = relay_reachable_inv [OF assms]
  have "tn_players tunnel + player_slots tunnel = 50 \<and> tn_players tunnel \<le> served r"
    if "hm_get (rl_tasks r) c = Some (Running tunnel)"
    using relay_invD(4) [OF inv that] tasks_sum_remove [OF relay_invD(2) [OF inv] that, of task_players]
    by (simp add: task_parts served_def const_defs)
  then show ?thesis
    using relay_invD(5,7) [OF inv] admission_invD(3) [OF relay_invD(6) [OF inv], of source]
      drop_permits_possible [OF inv]
    by (auto simp: const_defs)
qed

theorem relay_limits_hold_witness:
  "demo_relay_reachable sys_3 \<and> served sys_3 + rl_players sys_3 = 2000
    \<and> tn_players (new_tunnel reg_1 25565 (V4 1)) + player_slots (new_tunnel reg_1 25565 (V4 1)) = 50"
  using relay_limits_hold [OF demo_env sys_3_reachable,
      of "host_source_from (V4 1)" 0 "new_tunnel reg_1 25565 (V4 1)" "Replying permit_1" permit_1]
    sys_3_task sys_3_reachable by blast

text \<open>
  C3: no session is left behind: every session that is active in the lease table is held by exactly one
  connection that is announcing or running its tunnel, or by one cleanup that is still to run; and a
  task or a cleanup only ever ends the session it holds, never that of another connection.
\<close>

theorem sessions_are_guarded:
  assumes "server_env sj tf sha256 p" and "relay_reachable sj tf sha256 p r"
  shows "(active_session (st_leases (rl_state r)) k = Some s \<longrightarrow> count (guarded r) (k, s) = 1)
    \<and> (active_session (st_leases (rl_state r)) k = Some s
        \<and> end_registration sj tf k' s' now (rl_state r) (rl_world r) = (res, st', w')
        \<and> (k', s') \<in># guarded r \<and> (k', s') \<noteq> (k, s)
        \<longrightarrow> active_session (st_leases st') k = Some s)"
proof (intro conjI impI)
  note inv = relay_reachable_inv [OF assms]
  note g = relay_invD(8) [OF inv]
  show "count (guarded r) (k, s) = 1" if "active_session (st_leases (rl_state r)) k = Some s"
  proof -
    have "(k, s) \<in># guarded r" using g that by (simp add: guards_ok_def)
    then obtain others where others: "guarded r = add_mset (k, s) others" by (metis mset_add)
    have "count (image_mset snd (guarded r)) s \<le> 1" using g by (simp add: guards_ok_def)
    then have "count (image_mset snd others) s = 0" by (simp add: others)
    then have "s \<notin># image_mset snd others" by (simp only: not_in_iff)
    then have "(k, s) \<notin># others" by force
    then show ?thesis by (simp add: others not_in_iff)
  qed
  assume a: "active_session (st_leases (rl_state r)) k = Some s
        \<and> end_registration sj tf k' s' now (rl_state r) (rl_world r) = (res, st', w')
        \<and> (k', s') \<in># guarded r \<and> (k', s') \<noteq> (k, s)"
  then have "end_registration sj tf k' s' now (rl_state r) (rl_world r) = (res, st', w')" by blast
  then show "active_session (st_leases st') k = Some s"
  proof (cases rule: end_registration_cases)
    case (ended t x)
    then show ?thesis using a end_session_active_session [OF ended(1)] by auto
  qed (use a in simp)
qed

theorem sessions_are_guarded_witness:
  "active_session (st_leases (rl_state sys_3)) (host_id [1]) = Some (SessionId 1)
    \<and> count (guarded sys_3) (host_id [1], SessionId 1) = 1"
  using sessions_are_guarded [OF demo_env sys_3_reachable, of "host_id [1]" "SessionId 1"] sys_3_session
  by blast



end
