(* ===== verification/Dialogue.thy ===== *)
theory Dialogue
  imports Client_Properties Relay_Properties Identity_Properties
begin

text \<open>
  The client and the relay together: the client's connection is one to the model of the relay itself,
  over a network that may lose a request, or cut a reply after any of its bytes. Both ends run as they
  are modelled in \<open>Client\<close> and \<open>Relay_Tunnel\<close>, with the messages as bytes between them.
\<close>

section \<open>The relay behind a connection\<close>

text \<open>What happens to one exchange: all arrives, the reply is cut, or the request never arrives.\<close>

datatype fate = Delivered | ReplyCut nat | RequestLost

text \<open>The relay's parameters: its crates, its hash, its error texts, its listener and the host's address.\<close>

record ('json, 'l, 'c) relay_site =
  rs_serde :: "'json serde_json"
  rs_tempfile :: tempfile
  rs_sha256 :: "u8 list \<Rightarrow> u8 list"
  rs_error_text :: "server_error \<Rightarrow> string"
  rs_bind :: "u16 \<Rightarrow> (io_error, 'l) result"
  rs_conn :: 'c
  rs_peer_ip :: IpAddr

text \<open>
  The state behind the client's connection: the relay, the bytes written to it on the current stream,
  what is still to be read there (\<open>None\<close> before the relay answers), and the fates and the relay's
  clock of the exchanges to come.
\<close>

record 'c link =
  lk_state :: "'c ServerState"
  lk_world :: World
  lk_up :: "u8 list"
  lk_down :: "reader option"
  lk_fates :: "fate list"
  lk_clock :: "u64 list"

text \<open>The relay's end of the stream.\<close>

record pipe =
  pp_in :: reader
  pp_out :: writer

definition pipe_write :: "pipe async_write" where
  "pipe_write = \<lparr>aw_write_all = (\<lambda>bs n.
     case aw_write_all buffer_write bs (pp_out n) of (r, out) \<Rightarrow> (r, n\<lparr>pp_out := out\<rparr>))\<rparr>"

definition pipe_read :: "pipe async_read" where
  "pipe_read =
     \<lparr>ar_read_byte = (\<lambda>n. case ar_read_byte buffer_read (pp_in n) of (x, rd) \<Rightarrow> (x, n\<lparr>pp_in := rd\<rparr>)),
      ar_read_exact = (\<lambda>k n. case ar_read_exact buffer_read k (pp_in n) of (x, rd) \<Rightarrow> (x, n\<lparr>pp_in := rd\<rparr>))\<rparr>"

definition relay_link :: "pipe agent_link" where
  "relay_link =
     \<lparr>al_accept_bi = (\<lambda>n. (Ok (), n)), al_write = pipe_write, al_read = pipe_read,
      al_finish = (\<lambda>n. (Ok (), n)), al_stopped = (\<lambda>_ n. (Ok (), n))\<rparr>"

definition next_fate :: "'c link \<Rightarrow> fate" where
  "next_fate l = (case lk_fates l of [] \<Rightarrow> Delivered | f # _ \<Rightarrow> f)"

definition next_now :: "'c link \<Rightarrow> u64" where
  "next_now l = (case lk_clock l of [] \<Rightarrow> 0 | now # _ \<Rightarrow> now)"

definition cut_reply :: "fate \<Rightarrow> u8 list \<Rightarrow> reader" where
  "cut_reply f bytes =
     (case f of
        Delivered \<Rightarrow> \<lparr>r_bytes = bytes, r_end = None\<rparr>
      | ReplyCut k \<Rightarrow> \<lparr>r_bytes = take k bytes, r_end = Some OtherIo\<rparr>
      | RequestLost \<Rightarrow> \<lparr>r_bytes = [], r_end = Some OtherIo\<rparr>)"

text \<open>The relay's turn: it reads the request from what was written and answers, once for a stream.\<close>

definition relay_turn :: "('json, 'l, 'c) relay_site \<Rightarrow> 'c link \<Rightarrow> 'c link" where
  "relay_turn rs l =
     (if lk_down l \<noteq> None then l
      else
        let f = next_fate l; l' = l\<lparr>lk_fates := tl (lk_fates l), lk_clock := tl (lk_clock l)\<rparr>
        in if f = RequestLost then l'\<lparr>lk_down := Some (cut_reply f [])\<rparr>
           else
             (case from_quic (rs_serde rs) (rs_tempfile rs) (rs_sha256 rs) (rs_error_text rs) (rs_bind rs)
                     relay_link wire_bincode (rs_conn rs) (rs_peer_ip rs) (next_now l)
                     (lk_state l) (lk_world l)
                     \<lparr>pp_in = \<lparr>r_bytes = lk_up l, r_end = None\<rparr>,
                      pp_out = \<lparr>w_sent = [], w_room = None\<rparr>\<rparr> of
                (_, _, _, st, w, n) \<Rightarrow>
                  l'\<lparr>lk_state := st, lk_world := w, lk_down := Some (cut_reply f (w_sent (pp_out n)))\<rparr>))"

definition on_reply ::
  "('json, 'l, 'c) relay_site \<Rightarrow> (reader \<Rightarrow> 'x \<times> reader) \<Rightarrow> 'c link \<Rightarrow> 'x \<times> 'c link" where
  "on_reply rs act l =
     (let l' = relay_turn rs l
      in case act (the (lk_down l')) of (x, rd) \<Rightarrow> (x, l'\<lparr>lk_down := Some rd\<rparr>))"

definition link_write :: "'c link async_write" where
  "link_write = \<lparr>aw_write_all = (\<lambda>bs l. (Ok (), l\<lparr>lk_up := lk_up l @ bs\<rparr>))\<rparr>"

definition link_read :: "('json, 'l, 'c) relay_site \<Rightarrow> 'c link async_read" where
  "link_read rs =
     \<lparr>ar_read_byte = on_reply rs (ar_read_byte buffer_read),
      ar_read_exact = (\<lambda>k. on_reply rs (ar_read_exact buffer_read k))\<rparr>"

definition relay_quic :: "('json, 'l, 'c) relay_site \<Rightarrow> 'c link quic" where
  "relay_quic rs =
     \<lparr>q_open_bi = (\<lambda>l. (Ok (), l\<lparr>lk_up := [], lk_down := None\<rparr>)),
      q_write = link_write, q_read = link_read rs\<rparr>"

section \<open>The streams keep their contracts\<close>

interpretation pipe_write: async_write_spec pipe_write "\<lambda>n. w_sent (pp_out n)"
proof
  fix bs n u n'
  assume "aw_write_all pipe_write bs n = (Inr u, n')"
  then obtain out where "aw_write_all buffer_write bs (pp_out n) = (Inr u, out)" "pp_out n' = out"
    by (auto simp: pipe_write_def split: prod.splits)
  then show "w_sent (pp_out n') = w_sent (pp_out n) @ bs" using buffer_write.write_ok by simp
next
  fix bs n e n'
  assume "aw_write_all pipe_write bs n = (Inl e, n')"
  then obtain out where "aw_write_all buffer_write bs (pp_out n) = (Inl e, out)" "pp_out n' = out"
    by (auto simp: pipe_write_def split: prod.splits)
  then show "\<exists>k < length bs. w_sent (pp_out n') = w_sent (pp_out n) @ take k bs"
    using buffer_write.write_err by simp
qed

interpretation pipe_read: async_read_spec pipe_read "\<lambda>n. r_bytes (pp_in n)" "\<lambda>n. r_end (pp_in n)"
proof
  fix n x n'
  assume "ar_read_byte pipe_read n = (x, n')"
  then obtain rd where "ar_read_byte buffer_read (pp_in n) = (x, rd)" "pp_in n' = rd"
    by (auto simp: pipe_read_def split: prod.splits)
  then show "r_end (pp_in n') = r_end (pp_in n) \<and>
      (case r_bytes (pp_in n) of
         b # bs \<Rightarrow> x = Inr (Some b) \<and> r_bytes (pp_in n') = bs
       | [] \<Rightarrow> x = (case r_end (pp_in n) of None \<Rightarrow> Inr None | Some e \<Rightarrow> Inl e) \<and> r_bytes (pp_in n') = [])"
    using buffer_read.read_byte by simp
next
  fix k n x n'
  assume "ar_read_exact pipe_read k n = (x, n')"
  then obtain rd where "ar_read_exact buffer_read k (pp_in n) = (x, rd)" "pp_in n' = rd"
    by (auto simp: pipe_read_def split: prod.splits)
  then show "r_end (pp_in n') = r_end (pp_in n) \<and>
      (if k \<le> length (r_bytes (pp_in n))
       then x = Inr (take k (r_bytes (pp_in n))) \<and> r_bytes (pp_in n') = drop k (r_bytes (pp_in n))
       else x = Inl (case r_end (pp_in n) of None \<Rightarrow> UnexpectedEof | Some e \<Rightarrow> e) \<and> r_bytes (pp_in n') = [])"
    using buffer_read.read_exact by simp
qed

lemma relay_turn_done: "lk_down (relay_turn rs l) \<noteq> None"
  by (auto simp: relay_turn_def Let_def split: prod.split)

lemma relay_turn_again: "lk_down l \<noteq> None \<Longrightarrow> relay_turn rs l = l"
  by (simp add: relay_turn_def)

definition reply_left :: "('json, 'l, 'c) relay_site \<Rightarrow> 'c link \<Rightarrow> reader" where
  "reply_left rs l = the (lk_down (relay_turn rs l))"

lemma on_reply_run:
  "on_reply rs act l = (x, l') \<longleftrightarrow>
     (\<exists>rd. act (reply_left rs l) = (x, rd) \<and> l' = (relay_turn rs l)\<lparr>lk_down := Some rd\<rparr>)"
  by (auto simp: on_reply_def reply_left_def Let_def split: prod.split)

lemma reply_left_after: "reply_left rs ((relay_turn rs l)\<lparr>lk_down := Some rd\<rparr>) = rd"
  by (simp add: reply_left_def relay_turn_again)

interpretation link_write: async_write_spec link_write lk_up
  by unfold_locales (simp_all add: link_write_def)

interpretation link_read: async_read_spec "link_read rs" "\<lambda>l. r_bytes (reply_left rs l)"
    "\<lambda>l. r_end (reply_left rs l)" for rs :: "('json, 'l, 'c) relay_site"
proof
  fix l x l'
  assume "ar_read_byte (link_read rs) l = (x, l')"
  then obtain rd where "ar_read_byte buffer_read (reply_left rs l) = (x, rd)" "reply_left rs l' = rd"
    by (auto simp: link_read_def on_reply_run reply_left_after)
  then show "r_end (reply_left rs l') = r_end (reply_left rs l) \<and>
      (case r_bytes (reply_left rs l) of
         b # bs \<Rightarrow> x = Inr (Some b) \<and> r_bytes (reply_left rs l') = bs
       | [] \<Rightarrow> x = (case r_end (reply_left rs l) of None \<Rightarrow> Inr None | Some e \<Rightarrow> Inl e)
           \<and> r_bytes (reply_left rs l') = [])"
    using buffer_read.read_byte by simp
next
  fix k l x l'
  assume "ar_read_exact (link_read rs) k l = (x, l')"
  then obtain rd where "ar_read_exact buffer_read k (reply_left rs l) = (x, rd)" "reply_left rs l' = rd"
    by (auto simp: link_read_def on_reply_run reply_left_after)
  then show "r_end (reply_left rs l') = r_end (reply_left rs l) \<and>
      (if k \<le> length (r_bytes (reply_left rs l))
       then x = Inr (take k (r_bytes (reply_left rs l)))
         \<and> r_bytes (reply_left rs l') = drop k (r_bytes (reply_left rs l))
       else x = Inl (case r_end (reply_left rs l) of None \<Rightarrow> UnexpectedEof | Some e \<Rightarrow> e)
         \<and> r_bytes (reply_left rs l') = [])"
    using buffer_read.read_exact by simp
qed

lemmas relay_end = control_channel.intro [OF wire_bincode.bincode_spec_axioms
  pipe_write.async_write_spec_axioms pipe_read.async_read_spec_axioms]

lemma client_end:
  "control_channel wire_bincode link_write lk_up (link_read rs) (\<lambda>l. r_bytes (reply_left rs l))
     (\<lambda>l. r_end (reply_left rs l))"
  by (rule control_channel.intro [OF wire_bincode.bincode_spec_axioms link_write.async_write_spec_axioms
    link_read.async_read_spec_axioms])

section \<open>One exchange\<close>

lemma fits_payload: "fits_frame wire_bincode m \<Longrightarrow> length (put_message m) \<le> MAX_CONTROL_MSG_BYTES"
  by (simp add: fits_frame_def wire_bincode_def)

lemma frame_of: "message_frame wire_bincode m = frame (put_message m)"
  by (simp add: message_frame_def wire_bincode_def)

text \<open>The bytes the relay sends for a decision.\<close>

definition reply_bytes :: "('l, 'c) decision \<Rightarrow> u8 list" where
  "reply_bytes d = (case decision_reply d of None \<Rightarrow> [] | Some reply \<Rightarrow> message_frame wire_bincode reply)"

lemma pipe_send:
  assumes "w_room (pp_out n) = None"
  shows "send_msg pipe_write wire_bincode m n
    = (Ok (), n\<lparr>pp_out := (pp_out n)\<lparr>w_sent := w_sent (pp_out n) @ message_frame wire_bincode m\<rparr>\<rparr>)"
  using assms
  by (simp add: send_msg_def wire_bincode_def pipe_write_def buffer_write_def message_frame_def frame_def)

lemma relay_link_parts [simp]:
  "al_accept_bi relay_link n = (Ok (), n)" "al_write relay_link = pipe_write"
  "al_read relay_link = pipe_read" "al_finish relay_link n = (Ok (), n)"
  "al_stopped relay_link t n = (Ok (), n)"
  by (simp_all add: relay_link_def)

lemma send_decision_bytes:
  assumes "send_decision relay_link wire_bincode ip d n = (r, cleanups, n')" and "w_room (pp_out n) = None"
  shows "w_sent (pp_out n') = w_sent (pp_out n) @ reply_bytes d"
  using assms
  by (cases d) (auto simp: send_decision_def reply_bytes_def decision_reply_def finish_reply_def
      send_registration_error_def pipe_send Let_def split: option.splits)

lemma pipe_recv_out: "recv_msg pipe_read bc n = (x, n') \<Longrightarrow> pp_out n' = pp_out n"
  by (auto simp: recv_msg_def pipe_read_def Let_def split: prod.splits sum.splits option.splits if_splits)

lemma read_request_frame:
  assumes "r_bytes (pp_in n) = message_frame wire_bincode m" and "fits_frame wire_bincode m"
  obtains n' where "read_request relay_link wire_bincode n = (Inr m, n')" "pp_out n' = pp_out n"
proof -
  obtain x n' where run: "recv_msg pipe_read wire_bincode n = (x, n')" by fastforce
  have payload: "bc_deserialize wire_bincode (put_message m) = Inr m"
    by (rule wire_bincode.message_roundtrip) (simp add: wire_bincode_def)
  have "r_bytes (pp_in n) = frame (put_message m) @ []" using assms(1) by (simp add: frame_of)
  from control_channel.recv_frame(1) [OF relay_end this fits_payload [OF assms(2)] payload run]
  have "x = Inr (Some m)" .
  then show thesis using that [of n'] run pipe_recv_out [OF run] by (simp add: read_request_def)
qed

definition handles ::
  "('json, 'l, 'c) relay_site \<Rightarrow> u64 \<Rightarrow> ControlMessage \<Rightarrow> 'c ServerState \<Rightarrow> World
    \<Rightarrow> ('l, 'c) decision \<times> 'c ServerState \<times> World" where
  "handles rs now m st w =
     handle_request (rs_serde rs) (rs_tempfile rs) (rs_sha256 rs) (rs_error_text rs) (rs_bind rs)
       (rs_conn rs) (rs_peer_ip rs) now m st w"

text \<open>What the relay did and what is to be read, once a whole request was written.\<close>

lemma relay_turn_request:
  assumes "lk_down l = None" and "lk_up l = message_frame wire_bincode m" and "fits_frame wire_bincode m"
    and "handles rs (next_now l) m (lk_state l) (lk_world l) = (d, st, w)"
  shows "relay_turn rs l =
    (if next_fate l = RequestLost
     then l\<lparr>lk_fates := tl (lk_fates l), lk_clock := tl (lk_clock l), lk_down := Some (cut_reply RequestLost [])\<rparr>
     else l\<lparr>lk_fates := tl (lk_fates l), lk_clock := tl (lk_clock l), lk_state := st, lk_world := w,
       lk_down := Some (cut_reply (next_fate l) (reply_bytes d))\<rparr>)"
proof -
  let ?n = "\<lparr>pp_in = \<lparr>r_bytes = lk_up l, r_end = None\<rparr>, pp_out = \<lparr>w_sent = [], w_room = None\<rparr>\<rparr>"
  obtain n1 where rd: "read_request relay_link wire_bincode ?n = (Inr m, n1)" "pp_out n1 = pp_out ?n"
    by (rule read_request_frame [of ?n m]) (use assms(2,3) in simp_all)
  obtain r c n2 where sd: "send_decision relay_link wire_bincode (rs_peer_ip rs) d n1 = (r, c, n2)"
    by (metis surj_pair)
  have "w_sent (pp_out n2) = reply_bytes d" using send_decision_bytes [OF sd] rd(2) by simp
  moreover have "from_quic (rs_serde rs) (rs_tempfile rs) (rs_sha256 rs) (rs_error_text rs) (rs_bind rs)
      relay_link wire_bincode (rs_conn rs) (rs_peer_ip rs) (next_now l) (lk_state l) (lk_world l) ?n
      = (r, closes d, c, st, w, n2)"
    using rd(1) assms(4) sd by (simp add: from_quic_def handles_def)
  ultimately show ?thesis using assms(1) by (simp add: relay_turn_def Let_def)
qed

text \<open>Reading the reply leaves the relay and the exchanges to come alone.\<close>

definition same_relay :: "'c link \<Rightarrow> 'c link \<Rightarrow> bool" where
  "same_relay l l' \<longleftrightarrow> lk_state l' = lk_state l \<and> lk_world l' = lk_world l
     \<and> lk_fates l' = lk_fates l \<and> lk_clock l' = lk_clock l"

lemma on_reply_same: "on_reply rs act l = (x, l') \<Longrightarrow> lk_down l' \<noteq> None \<and> same_relay (relay_turn rs l) l'"
  by (auto simp: on_reply_run same_relay_def)

lemma on_reply_again:
  assumes "on_reply rs act l = (x, l')" and "lk_down l \<noteq> None" and "same_relay l0 l"
  shows "lk_down l' \<noteq> None \<and> same_relay l0 l'"
  using on_reply_same [OF assms(1)] assms(3) relay_turn_again [OF assms(2), of rs]
  by (simp add: same_relay_def)

lemma recv_same_relay:
  assumes "recv_msg (link_read rs) bc l = (x, l')"
  shows "same_relay (relay_turn rs l) l'"
proof -
  obtain y l1 where b: "on_reply rs (ar_read_byte buffer_read) l = (y, l1)" by fastforce
  obtain z l2 where h: "on_reply rs (ar_read_exact buffer_read 3) l1 = (z, l2)" by fastforce
  note s1 = on_reply_same [OF b]
  note s2 = on_reply_again [OF h conjunct1 [OF s1] conjunct2 [OF s1]]
  have s3: "on_reply rs (ar_read_exact buffer_read k) l2 = (v, l3) \<Longrightarrow> same_relay (relay_turn rs l) l3" for k v l3
    by (rule conjunct2 [OF on_reply_again [OF _ conjunct1 [OF s2] conjunct2 [OF s2]]])
  show ?thesis
    using assms s1 s2
    by (auto simp: recv_msg_def link_read_def b h Let_def split: sum.splits option.splits prod.splits if_splits
        dest: s3)
qed

lemma link_send:
  "send_msg link_write wire_bincode m l = (Ok (), l\<lparr>lk_up := lk_up l @ message_frame wire_bincode m\<rparr>)"
  by (simp add: send_msg_def wire_bincode_def link_write_def message_frame_def frame_def)

text \<open>What the client gets for a reply.\<close>

definition outcome :: "fate \<Rightarrow> ControlMessage option \<Rightarrow> (client_error, ControlMessage) result" where
  "outcome f reply =
     (case (f, reply) of
        (Delivered, Some m) \<Rightarrow> Ok m
      | (Delivered, None) \<Rightarrow> Err RelayClosed
      | (ReplyCut k, Some m) \<Rightarrow>
          if length (message_frame wire_bincode m) \<le> k then Ok m else Err (ClientMessage (MsgIo OtherIo))
      | _ \<Rightarrow> Err (ClientMessage (MsgIo OtherIo)))"

lemma recv_nothing:
  assumes "reply_left rs l = \<lparr>r_bytes = [], r_end = e\<rparr>" and "recv_msg (link_read rs) bc l = (x, l')"
  shows "x = (case e of None \<Rightarrow> Inr None | Some e \<Rightarrow> Inl (MsgIo e))"
  using link_read.recv_end(1) [OF _ assms(2)] assms(1) by simp

lemma recv_whole:
  assumes "r_bytes (reply_left rs l) = message_frame wire_bincode m" and "fits_frame wire_bincode m"
    and "recv_msg (link_read rs) wire_bincode l = (x, l')"
  shows "x = Inr (Some m)"
proof -
  have payload: "bc_deserialize wire_bincode (put_message m) = Inr m"
    by (rule wire_bincode.message_roundtrip) (simp add: wire_bincode_def)
  have "r_bytes (reply_left rs l) = frame (put_message m) @ []" using assms(1) by (simp add: frame_of)
  from control_channel.recv_frame(1) [OF client_end this fits_payload [OF assms(2)] payload assms(3)]
  show ?thesis .
qed

lemma recv_part:
  assumes "reply_left rs l = \<lparr>r_bytes = take k (message_frame wire_bincode m), r_end = Some e\<rparr>"
    and "k < length (message_frame wire_bincode m)" and "fits_frame wire_bincode m"
    and "recv_msg (link_read rs) wire_bincode l = (x, l')"
  shows "x = Inl (MsgIo e)"
proof (cases "k = 0")
  case True
  then show ?thesis using recv_nothing [OF _ assms(4), of "Some e"] assms(1) by simp
next
  case False
  have "r_bytes (reply_left rs l) = take k (frame (put_message m))" using assms(1) by (simp add: frame_of)
  from control_channel.recv_cut [OF client_end this _ _ fits_payload [OF assms(3)] assms(4)]
  show ?thesis using False assms(1,2) by (simp add: frame_of)
qed

lemma recv_outcome:
  assumes left: "reply_left rs l = cut_reply f (reply_bytes d)"
    and fits: "\<And>m. decision_reply d = Some m \<Longrightarrow> fits_frame wire_bincode m"
    and run: "recv_msg (link_read rs) wire_bincode l = (x, l')"
  shows "(case x of Inl e \<Rightarrow> Err (ClientMessage e) | Inr None \<Rightarrow> Err RelayClosed | Inr (Some m) \<Rightarrow> Ok m)
    = outcome f (decision_reply d)"
proof (cases f)
  case Delivered
  show ?thesis
  proof (cases "decision_reply d")
    case None
    then have "x = Inr None"
      using recv_nothing [OF _ run, of None] left by (simp add: Delivered cut_reply_def reply_bytes_def)
    then show ?thesis by (simp add: Delivered None outcome_def)
  next
    case (Some m)
    then have "x = Inr (Some m)"
      using recv_whole [OF _ fits [OF Some] run] left by (simp add: Delivered cut_reply_def reply_bytes_def)
    then show ?thesis by (simp add: Delivered Some outcome_def)
  qed
next
  case RequestLost
  then have "x = Inl (MsgIo OtherIo)"
    using recv_nothing [OF _ run, of "Some OtherIo"] left by (simp add: cut_reply_def)
  then show ?thesis by (simp add: RequestLost outcome_def)
next
  case (ReplyCut k)
  show ?thesis
  proof (cases "decision_reply d")
    case None
    then have "x = Inl (MsgIo OtherIo)"
      using recv_nothing [OF _ run, of "Some OtherIo"] left by (simp add: ReplyCut cut_reply_def reply_bytes_def)
    then show ?thesis by (simp add: ReplyCut None outcome_def)
  next
    case (Some m)
    then have bytes: "reply_left rs l = \<lparr>r_bytes = take k (message_frame wire_bincode m), r_end = Some OtherIo\<rparr>"
      using left by (simp add: ReplyCut cut_reply_def reply_bytes_def)
    show ?thesis
    proof (cases "length (message_frame wire_bincode m) \<le> k")
      case True
      then have "x = Inr (Some m)" using recv_whole [OF _ fits [OF Some] run] bytes by simp
      then show ?thesis using True by (simp add: ReplyCut Some outcome_def)
    next
      case False
      then have "x = Inl (MsgIo OtherIo)" using recv_part [OF bytes _ fits [OF Some] run] by simp
      then show ?thesis using False by (simp add: ReplyCut Some outcome_def)
    qed
  qed
qed

text \<open>One exchange of the client with the relay.\<close>

lemma ask_relay:
  assumes "fits_frame wire_bincode request"
    and "handles rs (next_now l) request (lk_state l) (lk_world l) = (d, st, w)"
    and "\<And>m. decision_reply d = Some m \<Longrightarrow> fits_frame wire_bincode m"
  obtains l' where "ask (relay_quic rs) wire_bincode request l = (outcome (next_fate l) (decision_reply d), l')"
    and "lk_state l' = (if next_fate l = RequestLost then lk_state l else st)"
    and "lk_world l' = (if next_fate l = RequestLost then lk_world l else w)"
    and "lk_fates l' = tl (lk_fates l)" and "lk_clock l' = tl (lk_clock l)"
proof -
  let ?l = "l\<lparr>lk_down := None, lk_up := message_frame wire_bincode request\<rparr>"
  obtain x l' where run: "recv_msg (link_read rs) wire_bincode ?l = (x, l')" by fastforce
  have ahead: "next_fate ?l = next_fate l" "next_now ?l = next_now l"
    by (simp_all add: next_fate_def next_now_def)
  have turn: "relay_turn rs ?l =
    (if next_fate l = RequestLost
     then ?l\<lparr>lk_fates := tl (lk_fates l), lk_clock := tl (lk_clock l), lk_down := Some (cut_reply RequestLost [])\<rparr>
     else ?l\<lparr>lk_fates := tl (lk_fates l), lk_clock := tl (lk_clock l), lk_state := st, lk_world := w,
       lk_down := Some (cut_reply (next_fate l) (reply_bytes d))\<rparr>)"
    using relay_turn_request [of ?l request rs d st w] assms(1,2) ahead by simp
  have "reply_left rs ?l = cut_reply (next_fate l) (reply_bytes d)"
    by (simp add: reply_left_def turn cut_reply_def)
  note out = recv_outcome [OF this assms(3) run]
  have "ask (relay_quic rs) wire_bincode request l = (outcome (next_fate l) (decision_reply d), l')"
    using out run by (auto simp: ask_def relay_quic_def link_send split: sum.splits option.splits)
  then show thesis
    using that [of l'] recv_same_relay [OF run] by (simp add: turn same_relay_def split: if_splits)
qed

end
