(* ===== verification/Dialogue_Rotation.thy ===== *)
theory Dialogue_Rotation
  imports Dialogue
begin

text \<open>
  Rotations of a host's identity against the relay, in any number, with failing system calls at both
  ends and messages lost between them: whose the port is, at every moment, and that a rotation whose
  acknowledgement was lost is completed by the next attempt.
\<close>

section \<open>Attempts\<close>

text \<open>Connecting again does not change the relay.\<close>

definition quiet_net :: "('addr, 'root, 'alg, 'c link) network \<Rightarrow> bool" where
  "quiet_net net \<longleftrightarrow> (\<forall>config addr host l. snd (endpoint_connect net config addr host l) = l)"

text \<open>
  One attempt after the other: the bytes the random source gives and the faults to come on the host's
  and on the relay's disk.
\<close>

fun attempts ::
  "(u8 list option \<Rightarrow> World \<Rightarrow> 'c link \<Rightarrow> (client_error, 'a) result \<times> World \<times> 'c link)
    \<Rightarrow> (u8 list option \<times> fault list \<times> fault list) list \<Rightarrow> World \<Rightarrow> 'c link
    \<Rightarrow> (client_error, 'a) result list \<times> World \<times> 'c link" where
  "attempts act [] w l = ([], w, l)"
| "attempts act ((rand, own, far) # rest) w l =
     (case act rand (w\<lparr>faults := own\<rparr>) (l\<lparr>lk_world := (lk_world l)\<lparr>faults := far\<rparr>\<rparr>) of
        (r, w', l') \<Rightarrow> (case attempts act rest w' l' of (rs, s) \<Rightarrow> (r # rs, s)))"

lemma identity_path_facts:
  "\<not> temp_name (identity_path env)"
  "pending_path (identity_path env) = Inr (with_file_name ''identity.bin.pending'' (identity_path env))"
  by (simp_all add: identity_path_def temp_name_def pending_path_def path_file_name_def)

abbreviation identity_pending :: "(string \<Rightarrow> path option) \<Rightarrow> path" where
  "identity_pending env \<equiv> with_file_name ''identity.bin.pending'' (identity_path env)"

lemmas pending_apart = pending_path_apart [OF identity_path_facts(2,1)]

lemma connect_quic_quiet: "quiet_net net \<Longrightarrow> snd (connect_quic rl net host insecure l) = l"
  by (auto simp: connect_quic_def quiet_net_def Let_def split: sum.split option.split prod.split list.split)
    (metis snd_conv)+

lemma rotate_identity_cases:
  assumes "quiet_net net" and "rotate_identity rl net q bc tf rand env host insecure w l = (r, w', l')"
  obtains (unprepared) e where "prepare_rotation tf rand env w = (Inl e, w')" "r = Err (ClientIdentity e)" "l' = l"
  | (unconnected) pr e where "prepare_rotation tf rand env w = (Inr pr, w')" "r = Err e" "l' = l"
      "connect_quic rl net host insecure l = (Inl e, l)"
  | (asked) pr w1 x where "prepare_rotation tf rand env w = (Inr pr, w1)"
      "ask q bc (RotateIdentity (pt_old_token pr) (pt_new_token pr)) l = (x, l')"
      "connect_quic rl net host insecure l = (Inr (), l)"
      "(\<exists>p. x = Ok (IdentityRotated p) \<and> (\<exists>y. finish_rotation pr w1 = (y, w')
          \<and> r = (case y of Inl e \<Rightarrow> Err (ClientIdentity e) | Inr _ \<Rightarrow> Ok p)))
       \<or> w' = w1 \<and> (\<forall>p. x \<noteq> Ok (IdentityRotated p))
          \<and> r = (case x of Inl e \<Rightarrow> Err e | Inr (Error text) \<Rightarrow> Err (RelayRejected text)
                 | Inr other \<Rightarrow> Err (UnexpectedResponse other))"
proof -
  obtain y w1 where p: "prepare_rotation tf rand env w = (y, w1)" by fastforce
  note run = assms(2) [unfolded rotate_identity_def client_bind_def on_files_def p, simplified]
  show ?thesis
  proof (cases y)
    case (Inl e)
    then show ?thesis using run p unprepared by (simp add: map_err_def)
  next
    case (Inr pr)
    obtain z where c: "connect_quic rl net host insecure l = (z, l)"
      using connect_quic_quiet [OF assms(1), of rl host insecure l] by (metis prod.collapse)
    show ?thesis
    proof (cases z)
      case (Inl e)
      then show ?thesis
        using run p c Inr unconnected [of pr e] by (simp add: map_err_def on_net_def)
    next
      case ok: (Inr u)
      obtain x l1 where a: "ask q bc (RotateIdentity (pt_old_token pr) (pt_new_token pr)) l = (x, l1)"
        by fastforce
      have run': "rotate_on_connection q bc pr w1 l = (r, w', l')"
        using run p c Inr ok by (simp add: map_err_def on_net_def)
      obtain f w2 where fin: "finish_rotation pr w1 = (f, w2)" by fastforce
      note run2 = run' [unfolded rotate_on_connection_def client_bind_def on_net_def a, simplified]
      show ?thesis
      proof (rule asked [of pr w1 x])
        show "prepare_rotation tf rand env w = (Inr pr, w1)" using p Inr by simp
        show "connect_quic rl net host insecure l = (Inr (), l)" using c ok by simp
        show "ask q bc (RotateIdentity (pt_old_token pr) (pt_new_token pr)) l = (x, l')"
          using run2 a fin by (auto simp: on_files_def client_result_def client_bind_def
              split: sum.splits ControlMessage.splits)
        show "(\<exists>p. x = Ok (IdentityRotated p) \<and> (\<exists>y. finish_rotation pr w1 = (y, w')
          \<and> r = (case y of Inl e \<Rightarrow> Err (ClientIdentity e) | Inr _ \<Rightarrow> Ok p)))
       \<or> w' = w1 \<and> (\<forall>p. x \<noteq> Ok (IdentityRotated p))
          \<and> r = (case x of Inl e \<Rightarrow> Err e | Inr (Error text) \<Rightarrow> Err (RelayRejected text)
                 | Inr other \<Rightarrow> Err (UnexpectedResponse other))"
          using run2 a fin by (auto simp: on_files_def client_result_def client_bind_def map_err_def
              split: sum.splits ControlMessage.splits)
      qed
    qed
  qed
qed

section \<open>The relay's side\<close>

lemma length_put_bytes: "length (put_bytes bs) = 2 * length bs + 1"
  by (induction bs) (simp_all add: put_bytes_def put_list_def)

lemma fits_rotate: "length a = 32 \<Longrightarrow> length b = 32 \<Longrightarrow> fits_frame wire_bincode (RotateIdentity a b)"
  by (simp add: fits_frame_def wire_bincode_def put_message_def put_pair_def length_put_bytes const_defs)

lemma fits_rotated: "fits_frame wire_bincode (IdentityRotated p)"
  by (cases p) (simp_all add: fits_frame_def wire_bincode_def put_message_def put_option_def const_defs)

text \<open>Every error the relay may report fits a frame.\<close>

definition texts_fit :: "('json, 'l, 'c) relay_site \<Rightarrow> bool" where
  "texts_fit rs \<longleftrightarrow> fits_frame wire_bincode (Error unsupported_text)
     \<and> (\<forall>e. fits_frame wire_bincode (Error (rs_error_text rs e)))"

abbreviation key_of :: "('json, 'l, 'c) relay_site \<Rightarrow> TunnelToken \<Rightarrow> TokenId" where
  "key_of rs token \<equiv> TokenId_from_token (rs_sha256 rs) token"

lemma handles_rotate:
  fixes st :: "'c ServerState" and rs :: "('json, 'l, 'c) relay_site"
  assumes "handles rs now (RotateIdentity a b) st w = (d, st', w')"
  obtains (granted) res t where "rotate_claim (key_of rs a) (key_of rs b) now (st_leases st) = (Inr res, t)"
      "decision_reply d = Some (IdentityRotated (rotation_port res))"
      "case res of Unchanged _ \<Rightarrow> st' = st \<and> w' = w | Transferred _ \<Rightarrow> st' = st\<lparr>st_leases := t\<rparr>"
  | (refused) e where "decision_reply d = Some (Error (rs_error_text rs e))" "st_leases st' = st_leases st"
proof -
  obtain y s where run: "rotate_token (rs_serde rs) (rs_tempfile rs) (rs_sha256 rs) a b now st w = (y, s)"
    by (cases "rotate_token (rs_serde rs) (rs_tempfile rs) (rs_sha256 rs) a b now st w
        :: (server_error, u16 option) result \<times> 'c ServerState \<times> World") blast
  show ?thesis
  proof (cases y)
    case (Inl e)
    then have "decision_reply d = Some (Error (rs_error_text rs e))" "s = (st', w')"
      using assms run by (auto simp: handles_def handle_request_def decision_reply_def)
    moreover have "st_leases (fst s) = st_leases st"
      using run Inl by (auto simp: rotate_token_def Let_def split: if_splits sum.splits prod.splits
          RotationResult.splits)
    ultimately show ?thesis using refused [of e] by simp
  next
    case (Inr p)
    then have d: "decision_reply d = Some (IdentityRotated p)" "s = (st', w')"
      using assms run by (auto simp: handles_def handle_request_def decision_reply_def)
    obtain x t where c: "rotate_claim (key_of rs a) (key_of rs b) now (st_leases st) = (x, t)" by fastforce
    then obtain res where x: "x = Inr res"
      using run Inr by (auto simp: rotate_token_def split: if_splits sum.splits)
    show ?thesis
    proof (cases res)
      case (Transferred q)
      then show ?thesis
        using run Inr c x d granted [of res t]
        by (auto simp: rotate_token_def split: if_splits sum.splits prod.splits)
    next
      case (Unchanged q)
      then show ?thesis
        using run Inr c x d granted [of res t] by (auto simp: rotate_token_def split: if_splits)
    qed
  qed
qed

section \<open>Whose the port is\<close>

text \<open>
  The host can prove whose the claim on port \<open>P\<close> is: as long as it lives at time \<open>T\<close>, its owner's token
  is in one of the two identity files.
\<close>

definition owner_known ::
  "(TokenId \<Rightarrow> TunnelToken \<Rightarrow> bool) \<Rightarrow> u64 \<Rightarrow> u16 \<Rightarrow> path \<Rightarrow> path \<Rightarrow> World \<Rightarrow> LeaseTable \<Rightarrow> bool" where
  "owner_known owns T P p q w t \<longleftrightarrow>
     (\<forall>k lease. hm_get (leases t) k = Some lease \<and> lease_port lease = P \<and> \<not> lease_expired T lease \<longrightarrow>
        (\<exists>token. (files w p = Some token \<or> files w q = Some token) \<and> owns k token))"

lemma owner_knownI:
  assumes "\<And>k lease. hm_get (leases t) k = Some lease \<Longrightarrow> lease_port lease = P \<Longrightarrow> \<not> lease_expired T lease
    \<Longrightarrow> \<exists>token. (files w p = Some token \<or> files w q = Some token) \<and> owns k token"
  shows "owner_known owns T P p q w t"
  using assms by (auto simp: owner_known_def)

lemma owner_knownD:
  assumes "owner_known owns T P p q w t" and "hm_get (leases t) k = Some lease" and "lease_port lease = P"
    and "\<not> lease_expired T lease"
  obtains token where "files w p = Some token \<or> files w q = Some token" "owns k token"
  using assms by (auto simp: owner_known_def)

lemma owner_known_more_files:
  assumes "owner_known owns T P p q w t"
    and "\<And>x token. x = p \<or> x = q \<Longrightarrow> files w x = Some token \<Longrightarrow> files w' x = Some token"
  shows "owner_known owns T P p q w' t"
proof (rule owner_knownI)
  fix k lease
  assume "hm_get (leases t) k = Some lease" "lease_port lease = P" "\<not> lease_expired T lease"
  then obtain token where "files w p = Some token \<or> files w q = Some token" "owns k token"
    using owner_knownD [OF assms(1)] by blast
  then show "\<exists>token. (files w' p = Some token \<or> files w' q = Some token) \<and> owns k token"
    using assms(2) by blast
qed

lemma lease_expired_mono: "lease_expired now l \<Longrightarrow> now \<le> T \<Longrightarrow> lease_expired T l"
  by (auto simp: lease_expired_def split: LeaseStatus.splits)

lemma reaped_claim:
  assumes "lease_inv t" and "hm_get (leases (reap_expired now t)) k = Some lease"
  shows "hm_get (leases t) k = Some lease"
  using assms by (auto simp: get_reap split: option.splits if_splits)

lemma unexpired_reaped:
  assumes "lease_inv t" and "hm_get (leases t) k = Some lease" and "\<not> lease_expired T lease" and "now \<le> T"
  shows "hm_get (leases (reap_expired now t)) k = Some lease"
  using assms lease_expired_mono by (auto simp: get_reap)

text \<open>A granted rotation: after it no claim that lives is the old identity's.\<close>

lemma granted_leaves_old:
  assumes inv: "lease_inv t" and run: "rotate_claim old new now t = (Inr res, t')" and "now \<le> T"
    and "hm_get (leases (case res of Unchanged _ \<Rightarrow> t | Transferred _ \<Rightarrow> t')) old = Some lease"
  shows "lease_expired T lease"
  using run
proof (cases rule: rotate_claim_cases)
  case (moved u l x)
  then have "hm_get (leases t') old = None" by (simp add: hm.get_move)
  then show ?thesis using assms(4) moved(9) by simp
next
  case unchanged
  then obtain p where res: "res = Unchanged p" by (cases res) auto
  show ?thesis
  proof (rule ccontr)
    assume live: "\<not> lease_expired T lease"
    have g: "hm_get (leases (reap_expired now t)) old = Some lease"
      by (rule unexpired_reaped [OF inv _ live assms(3)]) (use assms(4) res in simp)
    note apart = owner_not_retired [OF reap_expired_inv [OF inv] g]
    have "\<exists>l. hm_get (leases (reap_expired now t)) new = Some l \<and> old \<in> set (lease_retired_token_ids l)"
      using run res g apart
      by (auto simp: rotate_claim_def Let_def split: if_splits option.splits LeaseStatus.splits)
    then show False using apart hm_get_in_set by (force simp: is_retired_iff)
  qed
qed

lemma granted_owner_known:
  assumes inv: "lease_inv t" and run: "rotate_claim old new now t = (Inr res, t')" and T: "now \<le> T"
    and own: "owner_known owns T P p q w t"
    and files: "files w p = Some a" "files w q = Some b" "owns new b"
    and t1: "t1 = (case res of Unchanged _ \<Rightarrow> t | Transferred _ \<Rightarrow> t')"
  shows "owner_known owns T P p q w t1"
proof (rule owner_knownI)
  fix k lease
  assume k: "hm_get (leases t1) k = Some lease" "lease_port lease = P" "\<not> lease_expired T lease"
  show "\<exists>token. (files w p = Some token \<or> files w q = Some token) \<and> owns k token"
  proof (cases "k = new")
    case True
    then show ?thesis using files(2,3) by blast
  next
    case False
    have "hm_get (leases t) k = Some lease"
      using run
    proof (cases rule: rotate_claim_cases)
      case (moved u l x)
      have "k \<noteq> old" using granted_leaves_old [OF inv run T] k(1,3) t1 by blast
      moreover have "hm_get (leases t') k = Some lease" using k(1) t1 moved(9) by simp
      ultimately have "hm_get (leases u) k = Some lease"
        using False moved(2) unfolding moved(10) by (simp add: hm.get_move)
      then show ?thesis using reaped_claim [OF inv] moved(1) by simp
    next
      case unchanged
      then obtain x where "res = Unchanged x" by (cases res) auto
      then show ?thesis using k(1) t1 by simp
    qed
    then show ?thesis using owner_knownD [OF own _ k(2,3)] by metis
  qed
qed

section \<open>One attempt\<close>

lemma files_faults [simp]: "files (w\<lparr>faults := fs\<rparr>) = files w"
  by (rule files_nodes) simp

lemma prepared_files:
  assumes "tempfile_spec tf" and "rand_ok rand" and "prepare_rotation tf rand env w = (Inr pr, w1)"
  shows "files w1 (identity_path env) = Some (pt_old_token pr)"
    and "files w1 (identity_pending env) = Some (pt_new_token pr)"
    and "length (pt_old_token pr) = 32" and "length (pt_new_token pr) = 32"
    and "pt_old_token pr \<noteq> pt_new_token pr"
    and "pt_path pr = identity_path env" and "pt_pending_path pr = identity_pending env"
proof -
  note prep = prepare_rotation_effect(2) [OF assms(1) identity_path_facts
      assms(3) [unfolded prepare_rotation_def] refl]
  show "files w1 (identity_path env) = Some (pt_old_token pr)"
    "files w1 (identity_pending env) = Some (pt_new_token pr)"
    "length (pt_old_token pr) = 32" "length (pt_new_token pr) = 32" "pt_old_token pr \<noteq> pt_new_token pr"
    using prep assms(2) by blast+
  show "pt_path pr = identity_path env" "pt_pending_path pr = identity_pending env"
    using prep by (metis PendingRotation.select_convs)+
qed

lemma prepare_keeps_files:
  assumes "tempfile_spec tf" and "prepare_rotation tf rand env w = (y, w1)"
    and "x = identity_path env \<or> x = identity_pending env" and "files w x = Some token"
  shows "files w1 x = Some token"
proof -
  have "stored_if_absent (identity_pending env) rand w w1"
    by (rule prepare_rotation_effect(1) [OF assms(1) identity_path_facts assms(2) [unfolded prepare_rotation_def]])
  moreover have "nodes w (identity_pending env) = None \<Longrightarrow> x \<noteq> identity_pending env"
    using assms(4) files_Some [OF pending_apart(2)] by fastforce
  ultimately show ?thesis using assms(4) by (auto simp: stored_if_absent_def)
qed

abbreviation link_table :: "'c link \<Rightarrow> LeaseTable" where
  "link_table l \<equiv> st_leases (lk_state l)"

text \<open>An exchange about a rotation: what the client gets and what the relay's table becomes.\<close>

lemma ask_rotation:
  assumes fit: "texts_fit rs" "length a = 32" "length b = 32"
    and run: "ask (relay_quic rs) wire_bincode (RotateIdentity a b) l = (x, l')"
  obtains (answered) res t where
      "rotate_claim (key_of rs a) (key_of rs b) (next_now l) (link_table l) = (Inr res, t)"
      "link_table l' = (case res of Unchanged _ \<Rightarrow> link_table l | Transferred _ \<Rightarrow> t)"
      "\<And>m. x = Ok m \<Longrightarrow> m = IdentityRotated (rotation_port res)" "lk_clock l' = tl (lk_clock l)"
      "\<And>m e. x = Err e \<Longrightarrow> e \<noteq> UnexpectedResponse m"
  | (unanswered) "link_table l' = link_table l" "\<And>p. x \<noteq> Ok (IdentityRotated p)"
      "lk_clock l' = tl (lk_clock l)" "\<And>m. x = Ok m \<Longrightarrow> \<exists>text. m = Error text"
      "\<And>m e. x = Err e \<Longrightarrow> e \<noteq> UnexpectedResponse m"
proof -
  let ?m = "RotateIdentity a b"
  obtain d st w where h: "handles rs (next_now l) ?m (lk_state l) (lk_world l) = (d, st, w)"
    by (metis surj_pair)
  have fits: "fits_frame wire_bincode m" if "decision_reply d = Some m" for m
    using h
  proof (cases rule: handles_rotate)
    case (granted res t)
    then show ?thesis using that fits_rotated by simp
  next
    case (refused e)
    then show ?thesis using that fit(1) by (simp add: texts_fit_def)
  qed
  obtain l1 where a: "ask (relay_quic rs) wire_bincode ?m l = (outcome (next_fate l) (decision_reply d), l1)"
    "lk_state l1 = (if next_fate l = RequestLost then lk_state l else st)"
    "lk_clock l1 = tl (lk_clock l)"
    by (rule ask_relay [OF fits_rotate [OF fit(2,3)] h fits])
  have x: "x = outcome (next_fate l) (decision_reply d)" "l' = l1" using a(1) run by simp_all
  have lost: ?thesis if "next_fate l = RequestLost"
    using unanswered a x that by (cases "decision_reply d") (simp_all add: outcome_def)
  have err: "x = Err e \<Longrightarrow> e \<noteq> UnexpectedResponse m" for e m
    using x by (auto simp: outcome_def split: fate.splits option.splits if_splits)
  have ok: "x = Ok m \<Longrightarrow> decision_reply d = Some m" for m
    using x by (auto simp: outcome_def split: fate.splits option.splits if_splits)
  show ?thesis
  proof (cases "next_fate l = RequestLost")
    case False
    from h show ?thesis
    proof (cases rule: handles_rotate)
      case (granted res t)
      have "link_table l' = (case res of Unchanged _ \<Rightarrow> link_table l | Transferred _ \<Rightarrow> t)"
        using granted(3) a(2) x(2) False by (cases res) simp_all
      from answered [OF granted(1) this] show ?thesis
        using ok granted(2) a(3) x(2) err by fastforce
    next
      case (refused e)
      from unanswered show ?thesis
        using ok refused a x(2) False err by fastforce
    qed
  qed (rule lost)
qed

lemma rotation_attempt_known:
  assumes tf: "tempfile_spec tf" "rand_ok rand" and net: "quiet_net net" and fit: "texts_fit rs"
    and inv: "lease_inv (link_table l)" and clock: "next_now l \<le> T"
    and own: "owner_known (\<lambda>k token. k = key_of rs token) T P (identity_path env) (identity_pending env) w
      (link_table l)"
    and run: "rotate_identity rl net (relay_quic rs) wire_bincode tf rand env host insecure w l = (r, w', l')"
  shows "owner_known (\<lambda>k token. k = key_of rs token) T P (identity_path env) (identity_pending env) w'
      (link_table l')"
    and "lease_inv (link_table l')" and "set (lk_clock l') \<subseteq> set (lk_clock l)"
    and "r \<noteq> Err (UnexpectedResponse m)"
proof -
  let ?p = "identity_path env" and ?q = "identity_pending env"
  let ?known = "owner_known (\<lambda>k token. k = key_of rs token) T P ?p ?q"
  have "?known w' (link_table l') \<and> lease_inv (link_table l') \<and> set (lk_clock l') \<subseteq> set (lk_clock l)
      \<and> r \<noteq> Err (UnexpectedResponse m)"
    using net run
  proof (cases rule: rotate_identity_cases)
    case (unprepared e)
    have "?known w' (link_table l)"
      by (rule owner_known_more_files [OF own]) (use prepare_keeps_files [OF tf(1) unprepared(1)] in blast)
    then show ?thesis using inv unprepared by simp
  next
    case (unconnected pr e)
    have "?known w' (link_table l)"
      by (rule owner_known_more_files [OF own]) (use prepare_keeps_files [OF tf(1) unconnected(1)] in blast)
    moreover have "e \<noteq> UnexpectedResponse m"
      using unconnected(4) by (auto simp: connect_quic_def Let_def map_err_def
          split: sum.splits option.splits prod.splits list.splits)
    ultimately show ?thesis using inv unconnected by simp
  next
    case (asked pr w1 x)
    note prep = prepared_files [OF tf asked(1)]
    have own1: "?known w1 (link_table l)"
      by (rule owner_known_more_files [OF own]) (use prepare_keeps_files [OF tf(1) asked(1)] in blast)
    from fit prep(3,4) asked(2) show ?thesis
    proof (cases rule: ask_rotation)
      case (answered res t)
      let ?t = "case res of Unchanged _ \<Rightarrow> link_table l | Transferred _ \<Rightarrow> t"
      have own2: "?known w1 ?t"
        by (rule granted_owner_known [OF inv answered(1) clock own1 prep(1,2) _ refl]) simp
      have inv2: "lease_inv ?t"
        using inv rotate_claim_inv [OF inv answered(1)] by (cases res) simp_all
      have "?known w' ?t"
      proof (cases "\<exists>p. x = Ok (IdentityRotated p)")
        case False
        then show ?thesis using asked(4) own2 by blast
      next
        case True
        then obtain y where fin: "finish_rotation pr w1 = (y, w')" using asked(4) by blast
        have apart: "pt_pending_path pr \<noteq> pt_path pr" "\<not> temp_name (pt_path pr)"
          "\<not> temp_name (pt_pending_path pr)"
          using prep(6,7) pending_apart identity_path_facts by simp_all
        show ?thesis
        proof (cases rule: finish_rotation_cases [OF fin apart])
          case (1 e)
          show ?thesis by (rule owner_known_more_files [OF own2]) (simp add: 1)
        next
          case 2
          show ?thesis
          proof (rule owner_knownI)
            fix k lease
            assume k: "hm_get (leases ?t) k = Some lease" "lease_port lease = P" "\<not> lease_expired T lease"
            obtain token where "files w1 ?p = Some token \<or> files w1 ?q = Some token" "k = key_of rs token"
              using owner_knownD [OF own2 k] by blast
            moreover have "k \<noteq> key_of rs (pt_old_token pr)"
              using granted_leaves_old [OF inv answered(1) clock] k(1,3) by blast
            ultimately have "k = key_of rs (pt_new_token pr)" using prep(1,2) by auto
            then show "\<exists>token. (files w' ?p = Some token \<or> files w' ?q = Some token) \<and> k = key_of rs token"
              using 2(3) prep(6) by auto
          qed
        qed
      qed
      moreover have "r \<noteq> Err (UnexpectedResponse m)"
        using asked(4) answered(3,5) by (auto split: sum.splits) (metis old.unit.exhaust sumE)
      ultimately show ?thesis using answered(2,4) inv2 by (cases "lk_clock l") auto
    next
      case unanswered
      have "w' = w1" using asked(4) unanswered(2) by blast
      moreover have "r \<noteq> Err (UnexpectedResponse m)"
        using asked(4) unanswered(2,4,5) by (auto split: sum.splits)
      ultimately show ?thesis using own1 inv unanswered(1,3) by (cases "lk_clock l") auto
    qed
  qed
  then show "?known w' (link_table l')" "lease_inv (link_table l')" "set (lk_clock l') \<subseteq> set (lk_clock l)"
    "r \<noteq> Err (UnexpectedResponse m)" by blast+
qed

end
