(* ===== verification/Dialogue_Properties.thy ===== *)
theory Dialogue_Properties
  imports Dialogue_Rotation
begin

text \<open>
  The properties of the client and the relay together: every reply is one the client expects, a host
  never loses the means to prove its claim, and a lost acknowledgement does not keep a rotation from
  being completed.
\<close>

section \<open>Requests and replies\<close>

lemma fits_small:
  "fits_frame wire_bincode (TunnelReady port)" "fits_frame wire_bincode (IdentityRecovered port)"
  by (simp_all add: fits_frame_def wire_bincode_def put_message_def const_defs)

lemma fits_recover: "length a = 32 \<Longrightarrow> length b = 32 \<Longrightarrow> fits_frame wire_bincode (RecoverIdentity a b)"
  by (simp add: fits_frame_def wire_bincode_def put_message_def put_pair_def length_put_bytes const_defs)

lemma fits_register:
  "length a = 32 \<Longrightarrow> length b = 32 \<Longrightarrow> fits_frame wire_bincode (Register protocol port a b)"
  by (simp add: fits_frame_def wire_bincode_def put_message_def put_pair_def length_put_bytes const_defs)

lemma decision_reply_fits:
  assumes "texts_fit rs" and "handles rs now request st w = (d, st', w')" and "decision_reply d = Some m"
  shows "fits_frame wire_bincode m"
  using assms fits_small fits_rotated
  by (cases request)
    (auto simp: handles_def handle_request_def decision_reply_def texts_fit_def
      split: if_splits sum.splits prod.splits)

lemma ask_reply:
  assumes "texts_fit rs" and "fits_frame wire_bincode request"
    and "ask (relay_quic rs) wire_bincode request l = (x, l')"
  shows "x = Ok m \<Longrightarrow> reply_for request m" and "x = Err e \<Longrightarrow> e \<noteq> UnexpectedResponse m"
proof -
  obtain d st w where h: "handles rs (next_now l) request (lk_state l) (lk_world l) = (d, st, w)"
    by (metis surj_pair)
  obtain l1 where "ask (relay_quic rs) wire_bincode request l = (outcome (next_fate l) (decision_reply d), l1)"
    by (rule ask_relay [OF assms(2) h decision_reply_fits [OF assms(1) h]])
  then have x: "x = outcome (next_fate l) (decision_reply d)" using assms(3) by simp
  then show "x = Err e \<Longrightarrow> e \<noteq> UnexpectedResponse m"
    by (auto simp: outcome_def split: fate.splits option.splits if_splits)
  assume "x = Ok m"
  then have "decision_reply d = Some m"
    using x by (auto simp: outcome_def split: fate.splits option.splits if_splits)
  then show "reply_for request m"
    using handle_request_reply [OF h [unfolded handles_def]] by simp
qed

text \<open>An operation of the client that never meets a reply it does not expect.\<close>

definition understood :: "(client_error, 'a) result \<times> World \<times> 'n \<Rightarrow> bool" where
  "understood s \<longleftrightarrow> (\<forall>m. fst s \<noteq> Err (UnexpectedResponse m))"

lemma understoodD: "understood s \<Longrightarrow> fst s \<noteq> Err (UnexpectedResponse m)"
  by (simp add: understood_def)

lemma understood_bind:
  assumes "understood (f w l)" and "\<And>x w' l'. f w l = (Inr x, w', l') \<Longrightarrow> understood (g x w' l')"
  shows "understood (client_bind f g w l)"
  using assms by (auto simp: client_bind_def understood_def split: sum.split prod.split)

lemma understood_files: "understood (on_files f w l)"
  by (auto simp: understood_def on_files_def map_err_def split: prod.split sum.split)

lemma understood_result: "(\<And>m. r \<noteq> Err (UnexpectedResponse m)) \<Longrightarrow> understood (client_result r w l)"
  by (simp add: understood_def client_result_def)

lemma understood_connect: "understood (on_net (connect_quic rl net host insecure) w l)"
  by (auto simp: understood_def on_net_def connect_quic_def Let_def map_err_def
      split: sum.split option.split prod.split list.split)

lemma understood_ask:
  "texts_fit rs \<Longrightarrow> fits_frame wire_bincode request
    \<Longrightarrow> understood (on_net (ask (relay_quic rs) wire_bincode request) w l)"
  using ask_reply(2) by (fastforce simp: understood_def on_net_def split: prod.split)

lemma on_net_reply:
  "texts_fit rs \<Longrightarrow> fits_frame wire_bincode request
    \<Longrightarrow> on_net (ask (relay_quic rs) wire_bincode request) w l = (Inr m, w', l') \<Longrightarrow> reply_for request m"
  using ask_reply(1) by (fastforce simp: on_net_def split: prod.splits)

lemma on_files_Inr: "on_files f w l = (Inr x, w', l') \<longleftrightarrow> f w = (Inr x, w') \<and> l' = l"
  by (auto simp: on_files_def map_err_def split: prod.splits sum.splits)

lemma understood_rotate:
  assumes "texts_fit rs" and "length (pt_old_token pr) = 32" and "length (pt_new_token pr) = 32"
  shows "understood (rotate_on_connection (relay_quic rs) wire_bincode pr w l)"
  unfolding rotate_on_connection_def
proof (rule understood_bind)
  note fit = fits_rotate [OF assms(2,3)]
  show "understood (on_net (ask (relay_quic rs) wire_bincode
      (RotateIdentity (pt_old_token pr) (pt_new_token pr))) w l)"
    by (rule understood_ask [OF assms(1) fit])
  fix m w' l'
  assume "on_net (ask (relay_quic rs) wire_bincode (RotateIdentity (pt_old_token pr) (pt_new_token pr))) w l
      = (Inr m, w', l')"
  from on_net_reply [OF assms(1) fit this]
  show "understood ((case m of
      IdentityRotated public_port \<Rightarrow>
        client_bind (on_files (finish_rotation pr)) (\<lambda>_. client_result (Ok public_port))
    | Error message \<Rightarrow> client_result (Err (RelayRejected message))
    | other \<Rightarrow> client_result (Err (UnexpectedResponse other))) w' l')"
    by (cases m) (auto intro!: understood_bind understood_files understood_result)
qed

lemma understood_recover:
  assumes "texts_fit rs" and "length secret = 32" and "length (pr_new_token pr) = 32"
  shows "understood (recover_on_connection (relay_quic rs) wire_bincode tf env pr secret from_backup w l)"
  unfolding recover_on_connection_def
proof (rule understood_bind)
  note fit = fits_recover [OF assms(2,3)]
  show "understood (on_net (ask (relay_quic rs) wire_bincode (RecoverIdentity secret (pr_new_token pr))) w l)"
    by (rule understood_ask [OF assms(1) fit])
  fix m w' l'
  assume "on_net (ask (relay_quic rs) wire_bincode (RecoverIdentity secret (pr_new_token pr))) w l
      = (Inr m, w', l')"
  from on_net_reply [OF assms(1) fit this]
  show "understood ((case m of
      IdentityRecovered public_port \<Rightarrow>
        client_bind
          (if from_backup then on_files (store_recovery tf env secret) else client_result (Ok ()))
          (\<lambda>_. client_bind (on_files (finish_recovery pr)) (\<lambda>_. client_result (Ok public_port)))
    | Error message \<Rightarrow> client_result (Err (RelayRejected message))
    | other \<Rightarrow> client_result (Err (UnexpectedResponse other))) w' l')"
    by (cases m) (auto intro!: understood_bind understood_files understood_result)
qed

lemma parse_recovery_code_length: "parse_recovery_code text = Inr secret \<Longrightarrow> length secret = 32"
  by (auto simp: parse_recovery_code_def Let_def collect_results_Inr_iff split: if_splits
      dest!: list_all2_lengthD)

lemma read_existing_length: "read_existing p w = (Inr t, w') \<Longrightarrow> length t = 32"
  by (erule read_existing_cases) simp_all

lemma recovery_secret_length:
  assumes "recovery_secret env prompt backup w l = (Inr (secret, from_backup), w', l')"
  shows "length secret = 32"
proof -
  have prompted: "length secret = 32" if "prompted_secret prompt = Inr (secret, b)" for b
    using that parse_recovery_code_length by (auto simp: prompted_secret_def split: sum.splits)
  show ?thesis
    using assms prompted read_existing_length
    by (auto simp: recovery_secret_def read_recovery_def read_recovery_at_def
        split: if_splits sum.splits identity_error.splits io_error.splits prod.splits)
qed

lemma load_or_create_length:
  assumes "tempfile_spec tf" and "\<not> temp_name p" and "rand_ok rand" and "load_or_create_at tf rand p w = (Inr t, w')"
  shows "length t = 32"
  using load_or_create_result [OF assms(1,2,4)] assms(3) by (auto simp: token_result_def rand_ok_def)

lemma recovery_path_plain: "\<not> temp_name (recovery_path env)"
  by (simp add: recovery_path_def identity_path_def with_file_name_def path_file_name_def temp_name_def)

lemma understood_rotate_identity:
  assumes "texts_fit rs" and "tempfile_spec tf" and "rand_ok rand"
  shows "understood (rotate_identity rl net (relay_quic rs) wire_bincode tf rand env host insecure w l)"
  unfolding rotate_identity_def
proof (intro understood_bind understood_files understood_connect)
  fix pr w' l' x w2 l2
  assume "on_files (prepare_rotation tf rand env) w l = (Inr pr, w', l')"
  then have "prepare_rotation tf rand env w = (Inr pr, w')" by (simp add: on_files_Inr)
  from prepared_files(3,4) [OF assms(2,3) this]
  show "understood (rotate_on_connection (relay_quic rs) wire_bincode pr w2 l2)"
    by (rule understood_rotate [OF assms(1)])
qed

lemma understood_recover_identity:
  assumes "texts_fit rs" and "tempfile_spec tf" and "rand_ok rand"
  shows "understood (recover_identity rl net (relay_quic rs) wire_bincode tf rand env prompt host insecure
    backup w l)"
  unfolding recover_identity_def
proof (rule understood_bind)
  show "understood (recovery_secret env prompt backup w l)"
    by (auto simp: understood_def recovery_secret_def prompted_secret_def
        split: if_splits sum.splits identity_error.splits io_error.splits prod.splits)
  fix secret_from w1 l1
  assume s: "recovery_secret env prompt backup w l = (Inr secret_from, w1, l1)"
  obtain secret from_backup where sf: "secret_from = (secret, from_backup)" by fastforce
  show "understood ((case secret_from of (secret, from_backup) \<Rightarrow>
      client_bind (on_files (prepare_recovery tf rand env)) (\<lambda>pending.
       client_bind (on_net (connect_quic rl net host insecure)) (\<lambda>_.
        recover_on_connection (relay_quic rs) wire_bincode tf env pending secret from_backup))) w1 l1)"
    unfolding sf prod.case
  proof (intro understood_bind understood_files understood_connect)
    fix pr w2 l2 x w3 l3
    assume "on_files (prepare_recovery tf rand env) w1 l1 = (Inr pr, w2, l2)"
    then have "prepare_recovery_at tf rand (identity_path env) w1 = (Inr pr, w2)"
      by (simp add: on_files_Inr prepare_recovery_def)
    from prepare_recovery_effect(2) [OF assms(2) identity_path_facts this refl] assms(3)
    have "length (pr_new_token pr) = 32" by blast
    with recovery_secret_length [OF s [unfolded sf]]
    show "understood (recover_on_connection (relay_quic rs) wire_bincode tf env pr secret from_backup w3 l3)"
      by (rule understood_recover [OF assms(1)])
  qed
qed

lemma understood_connect_agent:
  assumes "texts_fit rs" and "tempfile_spec tf" and "rand_ok rand" and "rand_ok rand'"
    and "\<And>x. length (sha256 x) = 32"
  shows "understood (connect_agent rl net (relay_quic rs) wire_bincode tf sha256 rand rand' env host port
    insecure w l)"
  unfolding connect_agent_def
proof (intro understood_bind understood_files understood_connect)
  fix token w1 l1 secret w2 l2 u w3 l3
  assume t: "on_files (load_or_create_identity tf rand env) w l = (Inr token, w1, l1)"
    and s: "on_files (load_or_create_recovery tf rand' env) w1 l1 = (Inr secret, w2, l2)"
  let ?m = "Register Tcp port token (recovery_fingerprint sha256 secret)"
  have "length token = 32"
    using load_or_create_length [OF assms(2) identity_path_facts(1) assms(3)] t
    by (auto simp: on_files_Inr load_or_create_identity_def)
  then have fit: "fits_frame wire_bincode ?m"
    using assms(5) by (simp add: fits_register recovery_fingerprint_def)
  show "understood (on_net (ask (relay_quic rs) wire_bincode ?m) w3 l3)"
    by (rule understood_ask [OF assms(1) fit])
  fix m w4 l4
  assume "on_net (ask (relay_quic rs) wire_bincode ?m) w3 l3 = (Inr m, w4, l4)"
  from on_net_reply [OF assms(1) fit this]
  show "understood ((case m of
      TunnelReady public_port \<Rightarrow>
        client_result (Ok \<lparr>agent_local_port = port, agent_public_port = public_port, agent_players = 0\<rparr>)
    | Error message \<Rightarrow> client_result (Err (RelayRejected message))
    | other \<Rightarrow> client_result (Err (UnexpectedResponse other))) w4 l4)"
    by (cases m) (auto intro!: understood_result)
qed

section \<open>A rotation that goes through\<close>

text \<open>The host after it prepared a rotation.\<close>

definition host_ready :: "(string \<Rightarrow> path option) \<Rightarrow> TunnelToken \<Rightarrow> TunnelToken \<Rightarrow> World \<Rightarrow> bool" where
  "host_ready env old new w \<longleftrightarrow>
     files w (identity_path env) = Some old \<and> files w (identity_pending env) = Some new
     \<and> length old = 32 \<and> length new = 32 \<and> old \<noteq> new
     \<and> nodes w (butlast (identity_path env)) = Some Directory"

definition pending_rotation :: "(string \<Rightarrow> path option) \<Rightarrow> TunnelToken \<Rightarrow> TunnelToken \<Rightarrow> PendingRotation" where
  "pending_rotation env old new =
     \<lparr>pt_path = identity_path env, pt_pending_path = identity_pending env, pt_old_token = old,
      pt_new_token = new\<rparr>"

text \<open>The host's files once the pending token has become its identity.\<close>

definition rotated_files :: "(string \<Rightarrow> path option) \<Rightarrow> TunnelToken \<Rightarrow> World \<Rightarrow> path \<Rightarrow> u8 list option" where
  "rotated_files env new w = (files w)(identity_pending env := None, identity_path env \<mapsto> new)"

lemma rotated_files_cong: "files w1 = files w \<Longrightarrow> rotated_files env new w1 = rotated_files env new w"
  by (simp add: rotated_files_def)

lemma rotated_files_faults [simp]: "rotated_files env new (w\<lparr>faults := fs\<rparr>) = rotated_files env new w"
  by (rule rotated_files_cong) simp

lemma identity_parent: "parent_or_dot (identity_path env) = butlast (identity_path env)"
  by (simp add: parent_or_dot_def path_parent_def identity_path_def)

lemma identity_dir_apart:
  "butlast (identity_path env) \<noteq> identity_path env" "butlast (identity_path env) \<noteq> identity_pending env"
proof -
  have "length (butlast (identity_path env)) < length (identity_path env)"
    "length (identity_pending env) = length (identity_path env)"
    by (simp_all add: identity_path_def with_file_name_def path_file_name_def)
  then show "butlast (identity_path env) \<noteq> identity_path env"
    "butlast (identity_path env) \<noteq> identity_pending env" by fastforce+
qed

lemma ready_prepares:
  assumes "host_ready env old new w" and "faults w = []"
  obtains w1 where "prepare_rotation tf rand env w = (Inr (pending_rotation env old new), w1)"
    "files w1 = files w" "faults w1 = []" "host_ready env old new w1"
proof -
  have "\<exists>w1. prepare_rotation_at tf rand (identity_path env) w = (Inr (pending_rotation env old new), w1)
      \<and> files w1 = files w \<and> faults w1 = []
      \<and> (\<forall>x. x \<noteq> identity_path env \<and> x \<noteq> identity_pending env \<longrightarrow> nodes w1 x = nodes w x)"
    by (rule prepare_rotation_reads [OF identity_path_facts assms(2)])
      (use assms(1) in \<open>simp_all add: host_ready_def pending_rotation_def\<close>)
  then obtain w1 where w1: "prepare_rotation_at tf rand (identity_path env) w
      = (Inr (pending_rotation env old new), w1)" "files w1 = files w" "faults w1 = []"
    "nodes w1 (butlast (identity_path env)) = nodes w (butlast (identity_path env))"
    using identity_dir_apart by blast
  then show thesis
    using that [of w1] assms(1) by (simp add: prepare_rotation_def host_ready_def)
qed

lemma ready_finishes:
  assumes "host_ready env old new w" and "faults w = []"
  obtains w' where "finish_rotation (pending_rotation env old new) w = (Inr (), w')"
    "files w' = rotated_files env new w"
  using finish_rotation_completes [OF assms(2) identity_path_facts(1) pending_apart(2)
      pending_apart(1) [symmetric] _ _ _ _ identity_parent, of env old new] assms(1)
  by (auto simp: host_ready_def pending_rotation_def rotated_files_def)

text \<open>What the relay answers to a rotation it grants, and to the same one again.\<close>

lemma rotate_token_granted:
  assumes inv: "lease_inv (st_leases st)"
    and run: "rotate_token sj tf sha256 a b now st v = (Inr (Some port), st', v')"
  obtains lease where "hm_get (leases (st_leases st')) (TokenId_from_token sha256 b) = Some lease"
    "lease_port lease = port" "TokenId_from_token sha256 a \<in> set (lease_retired_token_ids lease)"
    "lease_inv (st_leases st')" "persistence_healthy st'"
    "hm_get (leases (st_leases st')) (TokenId_from_token sha256 a) = None"
proof -
  let ?a = "TokenId_from_token sha256 a" and ?b = "TokenId_from_token sha256 b"
  obtain x t where c: "rotate_claim ?a ?b now (st_leases st) = (x, t)" by fastforce
  note inv' = rotate_claim_inv [OF inv c]
  have healthy: "persistence_healthy st" using run by (auto simp: rotate_token_def split: if_splits)
  from c show thesis
  proof (cases rule: rotate_claim_cases)
    case (moved u l y)
    then have "st' = st\<lparr>st_leases := t\<rparr>" "port = lease_port l"
      using run c healthy by (auto simp: rotate_token_def split: sum.splits prod.splits)
    moreover have "hm_get (leases t) ?b = Some
        \<lparr>lease_port = lease_port l, lease_last_ip = lease_last_ip l, lease_retired_token_ids = [?a],
         lease_recovery_id = lease_recovery_id l, lease_status = Grace y\<rparr>" "hm_get (leases t) ?a = None"
      using moved(2) unfolding moved(10) by (simp_all add: hm.get_move)
    ultimately show thesis using that inv' healthy by simp
  next
    case unchanged
    have x: "x = Inr (Unchanged (Some port))" "st' = st"
      using run c healthy unchanged(2)
      by (auto simp: rotate_token_def split: sum.splits prod.splits RotationResult.splits)
    obtain l where l: "hm_get (leases (reap_expired now (st_leases st))) ?b = Some l" "lease_port l = port"
      "?a \<in> set (lease_retired_token_ids l)"
      using c x(1) by (auto simp: rotate_claim_def Let_def split: if_splits option.splits LeaseStatus.splits)
    note g = reaped_claim [OF inv l(1)]
    have "is_retired ?a (st_leases st)" using hm_get_in_set [OF g] l(3) by (force simp: is_retired_iff)
    then have "hm_get (leases (st_leases st)) ?a = None"
      using owner_not_retired [OF inv] by (metis option.exhaust)
    then show thesis using that [OF _ l(2,3)] g x(2) inv healthy by simp
  qed
qed

lemma rotate_token_again:
  assumes "lease_inv (st_leases st)" and "persistence_healthy st"
    and "hm_get (leases (st_leases st)) (TokenId_from_token sha256 b) = Some lease"
    and "TokenId_from_token sha256 a \<in> set (lease_retired_token_ids lease)" and "\<not> lease_expired now lease"
  shows "rotate_token sj tf sha256 a b now st v = (Inr (Some (lease_port lease)), st, v)"
  using retired_rejected(2) [OF assms(1,3,5,4)] assms(2) by (simp add: rotate_token_def)

lemma handles_granted:
  assumes "rotate_token (rs_serde rs) (rs_tempfile rs) (rs_sha256 rs) a b now st v = (Inr port, st', v')"
  shows "handles rs now (RotateIdentity a b) st v = (Answer (IdentityRotated port) None, st', v')"
  using assms by (simp add: handles_def handle_request_def)

definition loses :: "ControlMessage \<Rightarrow> fate \<Rightarrow> bool" where
  "loses reply f =
     (case f of
        Delivered \<Rightarrow> False
      | ReplyCut k \<Rightarrow> k < length (message_frame wire_bincode reply)
      | RequestLost \<Rightarrow> True)"

lemma outcome_lost: "loses m f \<Longrightarrow> outcome f (Some m) = Err (ClientMessage (MsgIo OtherIo))"
  by (cases f) (simp_all add: loses_def outcome_def)

lemma ready_attempt:
  assumes host: "host_ready env old new w" "faults w = []"
    and net: "connect_quic rl net host insecure l = (Inr (), l)"
    and grant: "rotate_token (rs_serde rs) (rs_tempfile rs) (rs_sha256 rs) old new (next_now l)
      (lk_state l) (lk_world l) = (Inr port, st, v)"
  shows "loses (IdentityRotated port) (next_fate l) \<Longrightarrow> \<exists>w1 l1.
      rotate_identity rl net (relay_quic rs) wire_bincode tf rand env host insecure w l
        = (Err (ClientMessage (MsgIo OtherIo)), w1, l1)
      \<and> files w1 = files w \<and> host_ready env old new w1
      \<and> lk_state l1 = (if next_fate l = RequestLost then lk_state l else st)
      \<and> lk_fates l1 = tl (lk_fates l) \<and> lk_clock l1 = tl (lk_clock l)"
    and "next_fate l = Delivered \<Longrightarrow> \<exists>w1 l1.
      rotate_identity rl net (relay_quic rs) wire_bincode tf rand env host insecure w l = (Ok port, w1, l1)
      \<and> files w1 = rotated_files env new w
      \<and> lk_state l1 = st"
proof -
  let ?pr = "pending_rotation env old new"
  obtain w1 where p: "prepare_rotation tf rand env w = (Inr ?pr, w1)" "files w1 = files w" "faults w1 = []"
    "host_ready env old new w1"
    by (rule ready_prepares [OF host])
  have len: "length old = 32" "length new = 32" using host(1) by (simp_all add: host_ready_def)
  have tokens: "pt_old_token ?pr = old" "pt_new_token ?pr = new" by (simp_all add: pending_rotation_def)
  have reply: "decision_reply (Answer (IdentityRotated port) None :: (_, _) decision) = Some (IdentityRotated port)"
    by (simp add: decision_reply_def)
  obtain l1 where a: "ask (relay_quic rs) wire_bincode (RotateIdentity old new) l
      = (outcome (next_fate l) (Some (IdentityRotated port)), l1)"
    "lk_state l1 = (if next_fate l = RequestLost then lk_state l else st)"
    "lk_fates l1 = tl (lk_fates l)" "lk_clock l1 = tl (lk_clock l)"
    by (rule ask_relay [OF fits_rotate [OF len] handles_granted [OF grant], unfolded reply])
      (use fits_rotated in auto)
  have run: "rotate_identity rl net (relay_quic rs) wire_bincode tf rand env host insecure w l
      = rotate_on_connection (relay_quic rs) wire_bincode ?pr w1 l"
    using p(1) net by (simp add: rotate_identity_def client_bind_def on_files_def on_net_def map_err_def)
  show "loses (IdentityRotated port) (next_fate l) \<Longrightarrow> \<exists>w1 l1.
      rotate_identity rl net (relay_quic rs) wire_bincode tf rand env host insecure w l
        = (Err (ClientMessage (MsgIo OtherIo)), w1, l1)
      \<and> files w1 = files w \<and> host_ready env old new w1
      \<and> lk_state l1 = (if next_fate l = RequestLost then lk_state l else st)
      \<and> lk_fates l1 = tl (lk_fates l) \<and> lk_clock l1 = tl (lk_clock l)"
    using a p(2,4) outcome_lost [of "IdentityRotated port" "next_fate l"]
    by (simp add: run rotate_on_connection_def client_bind_def on_net_def tokens)
  assume "next_fate l = Delivered"
  moreover obtain w2 where "finish_rotation ?pr w1 = (Inr (), w2)"
    "files w2 = rotated_files env new w1"
    by (rule ready_finishes [OF p(4,3)])
  ultimately show "\<exists>w1 l1.
      rotate_identity rl net (relay_quic rs) wire_bincode tf rand env host insecure w l = (Ok port, w1, l1)
      \<and> files w1 = rotated_files env new w
      \<and> lk_state l1 = st"
    using a rotated_files_cong [OF p(2)]
    by (simp add: run rotate_on_connection_def client_bind_def on_net_def tokens outcome_def on_files_def
        map_err_def client_result_def)
qed

abbreviation rotations where
  "rotations rs rl net tf env host insecure \<equiv>
     attempts (\<lambda>rand. rotate_identity rl net (relay_quic rs) wire_bincode tf rand env host insecure)"

abbreviation without_faults :: "u8 list option list \<Rightarrow> (u8 list option \<times> fault list \<times> fault list) list" where
  "without_faults rands \<equiv> map (\<lambda>rand. (rand, [], [])) rands"

lemma ready_faults [simp]: "host_ready env old new (w\<lparr>faults := fs\<rparr>) = host_ready env old new w"
  by (simp add: host_ready_def)

lemma link_simps [simp]:
  "next_fate (l\<lparr>lk_world := v\<rparr>) = next_fate l" "next_now (l\<lparr>lk_world := v\<rparr>) = next_now l"
  by (simp_all add: next_fate_def next_now_def)

lemma again_until_through:
  assumes "\<And>l. connect_quic rl net host insecure l = (Inr (), l)"
    and "host_ready env old new w" and "lk_state l = st"
    and "lease_inv (st_leases st)" and "persistence_healthy st"
    and "hm_get (leases (st_leases st)) (key_of rs new) = Some lease"
    and "key_of rs old \<in> set (lease_retired_token_ids lease)"
    and "lk_fates l = lost @ [Delivered]" and "list_all (loses (IdentityRotated (Some (lease_port lease)))) lost"
    and "length rands = length lost + 1" and "length (lk_clock l) = length lost + 1"
    and "\<forall>now \<in> set (lk_clock l). \<not> lease_expired now lease"
  shows "\<exists>w' l'. rotations rs rl net tf env host insecure (without_faults rands) w l
      = (replicate (length lost) (Err (ClientMessage (MsgIo OtherIo))) @ [Ok (Some (lease_port lease))], w', l')
    \<and> files w' = rotated_files env new w \<and> lk_state l' = st"
  using assms(2,3,8-12)
proof (induction lost arbitrary: w l rands)
  case Nil
  then obtain rand where r: "rands = [rand]" by (auto simp: length_Suc_conv)
  let ?l = "l\<lparr>lk_world := (lk_world l)\<lparr>faults := []\<rparr>\<rparr>"
  obtain now where now: "lk_clock l = [now]" using Nil.prems(6) by (auto simp: length_Suc_conv)
  have "rotate_token (rs_serde rs) (rs_tempfile rs) (rs_sha256 rs) old new (next_now ?l)
      (lk_state ?l) (lk_world ?l) = (Inr (Some (lease_port lease)), st, lk_world ?l)"
    using rotate_token_again [OF assms(4-7)] Nil.prems(2,7) now by (simp add: next_now_def)
  from ready_attempt(2) [OF _ _ assms(1) this, where w = "w\<lparr>faults := []\<rparr>" and env = env and tf = tf
      and rand = rand] Nil.prems(1,3)
  obtain w1 l1 where
    "rotate_identity rl net (relay_quic rs) wire_bincode tf rand env host insecure (w\<lparr>faults := []\<rparr>) ?l
        = (Ok (Some (lease_port lease)), w1, l1)"
    "files w1 = rotated_files env new w" "lk_state l1 = st"
    by (auto simp: next_fate_def)
  then show ?case by (simp add: r)
next
  case (Cons f lost)
  then obtain rand rands' where r: "rands = rand # rands'" "length rands' = length lost + 1"
    by (auto simp: length_Suc_conv)
  obtain now clock where now: "lk_clock l = now # clock" "length clock = length lost + 1"
    using Cons.prems(6) by (auto simp: length_Suc_conv)
  have live: "\<not> lease_expired now lease" using Cons.prems(7) now(1) by simp
  let ?l = "l\<lparr>lk_world := (lk_world l)\<lparr>faults := []\<rparr>\<rparr>"
  have "rotate_token (rs_serde rs) (rs_tempfile rs) (rs_sha256 rs) old new (next_now ?l)
      (lk_state ?l) (lk_world ?l) = (Inr (Some (lease_port lease)), st, lk_world ?l)"
    using rotate_token_again [OF assms(4-7) live] Cons.prems(2) now by (simp add: next_now_def)
  from ready_attempt(1) [OF _ _ assms(1) this, where w = "w\<lparr>faults := []\<rparr>" and env = env] Cons.prems(1,3,4)
  obtain w1 l1 where a:
    "rotate_identity rl net (relay_quic rs) wire_bincode tf rand env host insecure (w\<lparr>faults := []\<rparr>) ?l
        = (Err (ClientMessage (MsgIo OtherIo)), w1, l1)"
    "files w1 = files w" "host_ready env old new w1" "lk_state l1 = st"
    "lk_fates l1 = lost @ [Delivered]" "lk_clock l1 = clock"
    using Cons.prems(2) now by (force simp: next_fate_def)
  obtain w' l' where "rotations rs rl net tf env host insecure (without_faults rands') w1 l1
      = (replicate (length lost) (Err (ClientMessage (MsgIo OtherIo))) @ [Ok (Some (lease_port lease))], w', l')"
    "files w' = rotated_files env new w1" "lk_state l' = st"
    using Cons.IH [OF a(3,4,5) _ r(2)] Cons.prems(4,7) a(6) now by auto
  then show ?case using a(1) rotated_files_cong [OF a(2)] r(1) by simp
qed

section \<open>The instances\<close>

definition demo_site :: "(wire_json, u16, nat) relay_site" where
  "demo_site =
     \<lparr>rs_serde = wire_serde, rs_tempfile = std_tempfile, rs_sha256 = sha_demo,
      rs_error_text = (\<lambda>_. ''refused''), rs_bind = Inr, rs_conn = 0, rs_peer_ip = V4 1\<rparr>"

definition demo_net :: "(nat, nat, nat, nat link) network" where
  "demo_net =
     \<lparr>parse_addr = (\<lambda>_. Some 0), lookup_host = (\<lambda>_. Err NotFound),
      endpoint_connect = (\<lambda>_ _ _ l. (Ok (), l))\<rparr>"

text \<open>A claim on port 10000 whose host, with the identity of \<open>home_ab\<close>, has disconnected.\<close>

definition claim_a :: LeaseTable where
  "claim_a = snd (end_session (host_id id_a) (SessionId 1) 200
     (snd (activate_with_recovery (host_id id_a) (Some (host_id [9])) (V4 1) 10000 100 LeaseTable_new)))"

definition link_a :: "nat link" where
  "link_a =
     \<lparr>lk_state = \<lparr>st_leases = claim_a, st_store = \<lparr>store_path = state_path\<rparr>, persistence_healthy = True,
        active_connections = []\<rparr>,
      lk_world = empty_dir, lk_up = [], lk_down = None,
      lk_fates = [ReplyCut 3, RequestLost, Delivered], lk_clock = [300, 400, 500]\<rparr>"

lemma demo_connects: "connect_quic demo_rustls demo_net host True (l :: nat link) = (Inr (), l)"
proof -
  have "is_ok (connection_config demo_rustls True)" by code_simp
  then show ?thesis
    by (auto simp: connect_quic_def demo_net_def Let_def is_ok_iff map_err_def)
qed

lemma demo_quiet: "quiet_net demo_net"
  by (simp add: quiet_net_def demo_net_def)

lemma demo_texts: "texts_fit demo_site"
  by (simp add: texts_fit_def demo_site_def fits_frame_def wire_bincode_def put_message_def const_defs
      put_list_def put_char_def unsupported_text_def)

lemma claim_a_inv: "lease_inv claim_a"
  unfolding claim_a_def
  by (rule end_session_inv [OF activate_with_recovery_inv [OF lease_inv_new prod.collapse [symmetric]]
        prod.collapse [symmetric]])

lemma home_ab_ready: "host_ready home_env id_a id_b home_ab"
proof -
  have "files home_ab id_path = Some id_a" "files home_ab (identity_pending home_env) = Some id_b"
    "nodes home_ab (butlast id_path) = Some Directory" by code_simp+
  then show ?thesis by (simp add: host_ready_def id_path_def id_a_def id_b_def)
qed

lemma demo_granted:
  obtains st v where "rotate_token wire_serde std_tempfile sha_demo id_a id_b 300 (lk_state link_a)
      ((lk_world link_a)\<lparr>faults := []\<rparr>) = (Inr (Some 10000), st, v)"
    "map_option lease_status (hm_get (leases (st_leases st)) (host_id id_b)) = Some (Grace 300200)"
proof -
  let ?r = "rotate_token wire_serde std_tempfile sha_demo id_a id_b 300 (lk_state link_a)
      ((lk_world link_a)\<lparr>faults := []\<rparr>)"
  have "fst ?r = Inr (Some 10000)
      \<and> map_option lease_status (hm_get (leases (st_leases (fst (snd ?r)))) (host_id id_b)) = Some (Grace 300200)"
    by code_simp
  then show thesis using that [of "fst (snd ?r)" "snd (snd ?r)"] by (metis prod.collapse)
qed

section \<open>Properties\<close>

text \<open>
  C16: client and relay speak the same protocol: whatever the client asks of the relay, and whatever is
  lost on the way, a reply it gets is one that answers the request, so that a rotation, a recovery and a
  registration never end with an unexpected response.
\<close>

theorem replies_are_expected:
  assumes "texts_fit rs" and "tempfile_spec tf" and "rand_ok rand" and "rand_ok rand'"
    and "\<And>x. length (sha256 x) = 32"
  shows "(fits_frame wire_bincode request \<and> ask (relay_quic rs) wire_bincode request l = (Ok m, l')
          \<longrightarrow> reply_for request m)
    \<and> fst (rotate_identity rl net (relay_quic rs) wire_bincode tf rand env host insecure w l)
        \<noteq> Err (UnexpectedResponse m)
    \<and> fst (recover_identity rl net (relay_quic rs) wire_bincode tf rand env prompt host insecure backup w l)
        \<noteq> Err (UnexpectedResponse m)
    \<and> fst (connect_agent rl net (relay_quic rs) wire_bincode tf sha256 rand rand' env host port insecure w l)
        \<noteq> Err (UnexpectedResponse m)"
  by (intro conjI impI understoodD understood_rotate_identity [OF assms(1-3)]
      understood_recover_identity [OF assms(1-3)] understood_connect_agent [OF assms])
    (use ask_reply(1) [OF assms(1), of request l "Ok m" l' m] in blast)

theorem replies_are_expected_witness:
  "\<forall>m. fst (rotate_identity demo_rustls demo_net (relay_quic demo_site) wire_bincode std_tempfile None home_env
      ''relay'' True home_ab link_a) \<noteq> Err (UnexpectedResponse m)"
proof
  fix m
  have none: "rand_ok None" by (simp add: rand_ok_def)
  have "length (sha_demo x) = 32" for x by (simp add: sha_demo_def min_def)
  from replies_are_expected [OF demo_texts std_tf.tempfile_spec_axioms none none this]
  show "fst (rotate_identity demo_rustls demo_net (relay_quic demo_site) wire_bincode std_tempfile None home_env
      ''relay'' True home_ab link_a) \<noteq> Err (UnexpectedResponse m)" by blast
qed

text \<open>
  C7: a host is never locked out of its port by a rotation: in any number of attempts, with any system
  calls failing on its disk and on the relay's, and with requests and replies lost or cut, the token
  that owns the port's claim is in the host's identity file or in its pending file, as long as the
  claim lives.
\<close>

theorem rotation_never_locks_out:
  assumes "tempfile_spec tf" and "quiet_net net" and "texts_fit rs" and "lease_inv (link_table l)"
    and "\<forall>now \<in> set (lk_clock l). now \<le> T" and "\<forall>a \<in> set tries. rand_ok (fst a)"
    and "owner_known (\<lambda>k token. k = key_of rs token) T P (identity_path env) (identity_pending env) w
      (link_table l)"
    and "rotations rs rl net tf env host insecure tries w l = (results, w', l')"
  shows "owner_known (\<lambda>k token. k = key_of rs token) T P (identity_path env) (identity_pending env) w'
      (link_table l')"
  using assms(4-8)
proof (induction tries arbitrary: w l results)
  case (Cons a tries)
  obtain rand own far where t: "a = (rand, own, far)" by (cases a) auto
  let ?w = "w\<lparr>faults := own\<rparr>" and ?l = "l\<lparr>lk_world := (lk_world l)\<lparr>faults := far\<rparr>\<rparr>"
  obtain r w1 l1 where one:
    "rotate_identity rl net (relay_quic rs) wire_bincode tf rand env host insecure ?w ?l = (r, w1, l1)"
    by (metis surj_pair)
  obtain rs' where rest: "rotations rs rl net tf env host insecure tries w1 l1 = (rs', w', l')"
    using Cons.prems(5) one by (auto simp: t split: prod.splits)
  have now: "next_now ?l \<le> T" using Cons.prems(2) by (cases "lk_clock l") (simp_all add: next_now_def)
  have known: "owner_known (\<lambda>k token. k = key_of rs token) T P (identity_path env) (identity_pending env) ?w
      (link_table ?l)" using Cons.prems(4) by (simp add: owner_known_def)
  have "rand_ok rand" "lease_inv (link_table ?l)" using Cons.prems(1,3) t by simp_all
  note step = rotation_attempt_known [OF assms(1) this(1) assms(2,3) this(2) now known one]
  show ?case
    using Cons.IH [OF step(2) _ _ step(1) rest] step(3) Cons.prems(2,3) by auto
qed simp

theorem rotation_never_locks_out_witness:
  "\<exists>results w' l'. rotations demo_site demo_rustls demo_net std_tempfile home_env ''relay'' True
      [(None, [], [Fine, Fail OtherIo 0]), (None, [Fail OtherIo 1], []), (None, [], [])] home_ab link_a
      = (results, w', l')
    \<and> owner_known (\<lambda>k token. k = key_of demo_site token) 1000 10000 id_path (identity_pending home_env) w'
        (link_table l')"
proof -
  let ?tries = "[(None, [], [Fine, Fail OtherIo 0]), (None, [Fail OtherIo 1], []), (None, [], [])]
    :: (u8 list option \<times> fault list \<times> fault list) list"
  obtain results w' l' where run: "rotations demo_site demo_rustls demo_net std_tempfile home_env ''relay'' True
      ?tries home_ab link_a = (results, w', l')" by (metis surj_pair)
  have owners: "map fst (leases (link_table link_a)) = [key_of demo_site id_a]" by code_simp
  have known: "owner_known (\<lambda>k token. k = key_of demo_site token) 1000 10000 (identity_path home_env)
      (identity_pending home_env) home_ab (link_table link_a)"
  proof (rule owner_knownI)
    fix k lease
    assume "hm_get (leases (link_table link_a)) k = Some lease"
    then have "k \<in> set (map fst (leases (link_table link_a)))" using hm_get_in_set by force
    then have "k = key_of demo_site id_a" by (simp add: owners)
    then show "\<exists>token. (files home_ab (identity_path home_env) = Some token
        \<or> files home_ab (identity_pending home_env) = Some token) \<and> k = key_of demo_site token"
      using home_ab_ready by (auto simp: host_ready_def)
  qed
  have "lease_inv (link_table link_a)" "\<forall>now \<in> set (lk_clock link_a). now \<le> 1000"
    using claim_a_inv by (simp_all add: link_a_def)
  from rotation_never_locks_out [OF std_tf.tempfile_spec_axioms demo_quiet demo_texts this _ known run]
  show ?thesis using run by (simp add: rand_ok_def id_path_def)
qed

text \<open>
  C15: a lost acknowledgement does not keep a rotation from being completed: once the relay has granted
  it, further attempts whose request or reply is lost fail and change nothing, and the first that goes
  through answers with the same port, makes the pending token the host's identity and leaves the claim
  with it, whatever the random source gives.
\<close>

theorem lost_acknowledgement_recovers:
  assumes "\<And>l. connect_quic rl net host insecure l = (Inr (), l)" and "host_ready env old new w"
    and "lease_inv (link_table l)"
    and "rotate_token (rs_serde rs) (rs_tempfile rs) (rs_sha256 rs) old new (hd (lk_clock l)) (lk_state l)
      ((lk_world l)\<lparr>faults := []\<rparr>) = (Inr (Some P), st, v)"
    and "lk_fates l = ReplyCut k # lost @ [Delivered]"
    and "list_all (loses (IdentityRotated (Some P))) (ReplyCut k # lost)"
    and "length rands = length lost + 2" and "length (lk_clock l) = length lost + 2"
    and "\<forall>now \<in> set (tl (lk_clock l)). \<forall>lease. hm_get (leases (st_leases st)) (key_of rs new) = Some lease
      \<longrightarrow> \<not> lease_expired now lease"
  shows "\<exists>w' l'. rotations rs rl net tf env host insecure (without_faults rands) w l
      = (replicate (length lost + 1) (Err (ClientMessage (MsgIo OtherIo))) @ [Ok (Some P)], w', l')
    \<and> files w' = rotated_files env new w
    \<and> (\<exists>lease. hm_get (leases (link_table l')) (key_of rs new) = Some lease \<and> lease_port lease = P)
    \<and> hm_get (leases (link_table l')) (key_of rs old) = None"
proof -
  let ?l = "l\<lparr>lk_world := (lk_world l)\<lparr>faults := []\<rparr>\<rparr>"
  obtain rand rands' where r: "rands = rand # rands'" "length rands' = length lost + 1"
    using assms(7) by (auto simp: length_Suc_conv)
  obtain now clock where now: "lk_clock l = now # clock" "length clock = length lost + 1"
    using assms(8) by (auto simp: length_Suc_conv)
  obtain lease where lease: "hm_get (leases (st_leases st)) (key_of rs new) = Some lease" "lease_port lease = P"
    "key_of rs old \<in> set (lease_retired_token_ids lease)" "lease_inv (st_leases st)" "persistence_healthy st"
    "hm_get (leases (st_leases st)) (key_of rs old) = None"
    by (rule rotate_token_granted [OF assms(3,4)])
  have "rotate_token (rs_serde rs) (rs_tempfile rs) (rs_sha256 rs) old new (next_now ?l)
      (lk_state ?l) (lk_world ?l) = (Inr (Some P), st, v)"
    using assms(4) now by (simp add: next_now_def)
  from ready_attempt(1) [OF _ _ assms(1) this, where w = "w\<lparr>faults := []\<rparr>" and env = env] assms(2,5,6)
  obtain w1 l1 where a:
    "rotate_identity rl net (relay_quic rs) wire_bincode tf rand env host insecure (w\<lparr>faults := []\<rparr>) ?l
        = (Err (ClientMessage (MsgIo OtherIo)), w1, l1)"
    "files w1 = files w" "host_ready env old new w1" "lk_state l1 = st"
    "lk_fates l1 = lost @ [Delivered]" "lk_clock l1 = clock"
    using now by (force simp: next_fate_def)
  obtain w' l' where "rotations rs rl net tf env host insecure (without_faults rands') w1 l1
      = (replicate (length lost) (Err (ClientMessage (MsgIo OtherIo))) @ [Ok (Some (lease_port lease))], w', l')"
    "files w' = rotated_files env new w1" "lk_state l' = st"
    using again_until_through [OF assms(1) a(3,4) lease(4,5,1,3) a(5) _ r(2), where tf = tf] a(6) now
      assms(6,9) lease(1,2) by simp blast
  then show ?thesis using a(1) rotated_files_cong [OF a(2)] r(1) lease(1,2,6) by simp
qed

theorem lost_acknowledgement_recovers_witness:
  "\<exists>w' l'. rotations demo_site demo_rustls demo_net std_tempfile home_env ''relay'' True
      (without_faults [None, None, None]) home_ab link_a
      = ([Err (ClientMessage (MsgIo OtherIo)), Err (ClientMessage (MsgIo OtherIo)), Ok (Some 10000)], w', l')
    \<and> files w' id_path = Some id_b"
proof -
  obtain st v where grant: "rotate_token wire_serde std_tempfile sha_demo id_a id_b 300 (lk_state link_a)
      ((lk_world link_a)\<lparr>faults := []\<rparr>) = (Inr (Some 10000), st, v)"
    "map_option lease_status (hm_get (leases (st_leases st)) (host_id id_b)) = Some (Grace 300200)"
    by (rule demo_granted)
  have site: "rs_serde demo_site = wire_serde" "rs_tempfile demo_site = std_tempfile"
    "rs_sha256 demo_site = sha_demo" by (simp_all add: demo_site_def)
  have clock: "lk_clock link_a = [300, 400, 500]" and fates: "lk_fates link_a = ReplyCut 3 # [RequestLost] @ [Delivered]"
    by (simp_all add: link_a_def)
  have lost: "list_all (loses (IdentityRotated (Some 10000))) (ReplyCut 3 # [RequestLost])"
    by (simp add: loses_def frame_of)
  have inv: "lease_inv (link_table link_a)" using claim_a_inv by (simp add: link_a_def)
  have live: "\<forall>now \<in> set (tl (lk_clock link_a)). \<forall>lease.
      hm_get (leases (st_leases st)) (key_of demo_site id_b) = Some lease \<longrightarrow> \<not> lease_expired now lease"
    using grant(2) by (auto simp: clock site host_id_def lease_expired_def)
  have first: "rotate_token (rs_serde demo_site) (rs_tempfile demo_site) (rs_sha256 demo_site) id_a id_b
      (hd (lk_clock link_a)) (lk_state link_a) ((lk_world link_a)\<lparr>faults := []\<rparr>) = (Inr (Some 10000), st, v)"
    using grant(1) by (simp add: site clock)
  obtain w' l' where "rotations demo_site demo_rustls demo_net std_tempfile home_env ''relay'' True
      (without_faults [None, None, None]) home_ab link_a
      = (replicate (length [RequestLost] + 1) (Err (ClientMessage (MsgIo OtherIo))) @ [Ok (Some 10000)], w', l')"
    "files w' = rotated_files home_env id_b home_ab"
    using lost_acknowledgement_recovers [OF demo_connects [of "''relay''"] home_ab_ready inv first fates lost
        _ _ live, of "[None, None, None]" std_tempfile]
    by (simp add: clock del: attempts.simps list.map) blast
  then show ?thesis by (simp add: numeral_2_eq_2 rotated_files_def id_path_def del: attempts.simps)
qed

end
