(* ===== verification/Strangers.thy ===== *)
theory Strangers
  imports Dialogue_Properties
begin

text \<open>
  The relay among strangers: a run of it as the list of what happens to its state, and a claim whose
  host keeps its token and its recovery secret to itself. Nothing is assumed of the hash but that nobody
  else presents a value with the hash of either.
\<close>

section \<open>Traffic\<close>

text \<open>
  A request on some connection, with the listener the system gives for each port, the end of a session,
  the periodic save, and system calls that start to fail.
\<close>

datatype ('l, 'c) traffic =
    Asks ControlMessage 'c IpAddr u64 "u16 \<Rightarrow> (io_error, 'l) result"
  | Ends TokenId SessionId u64
  | Refreshes u64
  | Fails "fault list"

primrec serve ::
  "'json serde_json \<Rightarrow> tempfile \<Rightarrow> (u8 list \<Rightarrow> u8 list) \<Rightarrow> (server_error \<Rightarrow> string)
    \<Rightarrow> ('l, 'c) traffic \<Rightarrow> 'c ServerState \<times> World \<Rightarrow> 'c ServerState \<times> World" where
  "serve sj tf sha256 error_text (Asks msg c ip now bind) s =
     snd (handle_request sj tf sha256 error_text bind c ip now msg (fst s) (snd s))"
| "serve sj tf sha256 error_text (Ends k session now) s = snd (end_registration sj tf k session now (fst s) (snd s))"
| "serve sj tf sha256 error_text (Refreshes now) s = snd (refresh_and_save sj tf now (fst s) (snd s))"
| "serve sj tf sha256 error_text (Fails fs) s = (fst s, (snd s)\<lparr>faults := fs\<rparr>)"

text \<open>The secrets a request presents; the fingerprint of a registration is not one.\<close>

definition presented :: "ControlMessage \<Rightarrow> u8 list list" where
  "presented msg =
     (case msg of
        Register _ _ token _ \<Rightarrow> [token]
      | RotateIdentity old_token new_token \<Rightarrow> [old_token, new_token]
      | RecoverIdentity secret new_token \<Rightarrow> [secret, new_token]
      | _ \<Rightarrow> [])"

text \<open>
  An event up to time \<open>T\<close> that presents neither the token of \<open>k\<close> nor the secret of its key \<open>r\<close>. The
  host's own session may end, but not so early that its claim has expired at \<open>T\<close>.
\<close>

definition stranger :: "(u8 list \<Rightarrow> u8 list) \<Rightarrow> TokenId \<Rightarrow> TokenId option \<Rightarrow> u64 \<Rightarrow> ('l, 'c) traffic \<Rightarrow> bool" where
  "stranger sha256 k r T e =
     (case e of
        Asks msg _ _ now _ \<Rightarrow> now \<le> T \<and>
          (\<forall>secret \<in> set (presented msg). TokenId_from_token sha256 secret \<noteq> k
             \<and> Some (TokenId_from_token sha256 secret) \<noteq> r)
      | Ends k' _ now \<Rightarrow> now \<le> T \<and> (k' = k \<longrightarrow> T < saturating_add_u64 now GRACE_MS)
      | Refreshes now \<Rightarrow> now \<le> T
      | Fails _ \<Rightarrow> True)"

text \<open>A claim as it was, or its session ended.\<close>

definition claim_kept :: "Lease \<Rightarrow> Lease \<Rightarrow> bool" where
  "claim_kept l l' \<longleftrightarrow> l' = l
     \<or> (\<exists>s x. lease_status l = Active s \<and> l' = l\<lparr>lease_status := Grace x\<rparr>)"

lemma claim_kept_trans: "claim_kept l l1 \<Longrightarrow> claim_kept l1 l2 \<Longrightarrow> claim_kept l l2"
  by (auto simp: claim_kept_def)

lemma claim_kept_parts:
  "claim_kept l l' \<Longrightarrow> lease_port l' = lease_port l \<and> lease_recovery_id l' = lease_recovery_id l
    \<and> lease_retired_token_ids l' = lease_retired_token_ids l \<and> lease_last_ip l' = lease_last_ip l"
  by (auto simp: claim_kept_def)

section \<open>The lease table\<close>

text \<open>The operations of the table on other identities leave a claim that lives as it is.\<close>

lemma activate_other:
  assumes "lease_inv t" and "hm_get (leases t) k = Some l" and "\<not> lease_expired T l" and "now \<le> T"
    and "activate_with_recovery k' r ip p now t = (res, t')" and "k' \<noteq> k"
  shows "hm_get (leases t') k = Some l"
proof -
  have g: "hm_get (leases (reap_expired now t)) k = Some l" by (rule unexpired_reaped [OF assms(1-4)])
  from assms(5) show ?thesis
    by (cases rule: activate_with_recovery_cases) (use g assms(6) in \<open>auto elim!: enroll_claim_cases simp: hm.get_put\<close>)
qed

lemma rotate_other:
  assumes "lease_inv t" and "hm_get (leases t) k = Some l" and "\<not> lease_expired T l" and "now \<le> T"
    and "rotate_claim old new now t = (res, t')" and "old \<noteq> k"
  shows "hm_get (leases t') k = Some l"
proof -
  have g: "hm_get (leases (reap_expired now t)) k = Some l" by (rule unexpired_reaped [OF assms(1-4)])
  from assms(5) show ?thesis
    by (cases rule: rotate_claim_cases) (use g assms(6) in \<open>auto simp: hm.get_move\<close>)
qed

lemma recover_other:
  assumes "lease_inv t" and "hm_get (leases t) k = Some l" and "\<not> lease_expired T l" and "now \<le> T"
    and run: "recover_claim r new ip now t = (res, t')" and "Some r \<noteq> lease_recovery_id l"
  shows "hm_get (leases t') k = Some l"
proof -
  have g: "hm_get (leases (reap_expired now t)) k = Some l" by (rule unexpired_reaped [OF assms(1-4)])
  from run show ?thesis
  proof (cases rule: recover_claim_cases)
    case (moved u old m)
    have "hm_get (leases u) old = Some m"
      using moved(1,2) lease_inv_get [OF reap_expired_inv [OF assms(1)]] by simp
    then have "old \<noteq> k" "new \<noteq> k" using moved(1,3,5) g assms(6) by auto
    then show ?thesis using g moved(1,9) by (simp add: hm.get_move)
  qed (use g in simp_all)
qed

lemma end_other:
  assumes "hm_get (leases t) k = Some l" and "\<not> lease_expired T l" and "end_session k' s now t = (b, t')"
    and "k' = k \<longrightarrow> T < saturating_add_u64 now GRACE_MS"
  obtains l' where "hm_get (leases t') k = Some l'" "claim_kept l l'" "\<not> lease_expired T l'"
proof (cases "k' = k \<and> lease_status l = Active s")
  case True
  let ?l = "l\<lparr>lease_status := Grace (saturating_add_u64 now GRACE_MS)\<rparr>"
  have "hm_get (leases t') k = Some ?l"
    using True assms(1,3) by (auto simp: end_session_def hm.get_put)
  moreover have "claim_kept l ?l" using True unfolding claim_kept_def by blast
  moreover have "\<not> lease_expired T ?l" using True assms(4) by (simp add: lease_expired_def)
  ultimately show thesis by (rule that)
next
  case False
  then have "hm_get (leases t') k = Some l"
    using assms(1,3) by (auto simp: end_session_def hm.get_put split: option.splits if_splits)
  then show thesis using that [of l] assms(2) by (simp add: claim_kept_def)
qed

section \<open>One event\<close>

lemma handled_other:
  assumes "lease_inv (st_leases st)" and "hm_get (leases (st_leases st)) k = Some l" and "\<not> lease_expired T l"
    and "now \<le> T" and "handle_request sj tf sha256 error_text bind c ip now msg st w = (d, st', w')"
    and "\<forall>secret \<in> set (presented msg). TokenId_from_token sha256 secret \<noteq> k
       \<and> Some (TokenId_from_token sha256 secret) \<noteq> lease_recovery_id l"
  shows "lease_inv (st_leases st')" and "hm_get (leases (st_leases st')) k = Some l"
proof -
  note claim = assms(1-4)
  have reaped: "lease_inv (reap_expired now (st_leases st))"
    "hm_get (leases (reap_expired now (st_leases st))) k = Some l"
    using reap_expired_inv [OF assms(1)] unexpired_reaped [OF claim] by blast+
  have "lease_inv (st_leases st') \<and> hm_get (leases (st_leases st')) k = Some l"
  proof (cases msg)
    case (Register protocol port token fp)
    then have own: "TokenId_from_token sha256 token \<noteq> k" using assms(6) by (simp add: presented_def)
    show ?thesis
    proof (cases "protocol \<noteq> Tcp \<or> port = 0")
      case True
      then show ?thesis using assms(1,2,5) Register by (auto simp: handle_request_def)
    next
      case False
      then obtain res where run: "register_with_recovery sj tf sha256 bind token (Some fp) ip now (Some c) st w
          = (res, st', w')"
        using assms(5) Register by (auto simp: handle_request_def split: sum.splits prod.splits)
      from run show ?thesis
      proof (cases rule: register_cases)
        case (registered taken p rest listener s staged u)
        have "lease_inv staged" by (rule activate_with_recovery_inv [OF reaped(1) registered(5)])
        moreover have "hm_get (leases staged) k = Some l"
          by (rule activate_other [OF reaped assms(3,4) registered(5) own])
        ultimately show ?thesis using registered(8) by simp
      qed (use assms(1,2) reaped in simp_all)
    qed
  next
    case (RotateIdentity a b)
    then have own: "TokenId_from_token sha256 a \<noteq> k" using assms(6) by (simp add: presented_def)
    obtain res where run: "rotate_token sj tf sha256 a b now st w = (res, st', w')"
      using assms(5) RotateIdentity by (auto simp: handle_request_def split: sum.splits prod.splits)
    from run show ?thesis
    proof (cases rule: rotate_cases)
      case (moved p t r)
      have "lease_inv t" "hm_get (leases t) k = Some l"
        using rotate_claim_inv [OF assms(1) moved(2)] rotate_other [OF claim moved(2) own] by blast+
      then show ?thesis using moved(5) assms(1,2) by (cases r) simp_all
    qed (use assms(1,2) in simp_all)
  next
    case (RecoverIdentity secret b)
    then have own: "Some (TokenId_from_token sha256 secret) \<noteq> lease_recovery_id l"
      using assms(6) by (simp add: presented_def)
    obtain res where run: "recover sj tf sha256 secret b ip now st w = (res, st', w')"
      using assms(5) RecoverIdentity by (auto simp: handle_request_def split: sum.splits prod.splits)
    from run show ?thesis
    proof (cases rule: recover_cases)
      case (moved rec t r)
      have "lease_inv t" "hm_get (leases t) k = Some l"
        using recover_claim_inv [OF assms(1) moved(3)] recover_other [OF claim moved(3) own] by blast+
      then show ?thesis using moved(6) assms(1,2) by (cases r) simp_all
    qed (use assms(1,2) in simp_all)
  qed (use assms(1,2,5) in \<open>simp_all add: handle_request_def\<close>)
  then show "lease_inv (st_leases st')" "hm_get (leases (st_leases st')) k = Some l" by blast+
qed

lemma serve_keeps:
  assumes "lease_inv (st_leases st)" and "hm_get (leases (st_leases st)) k = Some l" and "\<not> lease_expired T l"
    and "stranger sha256 k (lease_recovery_id l) T e" and "serve sj tf sha256 error_text e (st, w) = (st', w')"
  obtains l' where "lease_inv (st_leases st')" "hm_get (leases (st_leases st')) k = Some l'" "claim_kept l l'"
    "\<not> lease_expired T l'"
proof (cases e)
  case (Asks msg c ip now bind)
  obtain d where run: "handle_request sj tf sha256 error_text bind c ip now msg st w = (d, st', w')"
    using assms(5) Asks by (metis serve.simps(1) fst_conv snd_conv prod.collapse)
  have "now \<le> T" "\<forall>secret \<in> set (presented msg). TokenId_from_token sha256 secret \<noteq> k
       \<and> Some (TokenId_from_token sha256 secret) \<noteq> lease_recovery_id l"
    using assms(4) Asks by (simp_all add: stranger_def)
  from handled_other [OF assms(1-3) this(1) run this(2)] show thesis
    using that [of l] assms(3) by (simp add: claim_kept_def)
next
  case (Ends k' s now)
  obtain res where run: "end_registration sj tf k' s now st w = (res, st', w')"
    using assms(5) Ends by (metis serve.simps(2) fst_conv snd_conv prod.collapse)
  have own: "k' = k \<longrightarrow> T < saturating_add_u64 now GRACE_MS" using assms(4) Ends by (simp add: stranger_def)
  from run show thesis
  proof (cases rule: end_registration_cases)
    case stale
    then show thesis using that [of l] assms(1-3) by (simp add: claim_kept_def)
  next
    case (ended t r)
    then have t: "st_leases st' = t" by simp
    obtain l' where "hm_get (leases t) k = Some l'" "claim_kept l l'" "\<not> lease_expired T l'"
      by (rule end_other [OF assms(2,3) ended(1) own])
    then show thesis using that end_session_inv [OF assms(1) ended(1)] t by blast
  qed
next
  case (Refreshes now)
  obtain res where run: "refresh_and_save sj tf now st w = (res, st', w')"
    using assms(5) Refreshes by (metis serve.simps(3) fst_conv snd_conv prod.collapse)
  then have t: "st_leases st' = reap_expired now (st_leases st)"
    by (auto simp: refresh_and_save_def Let_def split: sum.splits prod.splits)
  have "now \<le> T" using assms(4) Refreshes by (simp add: stranger_def)
  then show thesis
    using that [of l] reap_expired_inv [OF assms(1)] unexpired_reaped [OF assms(1-3)] assms(3) t
    by (simp add: claim_kept_def)
next
  case (Fails fs)
  then show thesis using that [of l] assms by (simp add: claim_kept_def)
qed

lemma serve_all_keeps:
  assumes "lease_inv (st_leases st)" and "hm_get (leases (st_leases st)) k = Some l" and "\<not> lease_expired T l"
    and "list_all (stranger sha256 k (lease_recovery_id l) T) es"
    and "fold (serve sj tf sha256 error_text) es (st, w) = (st', w')"
  obtains l' where "lease_inv (st_leases st')" "hm_get (leases (st_leases st')) k = Some l'" "claim_kept l l'"
    "\<not> lease_expired T l'"
  using assms
proof (induction es arbitrary: st w l thesis)
  case Nil
  then show ?case by (simp add: claim_kept_def)
next
  case (Cons e es)
  obtain st1 w1 where one: "serve sj tf sha256 error_text e (st, w) = (st1, w1)" by fastforce
  have own: "stranger sha256 k (lease_recovery_id l) T e" using Cons.prems(5) by simp
  obtain l1 where l1: "lease_inv (st_leases st1)" "hm_get (leases (st_leases st1)) k = Some l1"
    "claim_kept l l1" "\<not> lease_expired T l1"
    by (rule serve_keeps [OF Cons.prems(2-4) own one])
  have rest: "list_all (stranger sha256 k (lease_recovery_id l1) T) es"
    using Cons.prems(5) claim_kept_parts [OF l1(3)] by simp
  have run: "fold (serve sj tf sha256 error_text) es (st1, w1) = (st', w')"
    using Cons.prems(6) one by simp
  obtain l' where l': "lease_inv (st_leases st')" "hm_get (leases (st_leases st')) k = Some l'"
    "claim_kept l1 l'" "\<not> lease_expired T l'"
    by (rule Cons.IH [OF _ l1(1,2,4) rest run])
  show ?case by (rule Cons.prems(1) [OF l'(1,2) claim_kept_trans [OF l1(3) l'(3)] l'(4)])
qed

section \<open>What the relay hands out\<close>

definition granted_port :: "ControlMessage \<Rightarrow> u16 option" where
  "granted_port reply =
     (case reply of
        TunnelReady p \<Rightarrow> Some p
      | IdentityRotated p \<Rightarrow> p
      | IdentityRecovered p \<Rightarrow> Some p
      | _ \<Rightarrow> None)"

text \<open>What a recovery that is granted leaves in the table.\<close>

lemma recover_granted:
  assumes inv: "lease_inv (st_leases st)"
    and run: "recover sj tf sha256 secret b ip now st w = (Inr (port, closing), st', w')"
  obtains (repeated) lease where "st' = st" "hm_get (leases (st_leases st)) (TokenId_from_token sha256 b) = Some lease"
      "lease_port lease = port" "lease_recovery_id lease = Some (TokenId_from_token sha256 secret)"
      "\<not> lease_expired now lease"
  | (moved) old l where "hm_get (leases (st_leases st)) old = Some l" "old \<noteq> TokenId_from_token sha256 b"
      "lease_port l = port" "lease_recovery_id l = Some (TokenId_from_token sha256 secret)"
      "st_leases st' = (reap_expired now (st_leases st))\<lparr>leases := hm_insert (TokenId_from_token sha256 b)
        \<lparr>lease_port = port, lease_last_ip = Some ip,
         lease_retired_token_ids = push_retired (lease_retired_token_ids l) old,
         lease_recovery_id = lease_recovery_id l,
         lease_status = Grace (saturating_add_u64 now GRACE_MS)\<rparr>
        (hm_remove old (leases (reap_expired now (st_leases st))))\<rparr>"
      "active_connections st' = snd (take_displaced
         (case lease_status l of Active s \<Rightarrow> Some (old, s) | Grace _ \<Rightarrow> None) (active_connections st))"
proof -
  let ?u = "reap_expired now (st_leases st)"
  have inv_u: "lease_inv ?u" by (rule reap_expired_inv [OF inv])
  from run show thesis
  proof (cases rule: recover_cases)
    case (unchanged rec t)
    from unchanged(6) show thesis
    proof (cases rule: recover_claim_cases)
      case (repeated l)
      have g: "hm_get (leases ?u) (TokenId_from_token sha256 b) = Some l"
        using repeated(1,2) lease_inv_get [OF inv_u] by simp
      have "\<not> lease_expired now l" using g by (auto simp: get_reap [OF inv] split: option.splits if_splits)
      then show thesis
        using that(1) [of l] reaped_claim [OF inv g] repeated(3,4) unchanged(2,3) by simp
    qed (use unchanged(5) in simp_all)
  next
    case (moved rec t r)
    have ok: "is_ok r" "recovered_port rec = port" using moved(5) by (auto split: sum.splits)
    have st': "st_leases st' = t"
      "active_connections st' = snd (take_displaced (displaced rec) (active_connections st))"
      using moved(6) ok by (auto simp: is_ok_iff)
    from moved(3) show thesis
    proof (cases rule: recover_claim_cases)
      case (moved u old l)
      have "hm_get (leases ?u) old = Some l" using moved(1,2) lease_inv_get [OF inv_u] by simp
      from reaped_claim [OF inv this] show thesis
        by (rule that(2)) (use moved st' ok(2) in simp_all)
    qed (use \<open>changed rec\<close> in simp_all)
  qed simp_all
qed

lemma granted_to_presenter:
  assumes inv: "lease_inv (st_leases st)"
    and run: "handle_request sj tf sha256 error_text bind c ip now msg st w = (d, st', w')"
    and reply: "decision_reply d = Some m" and port: "granted_port m = Some p"
  obtains token l where "token \<in> set (presented msg)"
    "hm_get (leases (st_leases st')) (TokenId_from_token sha256 token) = Some l" "lease_port l = p"
proof (cases msg)
  case (Register protocol local token fp)
  have served: "\<not> (protocol \<noteq> Tcp \<or> local = 0)"
    using run reply port Register
    by (auto simp: handle_request_def decision_reply_def granted_port_def split: if_splits sum.splits prod.splits)
  then obtain reg where "register_with_recovery sj tf sha256 bind token (Some fp) ip now (Some c) st w
      = (Inr reg, st', w')" "d = Accept reg local"
    using run reply port Register
    by (auto simp: handle_request_def decision_reply_def granted_port_def split: sum.splits prod.splits)
  note r = this(1)
  have p: "reg_public_port reg = p" using \<open>d = Accept reg local\<close> reply port
    by (simp add: decision_reply_def granted_port_def) (auto simp: granted_port_def)
  from r show thesis
  proof (cases rule: register_cases)
    case (registered taken q rest listener s staged u)
    have "owner_of staged q = Some (TokenId_from_token sha256 token)"
      using activate_owner(1) [OF reap_expired_inv [OF inv] registered(5)] by simp
    moreover have "lease_inv staged"
      by (rule activate_with_recovery_inv [OF reap_expired_inv [OF inv] registered(5)])
    ultimately show thesis
      using that [of token] p registered(7,8) Register by (auto simp: owner_of_get presented_def)
  qed simp_all
next
  case (RotateIdentity a b)
  then have "rotate_token sj tf sha256 a b now st w = (Inr (Some p), st', w')"
    using run reply port
    by (auto simp: handle_request_def decision_reply_def granted_port_def split: sum.splits prod.splits)
  from rotate_token_granted [OF inv this] show thesis
    using that [of b] RotateIdentity by (metis presented_def ControlMessage.simps list.set_intros)
next
  case (RecoverIdentity secret b)
  then obtain closing where "recover sj tf sha256 secret b ip now st w = (Inr (p, closing), st', w')"
    using run reply port
    by (auto simp: handle_request_def decision_reply_def granted_port_def split: sum.splits prod.splits)
  then have "\<exists>l. hm_get (leases (st_leases st')) (TokenId_from_token sha256 b) = Some l \<and> lease_port l = p"
    by (cases rule: recover_granted [OF inv]) (auto simp: hm.get_put)
  then show thesis using that [of b] RecoverIdentity by (auto simp: presented_def)
qed (use run reply in \<open>auto simp: handle_request_def decision_reply_def\<close>)

lemma same_port_same_owner:
  assumes "lease_inv t" and "hm_get (leases t) k = Some l" and "hm_get (leases t) k' = Some l'"
    and "lease_port l = lease_port l'"
  shows "k = k'"
  using assms owner_of_get [OF assms(1), of "lease_port l"] by (metis option.inject)

section \<open>Properties\<close>

text \<open>
  C5: nobody can take a claim from a host that keeps its token and its recovery secret to itself: whatever
  requests others send, in any number and order, with tokens, secrets and fingerprints of their choice,
  and whatever system calls fail on the relay's disk, the claim stays with the host's identity until it
  expires, with its port, its recovery key, its retired identities and its network; only its session may
  have ended. And no reply to another's request ever hands out the claim's port.
\<close>

theorem strangers_cannot_take_claim:
  assumes "server_env sj tf sha256 p" and "server_reachable sj tf sha256 p (st, w)"
    and "hm_get (leases (st_leases st)) k = Some l" and "\<not> lease_expired T l"
    and "list_all (stranger sha256 k (lease_recovery_id l) T) es"
    and "fold (serve sj tf sha256 error_text) es (st, w) = (st', w')"
  shows "(\<exists>l'. hm_get (leases (st_leases st')) k = Some l' \<and> claim_kept l l' \<and> \<not> lease_expired T l')
    \<and> owner_of (st_leases st') (lease_port l) = Some k
    \<and> (stranger sha256 k (lease_recovery_id l) T (Asks msg c ip now bind) \<longrightarrow>
        (case decision_reply (fst (handle_request sj tf sha256 error_text bind c ip now msg st' w')) of
           None \<Rightarrow> True | Some reply \<Rightarrow> granted_port reply \<noteq> Some (lease_port l)))"
proof -
  have inv: "lease_inv (st_leases st)" by (rule server_invD(1) [OF server_reachable_inv [OF assms(1,2)]])
  obtain l' where l': "lease_inv (st_leases st')" "hm_get (leases (st_leases st')) k = Some l'"
    "claim_kept l l'" "\<not> lease_expired T l'"
    by (rule serve_all_keeps [OF inv assms(3-6)])
  note parts = claim_kept_parts [OF l'(3)]
  have "granted_port reply \<noteq> Some (lease_port l)"
    if s: "stranger sha256 k (lease_recovery_id l) T (Asks msg c ip now bind)"
      and d: "decision_reply (fst (handle_request sj tf sha256 error_text bind c ip now msg st' w')) = Some reply"
    for reply
  proof
    assume port: "granted_port reply = Some (lease_port l)"
    obtain d st2 w2 where run: "handle_request sj tf sha256 error_text bind c ip now msg st' w' = (d, st2, w2)"
      by (metis surj_pair)
    have now: "now \<le> T" and foreign: "\<forall>secret \<in> set (presented msg). TokenId_from_token sha256 secret \<noteq> k
        \<and> Some (TokenId_from_token sha256 secret) \<noteq> lease_recovery_id l'"
      using s parts by (simp_all add: stranger_def)
    note kept = handled_other [OF l'(1,2,4) now run foreign]
    obtain token m where m: "token \<in> set (presented msg)"
      "hm_get (leases (st_leases st2)) (TokenId_from_token sha256 token) = Some m" "lease_port m = lease_port l"
      by (rule granted_to_presenter [OF l'(1) run _ port]) (use d run in simp)
    then have "TokenId_from_token sha256 token = k"
      using same_port_same_owner [OF kept(1) m(2) kept(2)] parts by simp
    then show False using foreign m(1) by blast
  qed
  then show ?thesis
    using l' parts owner_of_get [OF l'(1)] by (auto split: option.split)
qed

text \<open>A thief tries a rotation, a recovery and a registration; meanwhile the host's connection breaks.\<close>

definition thefts :: "(u16, nat) traffic list" where
  "thefts =
     [Asks (RotateIdentity [3] [4]) 5 (V4 2) 200 Inr, Asks (RecoverIdentity [3] [4]) 5 (V4 2) 210 Inr,
      Ends (host_id [1]) (SessionId 1) 250, Fails [Fail OtherIo 0], Refreshes 300,
      Asks (Register Tcp 25565 [2] (sha_demo [9])) 6 (V4 2) 310 Inr]"

theorem strangers_cannot_take_claim_witness:
  "owner_of (st_leases (fst (fold (serve wire_serde std_tempfile sha_demo (\<lambda>_. ''refused'')) thefts
      (relay_a1, world_a1)))) 10000 = Some (host_id [1])"
proof -
  let ?l = "\<lparr>lease_port = 10000, lease_last_ip = Some (V4 1), lease_retired_token_ids = [],
    lease_recovery_id = Some (host_id [9]), lease_status = Active (SessionId 1)\<rparr>"
  have g: "hm_get (leases (st_leases relay_a1)) (host_id [1]) = Some ?l" by code_simp
  have strangers: "list_all (stranger sha_demo (host_id [1]) (lease_recovery_id ?l) 1000) thefts" by code_simp
  have "\<not> lease_expired 1000 ?l" by (simp add: lease_expired_def)
  from strangers_cannot_take_claim [OF demo_env relay_a1_reachable g this strangers prod.collapse [symmetric],
      of "\<lambda>_. ''refused''"]
  have "owner_of (st_leases (fst (fold (serve wire_serde std_tempfile sha_demo (\<lambda>_. ''refused'')) thefts
      (relay_a1, world_a1)))) (lease_port ?l) = Some (host_id [1])" by blast
  then show ?thesis by simp
qed

end
