(* ===== verification/Recovery_Dialogue.thy ===== *)
theory Recovery_Dialogue
  imports Strangers
begin

text \<open>
  A recovery against the relay: what a host that lost its identity to a thief has after
  \<^verbatim>\<open>gamenet recover-identity\<close>, and what the thief has.
\<close>

section \<open>A recovery that succeeds\<close>

lemma client_bind_Inr:
  "client_bind m f w n = (Inr y, w'', n'') \<longleftrightarrow>
     (\<exists>x w' n'. m w n = (Inr x, w', n') \<and> f x w' n' = (Inr y, w'', n''))"
  by (auto simp: client_bind_def split: sum.splits prod.splits)

lemma on_net_Inr: "on_net m w n = (Inr x, w', n') \<longleftrightarrow> m n = (Inr x, n') \<and> w' = w"
  by (auto simp: on_net_def split: prod.splits)

lemma recovery_secret_link: "recovery_secret env prompt backup w n = (r, w', n') \<Longrightarrow> n' = n"
  by (auto simp: recovery_secret_def split: if_splits prod.splits sum.splits identity_error.splits io_error.splits)

lemma recover_identity_Ok:
  assumes "quiet_net net"
    and "recover_identity rl net q bc tf rand env prompt host insecure backup w l = (Inr port, w', l')"
  obtains secret from_backup w1 pr w2 w3 where
    "recovery_secret env prompt backup w l = (Inr (secret, from_backup), w1, l)"
    "prepare_recovery tf rand env w1 = (Inr pr, w2)"
    "ask q bc (RecoverIdentity secret (pr_new_token pr)) l = (Ok (IdentityRecovered port), l')"
    "finish_recovery pr w3 = (Inr (), w')"
proof -
  obtain secret from_backup w1 n1 where s: "recovery_secret env prompt backup w l = (Inr (secret, from_backup), w1, n1)"
    and rest: "client_bind (on_files (prepare_recovery tf rand env)) (\<lambda>pending.
       client_bind (on_net (connect_quic rl net host insecure)) (\<lambda>_.
        recover_on_connection q bc tf env pending secret from_backup)) w1 n1 = (Inr port, w', l')"
    using assms(2) by (fastforce simp: recover_identity_def client_bind_Inr)
  have n1: "n1 = l" by (rule recovery_secret_link [OF s])
  obtain pr w2 l2 where p: "prepare_recovery tf rand env w1 = (Inr pr, w2)"
    and c: "connect_quic rl net host insecure l = (Inr (), l2)"
    and run: "recover_on_connection q bc tf env pr secret from_backup w2 l2 = (Inr port, w', l')"
    using rest n1 by (auto simp: client_bind_Inr on_net_Inr on_files_Inr)
  have l2: "l2 = l" using connect_quic_quiet [OF assms(1), of rl host insecure l] c by simp
  obtain response l3 where a: "ask q bc (RecoverIdentity secret (pr_new_token pr)) l = (Inr response, l3)"
    and rest2: "(case response of
         IdentityRecovered public_port \<Rightarrow>
           client_bind
             (if from_backup then on_files (store_recovery tf env secret) else client_result (Ok ()))
             (\<lambda>_. client_bind (on_files (finish_recovery pr)) (\<lambda>_. client_result (Ok public_port)))
       | Error message \<Rightarrow> client_result (Err (RelayRejected message))
       | other \<Rightarrow> client_result (Err (UnexpectedResponse other))) w2 l3 = (Inr port, w', l')"
    using run unfolding l2 recover_on_connection_def client_bind_Inr on_net_Inr by blast
  obtain w3 where "response = IdentityRecovered port" "finish_recovery pr w3 = (Inr (), w')" "l3 = l'"
    using rest2
    by (cases response) (auto simp: client_result_def client_bind_Inr on_files_Inr split: if_splits)
  then show thesis using that s p a n1 by blast
qed

text \<open>What the host's files hold then.\<close>

lemma recovered_files:
  assumes "tempfile_spec tf" and "rand_ok rand" and "prepare_recovery tf rand env w1 = (Inr pr, w2)"
    and "finish_recovery pr w3 = (Inr u, w')"
  shows "files w' (identity_path env) = Some (pr_new_token pr)" and "length (pr_new_token pr) = 32"
proof -
  note prep = prepare_recovery_effect(2) [OF assms(1) identity_path_facts
      assms(3) [unfolded prepare_recovery_def] refl]
  have paths: "pr_path pr = identity_path env" "pr_pending_path pr = identity_pending env" using prep by blast+
  show "length (pr_new_token pr) = 32" using prep assms(2) by blast
  have apart: "pr_pending_path pr \<noteq> pr_path pr" "\<not> temp_name (pr_path pr)" "\<not> temp_name (pr_pending_path pr)"
    using paths pending_apart identity_path_facts(1) by simp_all
  show "files w' (identity_path env) = Some (pr_new_token pr)"
    by (cases rule: finish_recovery_cases [OF assms(4) apart]) (simp_all add: paths)
qed

text \<open>What the relay holds then.\<close>

lemma ask_recovery:
  assumes fit: "texts_fit rs" "length secret = 32" "length b = 32"
    and run: "ask (relay_quic rs) wire_bincode (RecoverIdentity secret b) l = (Ok (IdentityRecovered port), l')"
  obtains closing v where "recover (rs_serde rs) (rs_tempfile rs) (rs_sha256 rs) secret b (rs_peer_ip rs)
      (next_now l) (lk_state l) (lk_world l) = (Inr (port, closing), lk_state l', v)"
proof -
  obtain d st v where h: "handles rs (next_now l) (RecoverIdentity secret b) (lk_state l) (lk_world l) = (d, st, v)"
    by (metis surj_pair)
  obtain l1 where a: "ask (relay_quic rs) wire_bincode (RecoverIdentity secret b) l
      = (outcome (next_fate l) (decision_reply d), l1)"
    "lk_state l1 = (if next_fate l = RequestLost then lk_state l else st)"
    by (rule ask_relay [OF fits_recover [OF fit(2,3)] h decision_reply_fits [OF fit(1) h]])
  then have "decision_reply d = Some (IdentityRecovered port)" "next_fate l \<noteq> RequestLost" "lk_state l' = st"
    using run by (auto simp: outcome_def split: fate.splits option.splits if_splits)
  then show thesis
    using h that by (auto simp: handles_def handle_request_def decision_reply_def split: sum.splits prod.splits)
qed

lemma set_push_retired_last: "old \<in> set (push_retired ids old)"
  by (cases ids) (auto simp: push_retired_def Let_def const_defs)

text \<open>Whoever else had the port has nothing left.\<close>

lemma recovered_claim:
  assumes inv: "state_inv st"
    and run: "recover sj tf sha256 secret b ip now st v = (Inr (port, closing), st', v')"
    and thief: "hm_get (leases (st_leases st)) thief = Some stolen" "lease_port stolen = port"
      "thief \<noteq> TokenId_from_token sha256 b"
  obtains lease where "hm_get (leases (st_leases st')) (TokenId_from_token sha256 b) = Some lease"
    "lease_port lease = port" "thief \<in> set (lease_retired_token_ids lease)" "lease_inv (st_leases st')"
    "hm_get (leases (st_leases st')) thief = None" "hm_get (active_connections st') thief = None"
proof -
  let ?b = "TokenId_from_token sha256 b" and ?u = "reap_expired now (st_leases st)"
  have lease: "lease_inv (st_leases st)" "conns_ok (st_leases st) (active_connections st)"
    using inv by (simp_all add: state_inv_def)
  show thesis
  proof (cases rule: recover_granted [OF lease(1) run])
    case (1 l)
    then have "thief = ?b" using same_port_same_owner [OF lease(1) thief(1)] thief(2) by simp
    then show thesis using thief(3) by blast
  next
    case (2 old l)
    note moved = 2
    have old: "old = thief" using same_port_same_owner [OF lease(1) moved(1) thief(1)] moved(3) thief(2) by simp
    have "active_session (st_leases st) old = (case lease_status l of Active s \<Rightarrow> Some s | Grace _ \<Rightarrow> None)"
      using moved(1) by (simp add: active_session_def)
    then have "(case lease_status l of Active s \<Rightarrow> Some (old, s) | Grace _ \<Rightarrow> None)
        = map_option (Pair old) (active_session (st_leases st) old)" by (simp split: LeaseStatus.split)
    from take_displaced_conns [OF lease(2) this]
    have conns: "hm_get (active_connections st') thief = None" using moved(6) old by (simp add: hm.get_remove)
    have "lease_inv (st_leases st')"
      using run
      by (cases rule: recover_cases) (auto split: sum.splits intro: recover_claim_inv [OF lease(1)] lease(1))
    moreover have "hm_get (leases (st_leases st')) thief = None"
      unfolding moved(5) using thief(3) old by (simp add: hm.get_move)
    ultimately show thesis
      using that conns unfolding moved(5) by (auto simp: hm.get_move old set_push_retired_last)
  qed
qed

section \<open>The property\<close>

text \<open>
  C6: a recovery takes a port back from a thief: when \<^verbatim>\<open>recover-identity\<close> returns a port, the host's
  identity file holds a token whose hash owns the port's claim on the relay; another identity that had
  the port has no claim, no session and no connection there any more and is turned away as long as the
  claim lives; and whatever is sent to the relay afterwards with that old token or any other, by anybody
  who has neither the new token nor the recovery secret, the port stays with the host's identity.
\<close>

theorem recovery_evicts_thief:
  assumes "tempfile_spec tf" and "rand_ok rand" and "quiet_net net" and "texts_fit rs"
    and "state_inv (lk_state l)"
    and "recover_identity rl net (relay_quic rs) wire_bincode tf rand env prompt host insecure backup w l
      = (Ok port, w', l')"
    and "hm_get (leases (link_table l)) thief = Some stolen" and "lease_port stolen = port"
    and "\<And>new. files w' (identity_path env) = Some new \<Longrightarrow> thief \<noteq> key_of rs new"
  shows "\<exists>new lease. files w' (identity_path env) = Some new \<and> length new = 32
    \<and> hm_get (leases (link_table l')) (key_of rs new) = Some lease \<and> lease_port lease = port
    \<and> hm_get (leases (link_table l')) thief = None \<and> active_session (link_table l') thief = None
    \<and> hm_get (active_connections (lk_state l')) thief = None
    \<and> (\<not> lease_expired now lease \<longrightarrow> fst (candidate_ports thief ip now (link_table l')) = Inl ClaimRotated)
    \<and> (\<not> lease_expired T lease \<and> list_all (stranger (rs_sha256 rs) (key_of rs new) (lease_recovery_id lease) T) es
        \<and> fold (serve (rs_serde rs) (rs_tempfile rs) (rs_sha256 rs) (rs_error_text rs)) es
            (lk_state l', lk_world l') = (st, v) \<longrightarrow>
        owner_of (st_leases st) port = Some (key_of rs new))"
proof -
  obtain secret from_backup w1 pr w2 w3 where s:
    "recovery_secret env prompt backup w l = (Inr (secret, from_backup), w1, l)"
    and p: "prepare_recovery tf rand env w1 = (Inr pr, w2)"
    and a: "ask (relay_quic rs) wire_bincode (RecoverIdentity secret (pr_new_token pr)) l
      = (Ok (IdentityRecovered port), l')"
    and f: "finish_recovery pr w3 = (Inr (), w')"
    by (rule recover_identity_Ok [OF assms(3,6)])
  let ?new = "pr_new_token pr"
  note files = recovered_files [OF assms(1,2) p f]
  obtain closing v1 where r: "recover (rs_serde rs) (rs_tempfile rs) (rs_sha256 rs) secret ?new (rs_peer_ip rs)
      (next_now l) (lk_state l) (lk_world l) = (Inr (port, closing), lk_state l', v1)"
    by (rule ask_recovery [OF assms(4) recovery_secret_length [OF s] files(2) a])
  have apart: "thief \<noteq> key_of rs ?new" by (rule assms(9) [OF files(1)])
  obtain lease where lease: "hm_get (leases (link_table l')) (key_of rs ?new) = Some lease"
    "lease_port lease = port" "thief \<in> set (lease_retired_token_ids lease)" "lease_inv (link_table l')"
    "hm_get (leases (link_table l')) thief = None" "hm_get (active_connections (lk_state l')) thief = None"
    by (rule recovered_claim [OF assms(5) r assms(7,8) apart])
  have "fst (candidate_ports thief ip now (link_table l')) = Inl ClaimRotated" if "\<not> lease_expired now lease"
    by (rule retired_rejected(1) [OF lease(4,1) that lease(3)])
  moreover have "owner_of (st_leases st) port = Some (key_of rs ?new)"
    if live: "\<not> lease_expired T lease"
      and es: "list_all (stranger (rs_sha256 rs) (key_of rs ?new) (lease_recovery_id lease) T) es"
      and run: "fold (serve (rs_serde rs) (rs_tempfile rs) (rs_sha256 rs) (rs_error_text rs)) es
        (lk_state l', lk_world l') = (st, v)"
  proof -
    obtain l2 where l2: "lease_inv (st_leases st)" "hm_get (leases (st_leases st)) (key_of rs ?new) = Some l2"
      "claim_kept lease l2" "\<not> lease_expired T l2"
      by (rule serve_all_keeps [OF lease(4,1) live es run])
    then show ?thesis using claim_kept_parts [OF l2(3)] lease(2) owner_of_get [OF l2(1)] by simp
  qed
  moreover have "active_session (link_table l') thief = None" using lease(5) by (simp add: active_session_def)
  ultimately show ?thesis using files lease by blast
qed

text \<open>The thief hosts with the stolen token when the host recovers, and then tries it again.\<close>

definition secret_a :: "u8 list" where
  "secret_a = replicate 32 5"

definition home_robbed :: World where
  "home_robbed = home_a\<lparr>nodes := (nodes home_a)(recovery_path home_env \<mapsto> Regular secret_a OWNER_ONLY)\<rparr>"

definition link_robbed :: "nat link" where
  "link_robbed = link_a\<lparr>lk_state :=
     \<lparr>st_leases = snd (activate_with_recovery (host_id id_a) (Some (host_id secret_a)) (V4 2) 10000 100 LeaseTable_new),
      st_store = \<lparr>store_path = state_path\<rparr>, persistence_healthy = True,
      active_connections = [(host_id id_a, SessionId 1, 7)]\<rparr>, lk_fates := [], lk_clock := [300]\<rparr>"

definition recovery_ab :: PendingRecovery where
  "recovery_ab =
     \<lparr>pr_path = id_path, pr_pending_path = identity_pending home_env, pr_old_token = Some id_a, pr_new_token = id_b\<rparr>"

lemma robbed_files:
  obtains w1 w2 w' where "read_recovery home_env home_robbed = (Inr secret_a, w1)"
    "prepare_recovery std_tempfile (Some id_b) home_env w1 = (Inr recovery_ab, w2)"
    "finish_recovery recovery_ab w2 = (Inr (), w')" "files w' id_path = Some id_b"
proof -
  let ?r = "read_recovery home_env home_robbed"
  let ?p = "prepare_recovery std_tempfile (Some id_b) home_env (snd ?r)"
  let ?f = "finish_recovery recovery_ab (snd ?p)"
  have "fst ?r = Inr secret_a" by code_simp
  moreover have "fst ?p = Inr recovery_ab" by code_simp
  moreover have "fst ?f = Inr ()" by code_simp
  moreover have "files (snd ?f) id_path = Some id_b" by code_simp
  ultimately show thesis using that [of "snd ?r" "snd ?p" "snd ?f"] by (metis prod.collapse)
qed

lemma robbed_granted:
  obtains closing st v where "recover wire_serde std_tempfile sha_demo secret_a id_b (V4 1) 300
      (lk_state link_robbed) (lk_world link_robbed) = (Inr (10000, closing), st, v)"
proof -
  let ?r = "recover wire_serde std_tempfile sha_demo secret_a id_b (V4 1) 300
      (lk_state link_robbed) (lk_world link_robbed)"
  have "(case fst ?r of Inl _ \<Rightarrow> False | Inr x \<Rightarrow> fst x = 10000)" by code_simp
  then show thesis using that by (cases ?r) (auto split: sum.splits)
qed

lemma robbed_recovers:
  obtains w' l' where "recover_identity demo_rustls demo_net (relay_quic demo_site) wire_bincode std_tempfile
      (Some id_b) home_env prompt ''relay'' True False home_robbed link_robbed = (Ok 10000, w', l')"
    "files w' id_path = Some id_b"
proof -
  obtain w1 w2 w' where f: "read_recovery home_env home_robbed = (Inr secret_a, w1)"
    "prepare_recovery std_tempfile (Some id_b) home_env w1 = (Inr recovery_ab, w2)"
    "finish_recovery recovery_ab w2 = (Inr (), w')" "files w' id_path = Some id_b" by (rule robbed_files)
  obtain closing st v where g: "recover wire_serde std_tempfile sha_demo secret_a id_b (V4 1) 300
      (lk_state link_robbed) (lk_world link_robbed) = (Inr (10000, closing), st, v)" by (rule robbed_granted)
  have ahead: "next_now link_robbed = 300" "next_fate link_robbed = Delivered"
    by (simp_all add: link_robbed_def next_now_def next_fate_def)
  have h: "handles demo_site (next_now link_robbed) (RecoverIdentity secret_a id_b) (lk_state link_robbed)
      (lk_world link_robbed) = (Answer (IdentityRecovered 10000) closing, st, v)"
    using g by (simp add: handles_def handle_request_def demo_site_def ahead)
  have len: "length secret_a = 32" "length id_b = 32" by (simp_all add: secret_a_def id_b_def)
  obtain l' where a: "ask (relay_quic demo_site) wire_bincode (RecoverIdentity secret_a id_b) link_robbed
      = (outcome (next_fate link_robbed) (Some (IdentityRecovered 10000)), l')"
    using ask_relay [OF fits_recover [OF len] h decision_reply_fits [OF demo_texts h]]
    by (auto simp: decision_reply_def)
  then have a: "ask (relay_quic demo_site) wire_bincode (RecoverIdentity secret_a id_b) link_robbed
      = (Ok (IdentityRecovered 10000), l')"
    by (simp add: ahead outcome_def)
  have token: "pr_new_token recovery_ab = id_b" by (simp add: recovery_ab_def)
  show thesis
    by (rule that [of w' l', OF _ f(4)])
      (simp add: recover_identity_def recovery_secret_def recover_on_connection_def client_bind_def on_files_def
        on_net_def map_err_def client_result_def demo_connects f a token)
qed

lemma robbed_state: "state_inv (lk_state link_robbed)"
proof -
  let ?t = "link_table link_robbed"
  have "lease_inv ?t"
    using activate_with_recovery_inv [OF lease_inv_new prod.collapse [symmetric]] by (simp add: link_robbed_def)
  moreover have "map (\<lambda>(k, l). (k, lease_status l)) (leases ?t) = [(host_id id_a, Active (SessionId 1))]"
    by code_simp
  then obtain l where "leases ?t = [(host_id id_a, l)]" "lease_status l = Active (SessionId 1)" by auto
  then have "conns_ok ?t (active_connections (lk_state link_robbed))"
    by (simp add: conns_ok_def active_session_def hm_get_def link_robbed_def)
  ultimately show ?thesis by (simp add: state_inv_def)
qed

theorem recovery_evicts_thief_witness:
  "\<exists>w' l'. recover_identity demo_rustls demo_net (relay_quic demo_site) wire_bincode std_tempfile (Some id_b)
      home_env (Err NotFound) ''relay'' True False home_robbed link_robbed = (Ok 10000, w', l')
    \<and> files w' id_path = Some id_b \<and> hm_get (leases (link_table l')) (host_id id_a) = None
    \<and> map_option lease_port (hm_get (leases (link_table l')) (host_id id_b)) = Some 10000"
proof -
  obtain w' l' where run: "recover_identity demo_rustls demo_net (relay_quic demo_site) wire_bincode std_tempfile
      (Some id_b) home_env (Err NotFound) ''relay'' True False home_robbed link_robbed = (Ok 10000, w', l')"
    "files w' id_path = Some id_b" by (rule robbed_recovers)
  have "map (\<lambda>(k, l). (k, lease_port l)) (leases (link_table link_robbed)) = [(host_id id_a, 10000)]" by code_simp
  then obtain stolen where stolen: "hm_get (leases (link_table link_robbed)) (host_id id_a) = Some stolen"
    "lease_port stolen = 10000" by (auto simp: hm_get_def)
  have "rand_ok (Some id_b)" by (simp add: rand_ok_def id_b_def)
  moreover have "host_id id_a \<noteq> host_id id_b" by code_simp
  then have "host_id id_a \<noteq> key_of demo_site new" if "files w' (identity_path home_env) = Some new" for new
    using that run(2) by (simp add: id_path_def host_id_def demo_site_def)
  ultimately have "\<exists>new lease. files w' (identity_path home_env) = Some new
      \<and> hm_get (leases (link_table l')) (key_of demo_site new) = Some lease \<and> lease_port lease = 10000
      \<and> hm_get (leases (link_table l')) (host_id id_a) = None"
    using recovery_evicts_thief [OF std_tf.tempfile_spec_axioms _ demo_quiet demo_texts robbed_state run(1) stolen]
    by blast
  then show ?thesis using run by (auto simp: id_path_def host_id_def demo_site_def)
qed

end
