(* ===== verification/Host_Command.thy ===== *)
theory Host_Command
  imports Client
begin

text \<open>
  The host command of \<^verbatim>\<open>crates/cli/src/main.rs\<close>: the client hosts until its connection is lost, and
  then reconnects for ever, waiting longer after each failed attempt. An attempt's random bytes and the
  events of the session it opens are given for each attempt; the log records what the loop waits for
  and what its attempts give. \<open>connect\<close> is \<^verbatim>\<open>AgentTunnel::connect\<close> for the command's server and port.
\<close>

section \<open>The loop\<close>

datatype host_event = Slept Duration | Reconnected AgentTunnel | ReconnectFailed client_error

type_synonym attempt = "u8 list option \<times> u8 list option \<times> agent_event list"

text \<open>
  Sleep, connect, and host; a lost connection starts over with the first delay. When the attempts are
  used up the loop still waits (\<open>None\<close>), or hosts the tunnel it has.
\<close>

fun host_retry ::
  "(u8 list option \<Rightarrow> u8 list option \<Rightarrow> ('n, AgentTunnel) client) \<Rightarrow> Duration \<Rightarrow> attempt list \<Rightarrow> World \<Rightarrow> 'n
    \<Rightarrow> host_event list \<times> AgentTunnel option \<times> World \<times> 'n" where
  "host_retry connect delay [] w n = ([Slept delay], None, w, n)"
| "host_retry connect delay ((rand, rand', events) # attempts) w n =
     (case connect rand rand' w n of
        (Inl error, w', n') \<Rightarrow>
          (case host_retry connect (next_retry_delay delay) attempts w' n' of
             (log, s) \<Rightarrow> (Slept delay # ReconnectFailed error # log, s))
      | (Inr tunnel, w', n') \<Rightarrow>
          (case run_agent tunnel events of
             (running, None) \<Rightarrow> ([Slept delay, Reconnected tunnel], Some running, w', n')
           | (_, Some _) \<Rightarrow>
               (case host_retry connect (from_secs 1) attempts w' n' of
                  (log, s) \<Rightarrow> (Slept delay # Reconnected tunnel # log, s))))"

definition host_loop ::
  "(u8 list option \<Rightarrow> u8 list option \<Rightarrow> ('n, AgentTunnel) client) \<Rightarrow> AgentTunnel \<Rightarrow> agent_event list
    \<Rightarrow> attempt list \<Rightarrow> World \<Rightarrow> 'n \<Rightarrow> host_event list \<times> AgentTunnel option \<times> World \<times> 'n" where
  "host_loop connect tunnel events attempts w n =
     (case run_agent tunnel events of
        (running, None) \<Rightarrow> ([], Some running, w, n)
      | (_, Some _) \<Rightarrow> host_retry connect (from_secs 1) attempts w n)"

text \<open>The command: the port, the first connection, whose failure ends it, and the loop.\<close>

definition host_command ::
  "('cert, 'key, 'root, 'alg) rustls \<Rightarrow> ('addr, 'root, 'alg, 'n) network \<Rightarrow> 'n quic \<Rightarrow> bincode
    \<Rightarrow> tempfile \<Rightarrow> (u8 list \<Rightarrow> u8 list) \<Rightarrow> (string \<Rightarrow> path option) \<Rightarrow> string option \<Rightarrow> u16 option \<Rightarrow> string
    \<Rightarrow> bool \<Rightarrow> attempt \<Rightarrow> attempt list \<Rightarrow> World \<Rightarrow> 'n
    \<Rightarrow> (command_error, host_event list \<times> AgentTunnel option) result \<times> World \<times> 'n" where
  "host_command rl net q bc tf sha256 env game port server insecure first attempts w n =
     (case local_port_for game port of
        Inl e \<Rightarrow> (Err (CommandPort e), w, n)
      | Inr local_port \<Rightarrow>
          (let connect = (\<lambda>rand rand'. connect_agent rl net q bc tf sha256 rand rand' env server local_port insecure)
           in case first of
                (rand, rand', events) \<Rightarrow>
                  (case connect rand rand' w n of
                     (Inl e, w', n') \<Rightarrow> (Err (CommandClient e), w', n')
                   | (Inr tunnel, w', n') \<Rightarrow>
                       (case host_loop connect tunnel events attempts w' n' of
                          (log, s, w'', n'') \<Rightarrow> (Ok (log, s), w'', n'')))))"

section \<open>The delays\<close>

text \<open>
  The delays the loop is to sleep for a log: one second after a connection, and after a failed attempt
  the next one.
\<close>

fun delays_follow :: "Duration \<Rightarrow> host_event list \<Rightarrow> bool" where
  "delays_follow d [] = True"
| "delays_follow d (Slept x # log) = (x = d \<and> delays_follow d log)"
| "delays_follow d (Reconnected _ # log) = delays_follow (from_secs 1) log"
| "delays_follow d (ReconnectFailed _ # log) = delays_follow (next_retry_delay d) log"

lemma host_retry_delays: "delays_follow delay (fst (host_retry connect delay attempts w n))"
  by (induction connect delay attempts w n rule: host_retry.induct)
    (auto split: prod.split sum.split option.split)

lemma host_loop_delays: "delays_follow (from_secs 1) (fst (host_loop connect tunnel events attempts w n))"
  using host_retry_delays by (auto simp: host_loop_def split: prod.split option.split)

text \<open>A run of failed attempts, and the connection that ends it.\<close>

lemma host_retry_failed:
  assumes "connect rand rand' w n = (Inl e, w', n')"
    and "host_retry connect (next_retry_delay delay) attempts w' n' = (log, s)"
  shows "host_retry connect delay ((rand, rand', events) # attempts) w n
    = (Slept delay # ReconnectFailed e # log, s)"
  using assms by simp

lemma host_retry_connected:
  assumes "connect rand rand' w n = (Inr tunnel, w', n')"
  shows "host_retry connect delay ((rand, rand', []) # attempts) w n
    = ([Slept delay, Reconnected tunnel], Some tunnel, w', n')"
  using assms by simp

lemma host_loop_lost:
  assumes "run_agent tunnel events = (t, Some rest)"
  shows "host_loop connect tunnel events attempts w n = host_retry connect (from_secs 1) attempts w n"
  using assms by (simp add: host_loop_def)

lemma delays_follow_bounds:
  "delays_follow (from_secs (of_nat k)) log \<Longrightarrow> 1 \<le> k \<Longrightarrow> k \<le> 15 \<Longrightarrow> Slept d \<in> set log
    \<Longrightarrow> \<exists>j. d = from_secs (of_nat j) \<and> 1 \<le> j \<and> j \<le> 15"
proof (induction log arbitrary: k)
  case (Cons x log)
  note one = Cons.IH [of 1, unfolded of_nat_1]
  show ?case
  proof (cases x)
    case (Slept y)
    then show ?thesis using Cons by auto
  next
    case (Reconnected t)
    then show ?thesis using one Cons.prems by simp
  next
    case (ReconnectFailed e)
    have "delays_follow (from_secs (of_nat (min 15 (2 * k)))) log"
      using Cons.prems(1,3) ReconnectFailed next_retry_delay_secs [of k] by simp
    from Cons.IH [OF this] Cons.prems(2-4) ReconnectFailed show ?thesis by simp
  qed
qed simp

end
