(* ===== verification/Host_Properties.thy ===== *)
theory Host_Properties
  imports Host_Command Dialogue_Properties
begin

text \<open>
  The host command against the relay: a host that lost its connection reconnects as the identity of its
  files and gets its port back.
\<close>

section \<open>One reconnection\<close>













section \<open>The loop\<close>




section \<open>Attempts on the clock\<close>





section \<open>The properties\<close>












end
