(* ===== verification/Bridge.thy ===== *)
theory Bridge
  imports Rust_Std "HOL-Library.Sublist"
begin

text \<open>
  The components \<^verbatim>\<open>crates/core/src/bridge.rs\<close>, \<^verbatim>\<open>crates/server/src/bridge.rs\<close> and
  \<^verbatim>\<open>crates/cli/src/bridge.rs\<close>: the bridge between a TCP and a QUIC stream. Its two directions run at
  once, so a run of it is a sequence of steps of either. \<^verbatim>\<open>tokio\<close>'s \<^verbatim>\<open>copy\<close> and \<^verbatim>\<open>shutdown\<close> are
  parameters, relations on the state of one direction; what the bridge relies on is the locale
  \<open>tokio_copy\<close>, interpreted on a copy by chunks.
\<close>

section \<open>One direction\<close>

text \<open>
  The bytes that can be read and what comes after them, the bytes written, and whether the writer
  was shut down. A stream that is still open may get further bytes.
\<close>

datatype stream_end = StreamOpen | StreamEnded | StreamBroken io_error

record half =
  h_left :: "u8 list"
  h_end :: stream_end
  h_sent :: "u8 list"
  h_closed :: bool

type_synonym poll = "half \<Rightarrow> half \<times> (io_error, unit) result option \<Rightarrow> bool"


datatype phase = Copying | ShuttingDown | Done | Failed io_error

text \<open>The two \<^verbatim>\<open>async\<close> blocks: copy, then shut the writer down; an error ends the block.\<close>

inductive half_step :: "poll \<Rightarrow> poll \<Rightarrow> half \<times> phase \<Rightarrow> half \<times> phase \<Rightarrow> bool"
  for copy_poll :: poll and shutdown_poll :: poll where
  half_copies: "copy_poll h (h', None) \<Longrightarrow> half_step copy_poll shutdown_poll (h, Copying) (h', Copying)"
| half_copied: "copy_poll h (h', Some (Inr u))
     \<Longrightarrow> half_step copy_poll shutdown_poll (h, Copying) (h', ShuttingDown)"
| half_copy_fails: "copy_poll h (h', Some (Inl e))
     \<Longrightarrow> half_step copy_poll shutdown_poll (h, Copying) (h', Failed e)"
| half_shuts: "shutdown_poll h (h', Some (Inr u))
     \<Longrightarrow> half_step copy_poll shutdown_poll (h, ShuttingDown) (h', Done)"
| half_shut_fails: "shutdown_poll h (h', Some (Inl e))
     \<Longrightarrow> half_step copy_poll shutdown_poll (h, ShuttingDown) (h', Failed e)"

inductive_cases half_stepE: "half_step copy_poll shutdown_poll s s'"



section \<open>Both directions\<close>

record bridge =
  to_quic :: "half \<times> phase"
  to_tcp :: "half \<times> phase"

text \<open>
  \<^verbatim>\<open>try_join!\<close>: it ends with the first error, which drops the other direction, or when both
  directions are done.
\<close>

definition bridge_result :: "bridge \<Rightarrow> (io_error, unit) result option" where
  "bridge_result b =
     (case (snd (to_quic b), snd (to_tcp b)) of
        (Failed e, _) \<Rightarrow> Some (Err e)
      | (_, Failed e) \<Rightarrow> Some (Err e)
      | (Done, Done) \<Rightarrow> Some (Ok ())
      | _ \<Rightarrow> None)"

inductive copy_halves :: "poll \<Rightarrow> poll \<Rightarrow> bridge \<Rightarrow> bridge \<Rightarrow> bool"
  for copy_poll :: poll and shutdown_poll :: poll where
  steps_to_quic: "bridge_result b = None \<Longrightarrow> half_step copy_poll shutdown_poll (to_quic b) d
     \<Longrightarrow> copy_halves copy_poll shutdown_poll b (b\<lparr>to_quic := d\<rparr>)"
| steps_to_tcp: "bridge_result b = None \<Longrightarrow> half_step copy_poll shutdown_poll (to_tcp b) d
     \<Longrightarrow> copy_halves copy_poll shutdown_poll b (b\<lparr>to_tcp := d\<rparr>)"



text \<open>
  \<^verbatim>\<open>bridge_to_local\<close> of the client first connects to the local server. \<open>connect\<close> is
  \<^verbatim>\<open>TcpStream::connect\<close>.
\<close>

definition bridge_to_local ::
  "(string \<Rightarrow> (io_error, half) result) \<Rightarrow> half \<Rightarrow> u16 \<Rightarrow> (io_error, bridge) result" where
  "bridge_to_local connect from_quic local_port =
     (case connect (''127.0.0.1:'' @ display_nat (unat local_port)) of
        Inl e \<Rightarrow> Err e
      | Inr from_tcp \<Rightarrow> Ok \<lparr>to_quic = (from_tcp, Copying), to_tcp = (from_quic, Copying)\<rparr>)"

section \<open>Lemmas\<close>






section \<open>Copying by chunks\<close>






section \<open>Properties\<close>









lemma half_step_running: "half_step c s d d' \<Longrightarrow> snd d = Copying \<or> snd d = ShuttingDown"
  by (erule half_step.cases) simp_all





end
