(* ===== verification/Tunnel_Path.thy ===== *)
theory Tunnel_Path
  imports Bridge
begin

text \<open>
  A player's connection from end to end: the relay's bridge, the QUIC stream and the host's bridge, one
  after the other and running at once. The player and the game server speak when they like, the stream
  carries what one bridge wrote to the other in pieces of any length, and either may break.
\<close>

section \<open>The path\<close>


abbreviation sent :: "half \<times> phase \<Rightarrow> u8 list" where
  "sent d \<equiv> h_sent (fst d)"

abbreviation end_of :: "half \<times> phase \<Rightarrow> stream_end" where
  "end_of d \<equiv> h_end (fst d)"

abbreviation closed :: "half \<times> phase \<Rightarrow> bool" where
  "closed d \<equiv> h_closed (fst d)"

definition feed :: "u8 list \<Rightarrow> half \<times> phase \<Rightarrow> half \<times> phase" where
  "feed bs d = ((fst d)\<lparr>h_left := h_left (fst d) @ bs\<rparr>, snd d)"

definition set_end :: "stream_end \<Rightarrow> half \<times> phase \<Rightarrow> half \<times> phase" where
  "set_end e d = ((fst d)\<lparr>h_end := e\<rparr>, snd d)"







section \<open>One direction of the path\<close>




lemma feed_parts [simp]: "sent (feed bs d) = sent d" "end_of (feed bs d) = end_of d" "closed (feed bs d) = closed d"
  by (simp_all add: feed_def)

lemma set_end_parts [simp]: "sent (set_end e d) = sent d" "end_of (set_end e d) = e" "closed (set_end e d) = closed d"
  by (simp_all add: set_end_def)














section \<open>The property\<close>











end
