(* ===== verification/Spec2Isabelle.thy ===== *)
theory Spec2Isabelle
  imports Server_Properties Identity_Properties Windows_Acl Recovery_Dialogue Host_Properties Tunnel_Path
begin

text \<open>
  A verification library of GameNet, which exposes a TCP game server behind a public relay.

  \<^bold>\<open>The program.\<close> A host runs the CLI (\<^verbatim>\<open>crates/cli\<close>). It keeps an identity token and a recovery key in
  files, connects to the relay over QUIC and registers. The relay (\<^verbatim>\<open>crates/server\<close>) gives the identity
  a claim on a TCP port, listens there and forwards each player over a QUIC stream to the host, which
  forwards it to the game server. A claim outlives its connection by five minutes; it can be handed to
  another identity by a rotation, with the old token, or by a recovery, with the recovery key. The relay
  keeps its claims in a file and grants nothing it could not save. \<^verbatim>\<open>crates/core\<close> holds what both sides
  share: messages and their frames, identity files, TLS configurations, and the bridge between streams.

  \<^bold>\<open>The theories and the files they model.\<close> State is passed explicitly; an error is the left of a sum.
    \<^item> \<open>Prelude\<close>, \<open>Rust_Std\<close>: fact collections, the recurring interfaces as locales (finite maps, invariants
      of a transition system, forward simulations, codecs), and the standard library: checked and saturating
      \<open>u64\<close> arithmetic, \<^verbatim>\<open>HashMap\<close> as an association list, addresses, hex digits, UTF-8, durations.
    \<^item> \<open>Host_Admission\<close>: \<^verbatim>\<open>server/src/host_admission.rs\<close>.
    \<^item> \<open>Lease_Table\<close> (every operation of \<^verbatim>\<open>server/src/lease.rs\<close>), \<open>Lease_Invariant\<close>, \<open>Lease_Restore\<close>
      (snapshot and restore), \<open>Lease_System\<close> (the table as a transition system, and the abstract registry of
      port owners it refines), \<open>Lease_Properties\<close>.
    \<^item> \<open>File_System\<close>: \<^verbatim>\<open>std::fs\<close> on a map of nodes with a list of faults to come, so that every call may
      fail, and the \<^verbatim>\<open>tempfile\<close> interface; \<open>Lease_Store\<close>: \<^verbatim>\<open>server/src/lease_store.rs\<close>; \<open>Wire_Format\<close>: a
      byte format for the instances; \<open>Store_Properties\<close>.
    \<^item> \<open>Server_State\<close>: \<^verbatim>\<open>server/src/state.rs\<close>, each handler with the save it makes; \<open>Server_Invariant\<close>,
      \<open>Server_Properties\<close>.
    \<^item> \<open>Identity\<close>: \<^verbatim>\<open>core/src/identity.rs\<close> on Unix; \<open>Identity_Effects\<close>, \<open>Identity_Properties\<close>;
      \<open>Windows_Acl\<close>: \<^verbatim>\<open>core/src/identity/windows_acl.rs\<close> over the documented behaviour of the Windows calls.
    \<^item> \<open>Control_Message\<close>: \<^verbatim>\<open>core/src/protocol.rs\<close> and \<^verbatim>\<open>core/src/message.rs\<close>; \<open>Control_Properties\<close>.
    \<^item> \<open>Presets\<close>: \<^verbatim>\<open>core/src/presets.rs\<close>, the port and the delays of the host command; \<open>Tls_Config\<close>:
      \<^verbatim>\<open>core/src/crypto.rs\<close> and \<^verbatim>\<open>tls_server_config\<close> of \<^verbatim>\<open>server/src/relay.rs\<close>.
    \<^item> \<open>Client\<close>: \<^verbatim>\<open>cli/src/tunnel.rs\<close> and the commands of \<^verbatim>\<open>cli/src/main.rs\<close>; \<open>Client_Properties\<close>;
      \<open>Host_Command\<close>: the host's loop in \<^verbatim>\<open>main\<close>.
    \<^item> \<open>Relay_Tunnel\<close>: \<^verbatim>\<open>server/src/tunnel.rs\<close>; \<open>Relay_System\<close>: \<^verbatim>\<open>server/src/relay.rs\<close> and \<^verbatim>\<open>server/src/main.rs\<close>
      with all connections at once, a step being what one task does while it holds the lock;
      \<open>Relay_Invariant\<close>, \<open>Relay_Properties\<close>.
    \<^item> \<open>Bridge\<close>: \<^verbatim>\<open>bridge.rs\<close> of the three crates, both directions interleaved; \<open>Tunnel_Path\<close>: the relay's and
      the host's bridge with the QUIC stream between them.
    \<^item> \<open>Dialogue\<close>, \<open>Dialogue_Rotation\<close>, \<open>Dialogue_Properties\<close>, \<open>Recovery_Dialogue\<close>, \<open>Host_Properties\<close>: the client's
      functions run against the relay's, as bytes over a network that loses requests and cuts replies;
      \<open>Strangers\<close>: the relay under any traffic of clients that do not have a host's token or secret.

  \<^bold>\<open>What is shown.\<close>
    \<^item> Claims: ports, recovery keys and sessions are exclusive in every reachable table, the limits hold, the
      table refines the registry, and who is offered what, for how long, after each operation.
    \<^item> Persistence: a save is atomic under any failing call, load inverts it, migration loses nothing; while
      the relay calls its persistence healthy every claim is on disk, and otherwise it grants nothing.
    \<^item> The relay as a whole: its limits in every interleaving, one guard for each active session, and that it
      can always drain.
    \<^item> The client: files are never torn, tokens are stable, damaged files are refused, access lists on Windows
      are the owner's alone, recovery codes are read back.
    \<^item> Among strangers: nobody without a host's token or recovery secret can take its claim or is given its port.
    \<^item> Both together: replies are expected, a rotation never locks its host out, a lost acknowledgement is made
      good, a recovery evicts a thief, a disconnected host gets its port back in bounded time after an outage
      its claim outlives, and a player's bytes arrive in order and in full.

  \<^bold>\<open>Parameters and their contracts.\<close> Code outside the repository is an argument: SHA-256 and random bytes,
  \<^verbatim>\<open>serde_json\<close> (\<open>serde_json_spec\<close>), \<^verbatim>\<open>bincode\<close> (\<open>bincode_spec\<close>), \<^verbatim>\<open>tempfile\<close> (\<open>tempfile_spec\<close>), \<^verbatim>\<open>tokio\<close>'s streams
  (\<open>async_write_spec\<close>, \<open>async_read_spec\<close>) and copying (\<open>tokio_copy\<close>), \<^verbatim>\<open>rustls\<close> and \<^verbatim>\<open>quinn\<close>, the Windows API
  (\<open>win32_spec\<close>). Each locale states documented behaviour and is interpreted on a concrete model; the
  instances of the properties use these.

  \<^bold>\<open>Bounds.\<close> No fuel is used. \<open>u16\<close>, \<open>u32\<close> and \<open>u64\<close> are words with the source's checked and saturating
  operations; the loops over ports, records and retries are structural in the list they run over; the
  client's control loop, which a relay may keep busy, is partial, and \<open>control_task_ends\<close> shows that it
  returns on every finite stream. The transition systems of the relay, of the bridge and of the path have no
  bound on the number of connections, bytes or steps.

  \<^bold>\<open>Not modelled.\<close> Logging and the printed text; \<^verbatim>\<open>clap\<close>'s parsing of the command line; the cryptography,
  QUIC's transport and the scheduler, which are parameters or the choice of the next step; times between
  steps, except where a handler reads the clock (the ten seconds for a registration are a step that may
  happen at any time); the text of an \<^verbatim>\<open>anyhow\<close> error beyond which error it is; and functions compiled for
  tests alone. What the sources hold beyond these is modelled; the lines of a file that no definition
  stands for are its tests, imports, attributes and log calls.
\<close>

end
